(* ===== verification/Prelude.thy ===== *)
theory Prelude
  imports Main "HOL-Library.Word"
begin

text \<open>
  Shared vocabulary of the development: the exceptions of the C++ code, the programs that read
  and write a state and may throw, the integer conversions of the source, and the generic lemmas
  on programs, lists and strings that the component theories use.
\<close>

named_theorems prog_simps "equations that run a program on a state"

section \<open>Machine integers\<close>

text \<open>
  A C++ \<open>int\<close> or \<open>std::int64_t\<close> value is an \<^typ>\<open>int\<close>; every conversion to the type wraps as the
  two's complement conversion of the source does.
\<close>

type_synonym u8 = "8 word"
type_synonym u32 = "32 word"
type_synonym u64 = "64 word"

definition to_int32 :: "int \<Rightarrow> int" where
  "to_int32 x = sint (word_of_int x :: u32)"

definition to_int64 :: "int \<Rightarrow> int" where
  "to_int64 x = sint (word_of_int x :: u64)"

definition in_int32 :: "int \<Rightarrow> bool" where
  "in_int32 x \<longleftrightarrow> - 2147483648 \<le> x \<and> x < 2147483648"

definition in_int64 :: "int \<Rightarrow> bool" where
  "in_int64 x \<longleftrightarrow> - 9223372036854775808 \<le> x \<and> x < 9223372036854775808"

lemma to_int32_id [simp]: "in_int32 x \<Longrightarrow> to_int32 x = x"
  unfolding to_int32_def in_int32_def
  by (simp add: signed_of_int signed_take_bit_int_eq_self)

lemma to_int64_id [simp]: "in_int64 x \<Longrightarrow> to_int64 x = x"
  unfolding to_int64_def in_int64_def
  by (simp add: signed_of_int signed_take_bit_int_eq_self)

lemma in_int32_to_int32 [simp]: "in_int32 (to_int32 x)"
  using signed_take_bit_int_less_exp [of 31 x] signed_take_bit_int_greater_eq_minus_exp [of 31 x]
  by (simp add: to_int32_def in_int32_def signed_of_int)

lemma in_int64_to_int64 [simp]: "in_int64 (to_int64 x)"
  using signed_take_bit_int_less_exp [of 63 x] signed_take_bit_int_greater_eq_minus_exp [of 63 x]
  by (simp add: to_int64_def in_int64_def signed_of_int)

lemma in_int32_int64: "in_int32 x \<Longrightarrow> in_int64 x"
  by (simp add: in_int32_def in_int64_def)

section \<open>Exceptions and programs\<close>

text \<open>
  The exceptions that the source throws or lets through. \<open>RuntimeError\<close> is
  \<open>std::runtime_error\<close>, \<open>OutOfRange\<close> and \<open>InvalidArgument\<close> come from the standard library
  (\<open>map::at\<close>, \<open>stoi\<close>, \<open>stoll\<close>, \<open>stod\<close>). \<open>OutOfBounds\<close> is no C++ exception: it marks an access
  beyond the terminator of a string, which is undefined behaviour, and \<open>OutOfFuel\<close> marks a
  recursion of the model cut off by its bound. Both are shown not to occur.
\<close>

datatype exn =
    RuntimeError string
  | OutOfRange string
  | InvalidArgument string
  | OutOfBounds
  | OutOfFuel

text \<open>Computations without a state that may throw.\<close>

definition bindE :: "exn + 'a \<Rightarrow> ('a \<Rightarrow> exn + 'b) \<Rightarrow> exn + 'b" where
  "bindE r f = (case r of Inl e \<Rightarrow> Inl e | Inr a \<Rightarrow> f a)"

lemma bindE_simps [simp]: "bindE (Inl e) f = Inl e" "bindE (Inr a) f = f a"
  by (simp_all add: bindE_def)

lemma bindE_eq_Inr: "bindE r f = Inr b \<longleftrightarrow> (\<exists>a. r = Inr a \<and> f a = Inr b)"
  by (cases r) auto

lemma bindE_eq_Inl: "bindE r f = Inl e \<longleftrightarrow> r = Inl e \<or> (\<exists>a. r = Inr a \<and> f a = Inl e)"
  by (cases r) auto

lemma bindE_cong [fundef_cong]:
  "r = r' \<Longrightarrow> (\<And>a. r' = Inr a \<Longrightarrow> f a = g a) \<Longrightarrow> bindE r f = bindE r' g"
  by (cases r') auto

text \<open>
  A program takes a state and returns either a thrown exception or a value, with the state it
  left behind; the effects made before a throw stay.
\<close>

type_synonym ('s, 'a) prog = "'s \<Rightarrow> (exn + 'a) \<times> 's"

definition returnP :: "'a \<Rightarrow> ('s, 'a) prog" where
  "returnP a = (\<lambda>s. (Inr a, s))"

definition throwP :: "exn \<Rightarrow> ('s, 'a) prog" where
  "throwP e = (\<lambda>s. (Inl e, s))"

definition liftP :: "exn + 'a \<Rightarrow> ('s, 'a) prog" where
  "liftP r = (\<lambda>s. (r, s))"

definition bindP :: "('s, 'a) prog \<Rightarrow> ('a \<Rightarrow> ('s, 'b) prog) \<Rightarrow> ('s, 'b) prog" where
  "bindP m f = (\<lambda>s. case m s of (Inl e, t) \<Rightarrow> (Inl e, t) | (Inr a, t) \<Rightarrow> f a t)"

definition thenP :: "('s, 'a) prog \<Rightarrow> ('s, 'b) prog \<Rightarrow> ('s, 'b) prog" where
  "thenP m k = bindP m (\<lambda>_. k)"

definition getP :: "('s \<Rightarrow> 'a) \<Rightarrow> ('s, 'a) prog" where
  "getP f = (\<lambda>s. (Inr (f s), s))"

definition modifyP :: "('s \<Rightarrow> 's) \<Rightarrow> ('s, unit) prog" where
  "modifyP f = (\<lambda>s. (Inr (), f s))"

definition whenP :: "bool \<Rightarrow> ('s, unit) prog \<Rightarrow> ('s, unit) prog" where
  "whenP b m = (if b then m else returnP ())"

text \<open>\<open>try { m } catch (...) { h }\<close>\<close>

definition catchP :: "('s, 'a) prog \<Rightarrow> ('s, 'a) prog \<Rightarrow> ('s, 'a) prog" where
  "catchP m h = (\<lambda>s. case m s of (Inl e, t) \<Rightarrow> h t | (Inr a, t) \<Rightarrow> (Inr a, t))"

text \<open>\<open>for (x : xs) f(x)\<close>\<close>

primrec forP :: "'a list \<Rightarrow> ('a \<Rightarrow> ('s, unit) prog) \<Rightarrow> ('s, unit) prog" where
  "forP [] f = returnP ()"
| "forP (x # xs) f = thenP (f x) (forP xs f)"

text \<open>The loop that collects one result per element.\<close>

primrec mapP :: "('a \<Rightarrow> ('s, 'b) prog) \<Rightarrow> 'a list \<Rightarrow> ('s, 'b list) prog" where
  "mapP f [] = returnP []"
| "mapP f (x # xs) = bindP (f x) (\<lambda>y. bindP (mapP f xs) (\<lambda>ys. returnP (y # ys)))"

lemma returnP_run [prog_simps]: "returnP a s = (Inr a, s)"
  by (simp add: returnP_def)

lemma throwP_run [prog_simps]: "throwP e s = (Inl e, s)"
  by (simp add: throwP_def)

lemma liftP_run [prog_simps]: "liftP r s = (r, s)"
  by (simp add: liftP_def)

lemma bindP_run [prog_simps]:
  "bindP m f s = (case m s of (Inl e, t) \<Rightarrow> (Inl e, t) | (Inr a, t) \<Rightarrow> f a t)"
  by (simp add: bindP_def)

lemma thenP_run [prog_simps]:
  "thenP m k s = (case m s of (Inl e, t) \<Rightarrow> (Inl e, t) | (Inr _, t) \<Rightarrow> k t)"
  by (simp add: thenP_def bindP_def split: prod.split sum.split)

lemma getP_run [prog_simps]: "getP f s = (Inr (f s), s)"
  by (simp add: getP_def)

lemma modifyP_run [prog_simps]: "modifyP f s = (Inr (), f s)"
  by (simp add: modifyP_def)

lemma whenP_run [prog_simps]: "whenP b m s = (if b then m s else (Inr (), s))"
  by (simp add: whenP_def returnP_def)

lemma catchP_run [prog_simps]:
  "catchP m h s = (case m s of (Inl e, t) \<Rightarrow> h t | (Inr a, t) \<Rightarrow> (Inr a, t))"
  by (simp add: catchP_def)

lemma bindP_return [simp]: "bindP (returnP a) f = f a"
  by (simp add: bindP_def returnP_def)

lemma bindP_assoc: "bindP (bindP m f) g = bindP m (\<lambda>x. bindP (f x) g)"
  by (rule ext) (simp add: bindP_def split: prod.split sum.split)

subsection \<open>Programs on a part of the state\<close>

text \<open>A member object's method runs on its own part of the state and leaves the rest alone.\<close>

definition zoomP :: "('s \<Rightarrow> 't) \<Rightarrow> (('t \<Rightarrow> 't) \<Rightarrow> 's \<Rightarrow> 's) \<Rightarrow> ('t, 'a) prog \<Rightarrow> ('s, 'a) prog" where
  "zoomP g u m = (\<lambda>s. case m (g s) of (r, t) \<Rightarrow> (r, u (\<lambda>_. t) s))"

lemma zoomP_run [prog_simps]: "zoomP g u m s = (case m (g s) of (r, t) \<Rightarrow> (r, u (\<lambda>_. t) s))"
  by (simp add: zoomP_def)

subsection \<open>What every run of a program keeps\<close>

text \<open>
  \<open>keeps R m\<close> says that the state before and after any run of \<open>m\<close>, thrown or not, are related by
  \<open>R\<close>. For a reflexive and transitive relation the rules below follow the program's structure, so
  a frame condition or an invariant of a handler comes from those of the calls it makes.
\<close>

definition keeps :: "('s \<Rightarrow> 's \<Rightarrow> bool) \<Rightarrow> ('s, 'a) prog \<Rightarrow> bool" where
  "keeps R m \<longleftrightarrow> (\<forall>s. R s (snd (m s)))"

lemma keepsI: "(\<And>s. R s (snd (m s))) \<Longrightarrow> keeps R m"
  by (simp add: keeps_def)

lemma keepsD: "keeps R m \<Longrightarrow> R s (snd (m s))"
  by (simp add: keeps_def)

lemma keepsD2: "keeps R m \<Longrightarrow> m s = (r, t) \<Longrightarrow> R s t"
  using keepsD [of R m s] by simp

locale step_relation =
  fixes R :: "'s \<Rightarrow> 's \<Rightarrow> bool"
  assumes refl: "R s s"
    and trans: "R s t \<Longrightarrow> R t u \<Longrightarrow> R s u"
begin

lemma keeps_return: "keeps R (returnP a)"
  by (simp add: keeps_def returnP_def refl)

lemma keeps_throw: "keeps R (throwP e)"
  by (simp add: keeps_def throwP_def refl)

lemma keeps_lift: "keeps R (liftP r)"
  by (simp add: keeps_def liftP_def refl)

lemma keeps_get: "keeps R (getP f)"
  by (simp add: keeps_def getP_def refl)

lemma keeps_bind: "keeps R m \<Longrightarrow> (\<And>a. keeps R (f a)) \<Longrightarrow> keeps R (bindP m f)"
  by (auto simp: keeps_def bindP_def split: prod.split sum.split intro: trans)
     (metis snd_conv trans)+

lemma keeps_then: "keeps R m \<Longrightarrow> keeps R k \<Longrightarrow> keeps R (thenP m k)"
  by (simp add: thenP_def keeps_bind)

lemma keeps_when: "(b \<Longrightarrow> keeps R m) \<Longrightarrow> keeps R (whenP b m)"
  by (simp add: whenP_def keeps_return)

lemma keeps_if: "(b \<Longrightarrow> keeps R m) \<Longrightarrow> (\<not> b \<Longrightarrow> keeps R k) \<Longrightarrow> keeps R (if b then m else k)"
  by simp

lemma keeps_option:
  "keeps R m \<Longrightarrow> (\<And>a. x = Some a \<Longrightarrow> keeps R (f a)) \<Longrightarrow> keeps R (case x of None \<Rightarrow> m | Some a \<Rightarrow> f a)"
  by (cases x) auto

lemma keeps_catch: "keeps R m \<Longrightarrow> keeps R h \<Longrightarrow> keeps R (catchP m h)"
  by (auto simp: keeps_def catchP_def split: prod.split sum.split) (metis snd_conv trans)+

lemma keeps_for: "(\<And>x. x \<in> set xs \<Longrightarrow> keeps R (f x)) \<Longrightarrow> keeps R (forP xs f)"
  by (induction xs) (auto intro: keeps_return keeps_then)

lemma keeps_map: "(\<And>x. x \<in> set xs \<Longrightarrow> keeps R (f x)) \<Longrightarrow> keeps R (mapP f xs)"
  by (induction xs) (auto intro!: keeps_return keeps_bind)

lemmas keeps_rules = keeps_return keeps_throw keeps_lift keeps_get keeps_bind keeps_then
  keeps_when keeps_if keeps_option keeps_catch keeps_for keeps_map

end

section \<open>Strings and lists\<close>

text \<open>\<open>s.find(pat) != std::string::npos\<close>\<close>

fun is_prefix :: "'a list \<Rightarrow> 'a list \<Rightarrow> bool" where
  "is_prefix [] ys = True"
| "is_prefix (x # xs) [] = False"
| "is_prefix (x # xs) (y # ys) = (x = y \<and> is_prefix xs ys)"

fun str_contains :: "'a list \<Rightarrow> 'a list \<Rightarrow> bool" where
  "str_contains pat [] = (pat = [])"
| "str_contains pat (y # ys) = (is_prefix pat (y # ys) \<or> str_contains pat ys)"

lemma is_prefix_iff: "is_prefix xs ys \<longleftrightarrow> (\<exists>zs. ys = xs @ zs)"
  by (induction xs ys rule: is_prefix.induct) auto

lemma str_contains_iff: "str_contains pat s \<longleftrightarrow> (\<exists>l r. s = l @ pat @ r)"
proof (induction s)
  case (Cons c s)
  have "(\<exists>l r. c # s = l @ pat @ r) \<longleftrightarrow> (\<exists>r. c # s = pat @ r) \<or> (\<exists>l r. s = l @ pat @ r)"
    (is "?L \<longleftrightarrow> ?R")
  proof
    assume ?L
    then obtain l r where "c # s = l @ pat @ r" by blast
    then show ?R by (cases l) auto
  next
    assume ?R
    then show ?L
    proof
      assume "\<exists>r. c # s = pat @ r"
      then obtain r where "c # s = [] @ pat @ r" by auto
      then show ?L by blast
    next
      assume "\<exists>l r. s = l @ pat @ r"
      then obtain l r where "c # s = (c # l) @ pat @ r" by auto
      then show ?L by blast
    qed
  qed
  then show ?case by (simp add: Cons.IH is_prefix_iff)
qed auto

lemma find_SomeD: "find P xs = Some x \<Longrightarrow> x \<in> set xs \<and> P x"
  by (induction xs) (auto split: if_splits)

text \<open>A NUL terminated read of a character sequence: what \<open>std::string(const char*)\<close> takes.\<close>

definition NUL :: char where
  "NUL = CHR 0x00"

definition c_str :: "string \<Rightarrow> string" where
  "c_str s = takeWhile (\<lambda>c. c \<noteq> NUL) s"

lemma c_str_id [simp]: "NUL \<notin> set s \<Longrightarrow> c_str s = s"
  unfolding c_str_def by (rule takeWhile_eq_all_conv [THEN iffD2]) auto

section \<open>Fresh identifiers\<close>

text \<open>
  The repositories give a new row the identifier one above the largest in use. The contract: the
  next identifier is above every identifier in use; what follows is that it is new and that
  identifiers stay distinct.
\<close>

locale id_supply =
  fixes ids :: "'rows \<Rightarrow> int list"
    and next_id :: "'rows \<Rightarrow> int"
    and ok :: "'rows \<Rightarrow> bool"
  assumes above: "ok rs \<Longrightarrow> i \<in> set (ids rs) \<Longrightarrow> i < next_id rs"
begin

lemma fresh: "ok rs \<Longrightarrow> next_id rs \<notin> set (ids rs)"
  using above by blast

lemma distinct_snoc: "ok rs \<Longrightarrow> distinct (ids rs) \<Longrightarrow> distinct (ids rs @ [next_id rs])"
  using fresh by simp

end

end
