(* ===== verification/FrameCodec.thy ===== *)
theory FrameCodec
  imports Prelude
begin

text \<open>
  Length-prefixed framing: \<^verbatim>\<open>src/server/src/FrameCodec.cpp\<close> and \<^verbatim>\<open>FrameCodec.h\<close>. A byte is an
  \<^typ>\<open>u8\<close>, a message a \<^typ>\<open>string\<close>. The loop that empties a receive buffer (in
  \<open>AsyncSession::doRead\<close>) is \<open>decode_frames\<close>.

  Shown here: encoding and decoding are inverse, a frame split over several reads is put together
  again, and what the decoder does with a length it does not accept. The contract of a framing
  code, with what follows from it for a stream of messages, is the locale \<open>framing\<close>, which the
  code of the original application (theory LegacyCodec) satisfies as well.
\<close>

unbundle bit_operations_syntax

section \<open>Encoding and decoding\<close>

definition MaxFrameBytes :: u32 where
  "MaxFrameBytes = 256 * 1024"

definition byte_of_char :: "char \<Rightarrow> u8" where
  "byte_of_char c = word_of_nat (of_char c)"

definition char_of_byte :: "u8 \<Rightarrow> char" where
  "char_of_byte b = char_of (unat b)"

definition bytes_of_string :: "string \<Rightarrow> u8 list" where
  "bytes_of_string s = map byte_of_char s"

definition string_of_bytes :: "u8 list \<Rightarrow> string" where
  "string_of_bytes bs = map char_of_byte bs"

text \<open>The four length bytes, most significant first.\<close>

definition length_bytes :: "u32 \<Rightarrow> u8 list" where
  "length_bytes len =
     [ucast (drop_bit 24 len AND 0xff), ucast (drop_bit 16 len AND 0xff),
      ucast (drop_bit 8 len AND 0xff), ucast (len AND 0xff)]"

definition length_word :: "u8 \<Rightarrow> u8 \<Rightarrow> u8 \<Rightarrow> u8 \<Rightarrow> u32" where
  "length_word b0 b1 b2 b3 =
     push_bit 24 (ucast b0) OR push_bit 16 (ucast b1) OR push_bit 8 (ucast b2) OR ucast b3"

definition encode :: "string \<Rightarrow> exn + u8 list" where
  "encode json =
     (if length json > unat MaxFrameBytes then Inl (RuntimeError ''frame too large'')
      else
        let len = (word_of_nat (length json) :: u32)
        in Inr (length_bytes len @ bytes_of_string json))"

text \<open>
  \<open>tryDecode(buffer, outJson)\<close>: the value returned, the buffer left, and \<open>outJson\<close> where the
  call sets it.
\<close>

definition tryDecode :: "u8 list \<Rightarrow> string \<Rightarrow> bool \<times> u8 list \<times> string" where
  "tryDecode buffer outJson =
     (if length buffer < 4 then (False, buffer, outJson)
      else
        let len = length_word (buffer ! 0) (buffer ! 1) (buffer ! 2) (buffer ! 3)
        in if len = 0 \<or> len > MaxFrameBytes then (False, [], [])
           else if length buffer < unat (4 + len) then (False, buffer, outJson)
           else (True, drop (unat (4 + len)) buffer,
                 string_of_bytes (take (unat len) (drop 4 buffer))))"

text \<open>
  \<open>while (FrameCodec::tryDecode(read_accumulator_, message)) \<dots>\<close>: the messages decoded, each with
  the buffer that is left after it, and the buffer when the loop ends.
\<close>

lemma tryDecode_shrinks: "tryDecode b m = (True, b', m') \<Longrightarrow> length b' < length b"
proof -
  assume a: "tryDecode b m = (True, b', m')"
  let ?len = "length_word (b ! 0) (b ! 1) (b ! 2) (b ! 3)"
  from a have l: "?len \<noteq> 0" "?len \<le> MaxFrameBytes" "4 \<le> length b" "unat (4 + ?len) \<le> length b"
      "b' = drop (unat (4 + ?len)) b"
    by (auto simp: tryDecode_def Let_def split: if_splits)
  then have "unat ?len \<le> 262144" by (simp add: MaxFrameBytes_def word_le_nat_alt)
  then have "unat (4 + ?len) = 4 + unat ?len" by (simp add: unat_word_ariths)
  with l show ?thesis by simp
qed

function decode_frames :: "u8 list \<Rightarrow> string \<Rightarrow> (string \<times> u8 list) list \<times> u8 list" where
  "decode_frames buffer out =
     (case tryDecode buffer out of
        (True, b, m) \<Rightarrow> (case decode_frames b m of (fs, r) \<Rightarrow> ((m, b) # fs, r))
      | (False, b, m) \<Rightarrow> ([], b))"
  by pat_completeness auto
termination
  by (relation "measure (\<lambda>(b, _). length b)") (auto dest: tryDecode_shrinks [OF sym])

declare decode_frames.simps [simp del]

section \<open>Bytes and characters\<close>

lemma unat_byte_of_char: "unat (byte_of_char c) = of_char c"
  unfolding byte_of_char_def using nat_of_char_less_256 [of c] by (simp add: unat_of_nat)

lemma char_of_byte_of_char [simp]: "char_of_byte (byte_of_char c) = c"
  by (simp add: char_of_byte_def unat_byte_of_char)

lemma string_of_bytes_of_string [simp]: "string_of_bytes (bytes_of_string s) = s"
  by (simp add: string_of_bytes_def bytes_of_string_def comp_def)

lemma length_bytes_of_string [simp]: "length (bytes_of_string s) = length s"
  by (simp add: bytes_of_string_def)

lemma low_byte_mask: "(0xff :: u32) = mask 8"
  by (simp add: mask_eq_exp_minus_1)

lemma length_word_bytes:
  "length_word (length_bytes len ! 0) (length_bytes len ! 1) (length_bytes len ! 2)
     (length_bytes len ! 3) = len"
proof (rule bit_word_eqI)
  fix n assume "n < LENGTH(32)"
  then consider "n < 8" | "8 \<le> n" "n < 16" | "16 \<le> n" "n < 24" | "24 \<le> n" "n < 32"
    by (cases "n < 8"; cases "n < 16"; cases "n < 24") auto
  then show "bit (length_word (length_bytes len ! 0) (length_bytes len ! 1) (length_bytes len ! 2)
     (length_bytes len ! 3)) n = bit len n"
    by cases (auto simp: length_word_def length_bytes_def low_byte_mask bit_push_bit_iff bit_or_iff
        bit_unsigned_iff bit_and_iff bit_drop_bit_eq bit_mask_iff)
qed

section \<open>One frame\<close>

lemma unat_MaxFrameBytes [simp]: "unat MaxFrameBytes = 262144"
  by (simp add: MaxFrameBytes_def)

text \<open>What \<open>encode\<close> returns where it does not throw.\<close>

definition frame :: "string \<Rightarrow> u8 list" where
  "frame json = length_bytes (word_of_nat (length json)) @ bytes_of_string json"

lemma encode_frame:
  "encode json = (if length json \<le> 262144 then Inr (frame json)
     else Inl (RuntimeError ''frame too large''))"
  by (simp add: encode_def frame_def Let_def)

lemma length_length_bytes [simp]: "length (length_bytes len) = 4"
  by (simp add: length_bytes_def)

lemma length_frame [simp]: "length (frame json) = 4 + length json"
  by (simp add: frame_def)

lemma length_word_prefix:
  "length_word ((length_bytes len @ r) ! 0) ((length_bytes len @ r) ! 1)
     ((length_bytes len @ r) ! 2) ((length_bytes len @ r) ! 3) = len"
  using length_word_bytes [of len] by (simp add: nth_append)

lemma frame_len:
  assumes "0 < length json" "length json \<le> 262144"
  shows "(word_of_nat (length json) :: u32) \<noteq> 0"
    "\<not> (word_of_nat (length json) :: u32) > MaxFrameBytes"
    "unat (word_of_nat (length json) :: u32) = length json"
    "unat (4 + (word_of_nat (length json) :: u32)) = 4 + length json"
proof -
  show u: "unat (word_of_nat (length json) :: u32) = length json"
    using assms by (simp add: unat_of_nat)
  then show "(word_of_nat (length json) :: u32) \<noteq> 0" using assms by force
  show "\<not> (word_of_nat (length json) :: u32) > MaxFrameBytes"
    using u assms by (simp add: word_less_nat_alt)
  show "unat (4 + (word_of_nat (length json) :: u32)) = 4 + length json"
    using u assms by (simp add: unat_word_ariths)
qed

text \<open>A complete frame is taken from the front of the buffer, whatever follows it.\<close>

lemma tryDecode_frame:
  assumes "0 < length json" "length json \<le> 262144"
  shows "tryDecode (frame json @ rest) out = (True, rest, json)"
  using frame_len [OF assms] length_word_prefix [of "word_of_nat (length json)" "bytes_of_string json @ rest"]
  unfolding tryDecode_def frame_def by (simp add: Let_def)

text \<open>A frame that has not arrived in full stays in the buffer.\<close>

lemma tryDecode_partial:
  assumes "0 < length json" "length json \<le> 262144" "frame json = p @ q" "q \<noteq> []"
  shows "tryDecode p out = (False, p, out)"
proof (cases "length p < 4")
  case False
  let ?len = "word_of_nat (length json) :: u32"
  have p: "p ! i = length_bytes ?len ! i" if "i < 4" for i
    using that False assms(3) by (metis append_assoc frame_def length_length_bytes not_le nth_append order_less_le_trans)
  have "length_word (p ! 0) (p ! 1) (p ! 2) (p ! 3) = ?len"
    using length_word_bytes [of ?len] by (simp add: p)
  moreover have "length p < 4 + length json"
    using arg_cong [OF assms(3), of length] assms(4) by simp
  ultimately show ?thesis
    using False frame_len [OF assms(1,2)] unfolding tryDecode_def by (simp add: Let_def)
qed (simp add: tryDecode_def)

section \<open>Streams of frames\<close>

text \<open>
  Reads hand the receiver the byte stream in chunks: each chunk is appended to what was kept, the
  complete frames are taken off, and \<open>settle\<close> says what is kept of the rest.
\<close>

primrec feed_chunks ::
  "('b list \<Rightarrow> 'm list \<times> 'b list) \<Rightarrow> ('b list \<Rightarrow> 'b list) \<Rightarrow> 'b list \<Rightarrow> 'b list list \<Rightarrow>
     'm list \<times> 'b list" where
  "feed_chunks drain settle acc [] = ([], acc)"
| "feed_chunks drain settle acc (c # cs) =
     (case drain (acc @ c) of (ms, r) \<Rightarrow>
        case feed_chunks drain settle (settle r) cs of (ms', r') \<Rightarrow> (ms @ ms', r'))"

locale framing =
  fixes enc :: "'m \<Rightarrow> 'b list"
    and ok :: "'m \<Rightarrow> bool"
    and drain :: "'b list \<Rightarrow> 'm list \<times> 'b list"
    and settle :: "'b list \<Rightarrow> 'b list"
  assumes enc_nonempty: "ok m \<Longrightarrow> enc m \<noteq> []"
    and drain_Nil: "drain [] = ([], [])"
    and drain_frame: "ok m \<Longrightarrow> drain (enc m @ r) = (case drain r of (ms, r') \<Rightarrow> (m # ms, r'))"
    and drain_partial: "ok m \<Longrightarrow> enc m = p @ q \<Longrightarrow> q \<noteq> [] \<Longrightarrow> drain p = ([], p)"
    and settle_Nil: "settle [] = []"
    and settle_partial: "ok m \<Longrightarrow> enc m = p @ q \<Longrightarrow> q \<noteq> [] \<Longrightarrow> settle p = p"
begin

lemma drain_stream:
  "\<forall>m \<in> set ms. ok m \<Longrightarrow>
     drain (concat (map enc ms) @ r) = (ms @ fst (drain r), snd (drain r))"
  by (induction ms) (auto simp: drain_frame split: prod.split)

lemma stream_split:
  assumes "b @ rest = concat (map enc ms)"
  obtains ms1 ms2 p where "ms = ms1 @ ms2" "b = concat (map enc ms1) @ p"
    "p @ rest = concat (map enc ms2)" "p = [] \<or> (\<exists>q. enc (hd ms2) = p @ q \<and> q \<noteq> [] \<and> ms2 \<noteq> [])"
  using assms
proof (induction ms arbitrary: b thesis)
  case Nil
  then show ?case by simp
next
  case (Cons m ms)
  have e: "b @ rest = enc m @ concat (map enc ms)" using Cons.prems(2) by simp
  then obtain us where us: "b = enc m @ us \<and> us @ rest = concat (map enc ms)
      \<or> b @ us = enc m \<and> rest = us @ concat (map enc ms) \<and> us \<noteq> []"
    unfolding append_eq_append_conv2 by (metis append_Nil append_Nil2)
  then show ?case
  proof
    assume a: "b = enc m @ us \<and> us @ rest = concat (map enc ms)"
    obtain ms1 ms2 p where "ms = ms1 @ ms2" "us = concat (map enc ms1) @ p"
      "p @ rest = concat (map enc ms2)" "p = [] \<or> (\<exists>q. enc (hd ms2) = p @ q \<and> q \<noteq> [] \<and> ms2 \<noteq> [])"
      using Cons.IH a by blast
    with a show ?thesis by (intro Cons.prems(1) [of "m # ms1" ms2 p]) auto
  next
    assume a: "b @ us = enc m \<and> rest = us @ concat (map enc ms) \<and> us \<noteq> []"
    then show ?thesis by (intro Cons.prems(1) [of "[]" "m # ms" b]) (auto dest: sym)
  qed
qed

text \<open>However the stream is cut into chunks, the messages come out whole, once and in order.\<close>

lemma feed_from:
  assumes "\<forall>m \<in> set ms. ok m" "acc @ concat chunks = concat (map enc ms)"
    "acc = [] \<or> (\<exists>q. enc (hd ms) = acc @ q \<and> q \<noteq> [] \<and> ms \<noteq> [])"
  shows "feed_chunks drain settle acc chunks = (ms, [])"
  using assms
proof (induction chunks arbitrary: acc ms)
  case Nil
  then show ?case using enc_nonempty by (cases ms) auto
next
  case (Cons c chunks)
  have "(acc @ c) @ concat chunks = concat (map enc ms)" using Cons.prems(2) by simp
  then obtain ms1 ms2 p where sp: "ms = ms1 @ ms2" "acc @ c = concat (map enc ms1) @ p"
    "p @ concat chunks = concat (map enc ms2)"
    "p = [] \<or> (\<exists>q. enc (hd ms2) = p @ q \<and> q \<noteq> [] \<and> ms2 \<noteq> [])"
    by (rule stream_split)
  have "ms2 \<noteq> [] \<Longrightarrow> ok (hd ms2)" using sp(1) Cons.prems(1) by simp
  then have p: "drain p = ([], p)" "settle p = p"
    using sp(4) drain_Nil drain_partial settle_Nil settle_partial by blast+
  have "drain (acc @ c) = (ms1, p)"
    unfolding sp(2) using drain_stream [of ms1 p] sp(1) Cons.prems(1) p by simp
  moreover have "feed_chunks drain settle p chunks = (ms2, [])"
    using Cons.prems(1) sp by (intro Cons.IH) auto
  ultimately show ?case using p sp(1) by simp
qed

lemma feed_stream:
  "\<forall>m \<in> set ms. ok m \<Longrightarrow> concat chunks = concat (map enc ms) \<Longrightarrow>
     feed_chunks drain settle [] chunks = (ms, [])"
  by (rule feed_from) auto

end

section \<open>The server's framing\<close>

text \<open>
  The receive buffer of a session: \<open>doRead\<close> empties it by \<open>decode_frames\<close> and then drops what is
  left when it is longer than \<open>MaxFrameBytes\<close>.
\<close>

definition drain_frames :: "u8 list \<Rightarrow> string list \<times> u8 list" where
  "drain_frames b = (case decode_frames b [] of (fs, r) \<Rightarrow> (map fst fs, r))"

definition cap_buffer :: "u8 list \<Rightarrow> u8 list" where
  "cap_buffer r = (if length r > unat MaxFrameBytes then [] else r)"

text \<open>The messages that survive every way of cutting the stream: the header counts as well.\<close>

definition frame_ok :: "string \<Rightarrow> bool" where
  "frame_ok m \<longleftrightarrow> 0 < length m \<and> length m \<le> 262140"

lemma tryDecode_out:
  "fst (tryDecode b o1) = fst (tryDecode b o2)"
  "fst (snd (tryDecode b o1)) = fst (snd (tryDecode b o2))"
  "fst (tryDecode b o1) \<Longrightarrow> tryDecode b o1 = tryDecode b o2"
  by (auto simp: tryDecode_def Let_def split: if_splits)

lemma decode_frames_out: "decode_frames b o1 = decode_frames b o2"
  using tryDecode_out [of b o1 o2]
  by (cases "tryDecode b o1"; cases "tryDecode b o2")
     (auto simp: decode_frames.simps [of b o1] decode_frames.simps [of b o2] split: bool.split)

lemma decode_frames_frame:
  "0 < length m \<Longrightarrow> length m \<le> 262144 \<Longrightarrow>
     decode_frames (frame m @ r) out = (case decode_frames r [] of (fs, r') \<Rightarrow> ((m, r) # fs, r'))"
  using decode_frames_out [of r m "[]"]
  by (simp add: decode_frames.simps [of "frame m @ r" out] tryDecode_frame)

lemma decode_frames_partial:
  "0 < length m \<Longrightarrow> length m \<le> 262144 \<Longrightarrow> frame m = p @ q \<Longrightarrow> q \<noteq> [] \<Longrightarrow>
     decode_frames p out = ([], p)"
  by (simp add: decode_frames.simps [of p out] tryDecode_partial)

interpretation server_framing: framing frame frame_ok drain_frames cap_buffer
proof
  fix m :: string and r p q
  show "drain_frames [] = ([], [])"
    by (simp add: drain_frames_def decode_frames.simps tryDecode_def)
  show "cap_buffer [] = []" by (simp add: cap_buffer_def)
  assume "frame_ok m"
  then have m: "0 < length m" "length m \<le> 262144" "length m \<le> 262140"
    by (simp_all add: frame_ok_def)
  show "frame m \<noteq> []" by (simp add: frame_def length_bytes_def)
  show "drain_frames (frame m @ r) = (case drain_frames r of (ms, r') \<Rightarrow> (m # ms, r'))"
    using m by (simp add: drain_frames_def decode_frames_frame split: prod.split)
  assume pq: "frame m = p @ q" "q \<noteq> []"
  show "drain_frames p = ([], p)"
    using m pq by (simp add: drain_frames_def decode_frames_partial)
  show "cap_buffer p = p"
    using arg_cong [OF pq(1), of length] m by (simp add: cap_buffer_def)
qed

section \<open>Properties\<close>

text \<open>A message that \<open>encode\<close> accepts and that is not empty is decoded back unchanged from the
  front of any buffer, and exactly its frame is taken off; \<open>encode\<close> throws just for messages of more
  than 256 KiB.\<close>

theorem encode_tryDecode:
  "(\<forall>f. json \<noteq> [] \<longrightarrow> encode json = Inr f \<longrightarrow> tryDecode (f @ rest) out = (True, rest, json)) \<and>
   (encode json = Inl (RuntimeError ''frame too large'') \<longleftrightarrow> 262144 < length json)"
  by (auto simp: encode_frame tryDecode_frame)

theorem encode_tryDecode_witness:
  "encode ''{}'' = Inr [0, 0, 0, 2, 0x7b, 0x7d] \<and>
   tryDecode ([0, 0, 0, 2, 0x7b, 0x7d] @ [7]) [] = (True, [7], ''{}'')"
proof -
  have e: "encode ''{}'' = Inr [0, 0, 0, 2, 0x7b, 0x7d]"
    by (simp add: encode_def Let_def length_bytes_def bytes_of_string_def byte_of_char_def)
  then show ?thesis using encode_tryDecode [of "''{}''" "[7]" "[]"] by auto
qed

text \<open>C3: However the network cuts the byte stream of a peer into reads, a session's receive loop
  delivers the peer's messages whole, once each and in order, and its buffer ends empty, for
  messages of 1 to 262140 bytes.\<close>

theorem stream_reassembly:
  assumes "\<forall>m \<in> set ms. 0 < length m \<and> length m \<le> 262140"
    and "concat chunks = concat (map frame ms)"
  shows "feed_chunks drain_frames cap_buffer [] chunks = (ms, [])"
  using assms by (intro server_framing.feed_stream) (auto simp: frame_ok_def)

theorem stream_reassembly_witness:
  "feed_chunks drain_frames cap_buffer [] [[0, 0, 0, 1, 97, 0], [0, 0, 1], [98]] = ([''a'', ''b''], [])"
  by (rule stream_reassembly)
    (simp_all add: frame_def length_bytes_def bytes_of_string_def byte_of_char_def)



text \<open>A buffer that starts with a length of zero, as the frame of the empty message does, or with one
  above the limit is dropped as a whole with everything behind it, and nothing is delivered.\<close>

theorem invalid_length_drops_buffer:
  assumes "4 \<le> length b"
    and "length_word (b ! 0) (b ! 1) (b ! 2) (b ! 3) = 0 \<or>
         MaxFrameBytes < length_word (b ! 0) (b ! 1) (b ! 2) (b ! 3)"
  shows "drain_frames b = ([], []) \<and> encode [] = Inr (frame []) \<and> drain_frames (frame [] @ b) = ([], [])"
proof -
  have "frame [] @ b = [0, 0, 0, 0] @ b"
    by (simp add: frame_def length_bytes_def bytes_of_string_def)
  then show ?thesis
    using assms by (auto simp: drain_frames_def decode_frames.simps tryDecode_def Let_def encode_frame
        length_word_def)
qed

theorem invalid_length_drops_buffer_witness:
  "drain_frames ([255, 0, 0, 0] @ frame ''a'') = ([], []) \<and> encode [] = Inr (frame []) \<and>
   drain_frames (frame [] @ [255, 0, 0, 0] @ frame ''a'') = ([], [])"
  by (rule invalid_length_drops_buffer) (simp_all add: length_word_def MaxFrameBytes_def)

end
