(* ===== verification/Sqlite.thy ===== *)
theory Sqlite
  imports Prelude "HOL-Library.Multiset"
begin

text \<open>
  What the server takes from outside its own sources: the SQLite engine, whose amalgamation is not
  part of the sources, the clocks, the random bytes and the bcrypt routines, and the order in which
  \<open>std::sort\<close> leaves equal elements. They are the fields of the record \<open>env\<close>, an argument of the
  definitions that use them.

  \<open>sqlite_tables\<close>, \<open>sqlite_friendships\<close> and \<open>sqlite_schema\<close> state what the code relies on of the
  engine: the documented effect of the statements it executes, on a database whose files can be
  written. \<open>ref_engine\<close> is a small engine
  that satisfies it.
\<close>

section \<open>The environment\<close>

datatype sqlval = SqlInt int | SqlText string

text \<open>
  The engine on a connection \<open>'db\<close>. \<open>sq_exec\<close> is \<open>sqlite3_exec\<close>, with whether it returned
  \<open>SQLITE_OK\<close>. \<open>sq_select\<close> prepares a query, binds its parameters and steps through its rows, \<open>None\<close>
  if it cannot be prepared. \<open>sq_run\<close> prepares, binds and steps a statement that changes rows: whether
  the step returned \<open>SQLITE_DONE\<close>, and \<open>sqlite3_changes\<close>.
\<close>

record 'db sqlite =
  sq_open :: "string \<Rightarrow> bool \<times> 'db"
  sq_exec :: "string \<Rightarrow> 'db \<Rightarrow> bool \<times> 'db"
  sq_select :: "string \<Rightarrow> sqlval list \<Rightarrow> 'db \<Rightarrow> sqlval list list option"
  sq_run :: "string \<Rightarrow> sqlval list \<Rightarrow> 'db \<Rightarrow> (bool \<times> nat \<times> 'db) option"

text \<open>
  \<open>clock k\<close> and \<open>steady k\<close> are the \<open>k\<close>th readings of \<open>std::time\<close> (seconds) and of
  \<open>std::chrono::steady_clock\<close> (nanoseconds), \<open>entropy k\<close> the \<open>k\<close>th block of random bytes.
  \<open>sort_perm keys\<close> is the order in which \<open>std::sort\<close> arranges elements with these keys, as indices,
  \<open>hash_order keys\<close> the order in which an \<open>std::unordered_map\<close> with these keys is traversed.
\<close>

record 'db env =
  sqlite :: "'db sqlite"
  clock :: "nat \<Rightarrow> int"
  steady :: "nat \<Rightarrow> int"
  entropy :: "nat \<Rightarrow> string"
  crypt_gensalt_rn :: "string \<Rightarrow> nat \<Rightarrow> string \<Rightarrow> string option"
  crypt_rn :: "string \<Rightarrow> string \<Rightarrow> string option"
  sort_perm :: "int list \<Rightarrow> nat list"
  hash_order :: "nat list \<Rightarrow> nat list"

definition sort_ok :: "'db env \<Rightarrow> bool" where
  "sort_ok E \<longleftrightarrow> (\<forall>ks. mset (sort_perm E ks) = mset [0..<length ks] \<and>
     sorted (map ((!) ks) (sort_perm E ks)))"

definition order_ok :: "'db env \<Rightarrow> bool" where
  "order_ok E \<longleftrightarrow> (\<forall>ks. mset (hash_order E ks) = mset ks)"

section \<open>The statements\<close>

definition quoted :: "string \<Rightarrow> string" where
  "quoted name = [CHR 0x22] @ name @ [CHR 0x22]"

definition master_sql :: string where
  "master_sql = ''SELECT 1 FROM sqlite_master WHERE type='' @ [CHR 0x27] @ ''table'' @ [CHR 0x27] @
     '' AND name=?;''"

definition create_sql :: "string \<Rightarrow> string" where
  "create_sql name = ''CREATE TABLE '' @ quoted name @ '' (data TEXT NOT NULL);''"

definition select_sql :: "string \<Rightarrow> string" where
  "select_sql name = ''SELECT data FROM '' @ quoted name @ '';''"

definition delete_sql :: "string \<Rightarrow> string" where
  "delete_sql name = ''DELETE FROM '' @ quoted name @ '';''"

definition insert_sql :: "string \<Rightarrow> string" where
  "insert_sql name = ''INSERT INTO '' @ quoted name @ '' (data) VALUES (?);''"

definition index_sql :: "string \<Rightarrow> string \<Rightarrow> string \<Rightarrow> string" where
  "index_sql table indexName expression =
     ''CREATE INDEX IF NOT EXISTS '' @ quoted indexName @ '' ON '' @ quoted table @ ''('' @
     expression @ '');''"

definition begin_sql :: string where "begin_sql = ''BEGIN TRANSACTION;''"
definition commit_sql :: string where "commit_sql = ''COMMIT;''"
definition rollback_sql :: string where "rollback_sql = ''ROLLBACK;''"
definition wal_sql :: string where "wal_sql = ''PRAGMA journal_mode=WAL;''"
definition fk_sql :: string where "fk_sql = ''PRAGMA foreign_keys=ON;''"

definition lit :: "string \<Rightarrow> string" where
  "lit s = [CHR 0x27] @ s @ [CHR 0x27]"

definition friendships_sql :: string where
  "friendships_sql =
     ''CREATE TABLE IF NOT EXISTS friendships ('' @
     ''id INTEGER PRIMARY KEY AUTOINCREMENT,'' @
     ''from_uid INTEGER NOT NULL,'' @
     ''to_uid INTEGER NOT NULL,'' @
     ''status TEXT NOT NULL CHECK(status IN ('' @ lit ''pending'' @ '','' @ lit ''accepted'' @ '','' @
        lit ''rejected'' @ '')),'' @
     ''request_msg TEXT DEFAULT '' @ lit '''' @ '','' @
     ''created_at INTEGER NOT NULL,'' @
     ''updated_at INTEGER NOT NULL,'' @
     ''UNIQUE(from_uid, to_uid)'' @
     '');''"

definition idx_fs_from_sql :: string where
  "idx_fs_from_sql = ''CREATE INDEX IF NOT EXISTS idx_fs_from ON friendships(from_uid, status);''"

definition idx_fs_to_sql :: string where
  "idx_fs_to_sql = ''CREATE INDEX IF NOT EXISTS idx_fs_to ON friendships(to_uid, status);''"

definition idx_fs_both_sql :: string where
  "idx_fs_both_sql = ''CREATE INDEX IF NOT EXISTS idx_fs_both ON friendships(from_uid, to_uid);''"

definition fs_find_sql :: string where
  "fs_find_sql = ''SELECT from_uid,to_uid,status FROM friendships WHERE '' @
     ''(from_uid=? AND to_uid=?) OR (from_uid=? AND to_uid=?) LIMIT 1;''"

definition fs_touch_sql :: string where
  "fs_touch_sql = ''UPDATE friendships SET request_msg=?, updated_at=? '' @
     ''WHERE from_uid=? AND to_uid=? AND status='' @ lit ''pending'' @ '';''"

definition fs_insert_sql :: string where
  "fs_insert_sql =
     ''INSERT INTO friendships(from_uid,to_uid,status,request_msg,created_at,updated_at) '' @
     ''VALUES(?,?,?,?,?,?);''"

definition fs_delete_sql :: string where
  "fs_delete_sql = ''DELETE FROM friendships WHERE '' @
     ''(from_uid=? AND to_uid=?) OR (from_uid=? AND to_uid=?);''"

definition fs_are_sql :: string where
  "fs_are_sql = ''SELECT 1 FROM friendships WHERE status='' @ lit ''accepted'' @ '' AND '' @
     ''((from_uid=? AND to_uid=?) OR (from_uid=? AND to_uid=?)) LIMIT 1;''"

definition fs_friends_sql :: string where
  "fs_friends_sql = ''SELECT CASE WHEN from_uid=? THEN to_uid ELSE from_uid END AS friend_id '' @
     ''FROM friendships WHERE status='' @ lit ''accepted'' @ '' AND (from_uid=? OR to_uid=?);''"

definition fs_pending_sql :: string where
  "fs_pending_sql = ''SELECT from_uid,to_uid,status,request_msg FROM friendships '' @
     ''WHERE to_uid=? AND status='' @ lit ''pending'' @ '';''"

definition fs_status_sql :: string where
  "fs_status_sql = ''UPDATE friendships SET status=?, updated_at=? '' @
     ''WHERE from_uid=? AND to_uid=? AND status='' @ lit ''pending'' @ '';''"

section \<open>The contract\<close>

record friendship =
  fs_from :: int
  fs_to :: int
  fs_status :: string
  fs_msg :: string
  fs_created :: int
  fs_updated :: int

definition fs_pair :: "int \<Rightarrow> int \<Rightarrow> friendship \<Rightarrow> bool" where
  "fs_pair a b f \<longleftrightarrow> fs_from f = a \<and> fs_to f = b \<or> fs_from f = b \<and> fs_to f = a"

definition fs_is :: "int \<Rightarrow> int \<Rightarrow> friendship \<Rightarrow> bool" where
  "fs_is a b f \<longleftrightarrow> fs_from f = a \<and> fs_to f = b"

text \<open>The tables with one JSON text per row.\<close>

definition table_names :: "string list" where
  "table_names = [''schema_version'', ''users'', ''messages'', ''groups'', ''group_members'']"

text \<open>
  \<open>tab h t\<close> are the texts of table \<open>t\<close> in row order, \<open>fr h\<close> the rows of the table of friendships,
  \<open>None\<close> where the table does not exist.
\<close>

definition sqlite_tables ::
  "'db sqlite \<Rightarrow> ('db \<Rightarrow> string \<Rightarrow> string list option) \<Rightarrow> ('db \<Rightarrow> friendship list option) \<Rightarrow> bool"
where
  "sqlite_tables S tab fr \<longleftrightarrow>
     (\<forall>h q. q \<in> {begin_sql, commit_sql, rollback_sql, wal_sql, fk_sql} \<longrightarrow>
        (case sq_exec S q h of (_, h') \<Rightarrow> tab h' = tab h \<and> fr h' = fr h)) \<and>
     (\<forall>h t. t \<in> set table_names \<longrightarrow>
        sq_select S (select_sql t) [] h = map_option (map (\<lambda>x. [SqlText x])) (tab h t)) \<and>
     (\<forall>h t xs. t \<in> set table_names \<longrightarrow> tab h t = Some xs \<longrightarrow>
        (case sq_exec S (delete_sql t) h of (b, h') \<Rightarrow>
           b \<and> tab h' = (tab h)(t \<mapsto> []) \<and> fr h' = fr h)) \<and>
     (\<forall>h t xs x. t \<in> set table_names \<longrightarrow> tab h t = Some xs \<longrightarrow>
        (case sq_run S (insert_sql t) [SqlText x] h of
           None \<Rightarrow> False
         | Some (b, n, h') \<Rightarrow> b \<and> n = 1 \<and> tab h' = (tab h)(t \<mapsto> xs @ [x]) \<and> fr h' = fr h))"

text \<open>
  The statements on the table of friendships. A query with \<open>LIMIT 1\<close> may return any of the rows
  that match; an insertion that would repeat a pair violates the \<open>UNIQUE\<close> constraint and fails.
\<close>

definition sqlite_friendships :: "'db sqlite \<Rightarrow> ('db \<Rightarrow> friendship list option) \<Rightarrow> bool" where
  "sqlite_friendships S fr \<longleftrightarrow>
     (\<forall>h fs a b. fr h = Some fs \<longrightarrow>
        (\<exists>rs. sq_select S fs_find_sql [SqlInt a, SqlInt b, SqlInt b, SqlInt a] h = Some rs \<and>
           (rs = [] \<longleftrightarrow> \<not> list_ex (fs_pair a b) fs) \<and>
           (\<forall>r \<in> set rs. \<exists>f \<in> set fs. fs_pair a b f \<and>
              r = [SqlInt (fs_from f), SqlInt (fs_to f), SqlText (fs_status f)]))) \<and>
     (\<forall>h fs m n a b. fr h = Some fs \<longrightarrow>
        (\<exists>h'. sq_run S fs_touch_sql [SqlText m, SqlInt n, SqlInt a, SqlInt b] h
            = Some (True, length (filter (\<lambda>f. fs_is a b f \<and> fs_status f = ''pending'') fs), h') \<and>
           fr h' = Some (map (\<lambda>f. if fs_is a b f \<and> fs_status f = ''pending''
             then f\<lparr>fs_msg := m, fs_updated := n\<rparr> else f) fs))) \<and>
     (\<forall>h fs a b m n n'. fr h = Some fs \<longrightarrow>
        (if list_ex (fs_is a b) fs
         then \<exists>k h'. sq_run S fs_insert_sql
             [SqlInt a, SqlInt b, SqlText ''pending'', SqlText m, SqlInt n, SqlInt n'] h
               = Some (False, k, h') \<and> fr h' = Some fs
         else \<exists>h'. sq_run S fs_insert_sql
             [SqlInt a, SqlInt b, SqlText ''pending'', SqlText m, SqlInt n, SqlInt n'] h
               = Some (True, 1, h') \<and>
             fr h' = Some (fs @ [\<lparr>fs_from = a, fs_to = b, fs_status = ''pending'', fs_msg = m,
               fs_created = n, fs_updated = n'\<rparr>]))) \<and>
     (\<forall>h fs a b. fr h = Some fs \<longrightarrow>
        (\<exists>h'. sq_run S fs_delete_sql [SqlInt a, SqlInt b, SqlInt b, SqlInt a] h
            = Some (True, length (filter (fs_pair a b) fs), h') \<and>
           fr h' = Some (filter (\<lambda>f. \<not> fs_pair a b f) fs))) \<and>
     (\<forall>h fs a b. fr h = Some fs \<longrightarrow>
        (\<exists>rs. sq_select S fs_are_sql [SqlInt a, SqlInt b, SqlInt b, SqlInt a] h = Some rs \<and>
           (rs \<noteq> [] \<longleftrightarrow> list_ex (\<lambda>f. fs_status f = ''accepted'' \<and> fs_pair a b f) fs))) \<and>
     (\<forall>h fs u. fr h = Some fs \<longrightarrow>
        (\<exists>fs'. mset fs' = mset (filter (\<lambda>f. fs_status f = ''accepted'' \<and> (fs_from f = u \<or> fs_to f = u)) fs) \<and>
           sq_select S fs_friends_sql [SqlInt u, SqlInt u, SqlInt u] h
             = Some (map (\<lambda>f. [SqlInt (if fs_from f = u then fs_to f else fs_from f)]) fs'))) \<and>
     (\<forall>h fs u. fr h = Some fs \<longrightarrow>
        (\<exists>fs'. mset fs' = mset (filter (\<lambda>f. fs_to f = u \<and> fs_status f = ''pending'') fs) \<and>
           sq_select S fs_pending_sql [SqlInt u] h
             = Some (map (\<lambda>f. [SqlInt (fs_from f), SqlInt (fs_to f), SqlText (fs_status f),
                 SqlText (fs_msg f)]) fs'))) \<and>
     (\<forall>h fs s n a b. fr h = Some fs \<longrightarrow> s \<in> {''pending'', ''accepted'', ''rejected''} \<longrightarrow>
        (\<exists>h'. sq_run S fs_status_sql [SqlText s, SqlInt n, SqlInt a, SqlInt b] h
            = Some (True, length (filter (\<lambda>f. fs_is a b f \<and> fs_status f = ''pending'') fs), h') \<and>
           fr h' = Some (map (\<lambda>f. if fs_is a b f \<and> fs_status f = ''pending''
             then f\<lparr>fs_status := s, fs_updated := n\<rparr> else f) fs)))"

text \<open>The statements that create tables and indexes.\<close>

definition sqlite_schema ::
  "'db sqlite \<Rightarrow> ('db \<Rightarrow> string \<Rightarrow> string list option) \<Rightarrow> ('db \<Rightarrow> friendship list option) \<Rightarrow> bool"
where
  "sqlite_schema S tab fr \<longleftrightarrow>
     (\<forall>h t. t \<in> set table_names \<longrightarrow>
        sq_select S master_sql [SqlText t] h = Some (if tab h t = None then [] else [[SqlInt 1]])) \<and>
     (\<forall>h. sq_select S master_sql [SqlText ''friendships''] h
            = Some (if fr h = None then [] else [[SqlInt 1]])) \<and>
     (\<forall>h t. t \<in> set table_names \<longrightarrow> tab h t = None \<longrightarrow>
        (case sq_exec S (create_sql t) h of (b, h') \<Rightarrow>
           b \<and> tab h' = (tab h)(t \<mapsto> []) \<and> fr h' = fr h)) \<and>
     (\<forall>h. case sq_exec S friendships_sql h of (b, h') \<Rightarrow>
           b \<and> tab h' = tab h \<and> fr h' = Some (case fr h of None \<Rightarrow> [] | Some fs \<Rightarrow> fs)) \<and>
     (\<forall>h t i e. case sq_exec S (index_sql t i e) h of (_, h') \<Rightarrow> tab h' = tab h \<and> fr h' = fr h) \<and>
     (\<forall>h q. q \<in> {idx_fs_from_sql, idx_fs_to_sql, idx_fs_both_sql} \<longrightarrow>
        (case sq_exec S q h of (_, h') \<Rightarrow> tab h' = tab h \<and> fr h' = fr h))"

text \<open>The clauses of the contract, as rules.\<close>

lemma sqlite_txn:
  assumes "sqlite_tables S tab fr" "q \<in> {begin_sql, commit_sql, rollback_sql, wal_sql, fk_sql}"
  shows "\<exists>b h'. sq_exec S q h = (b, h') \<and> tab h' = tab h \<and> fr h' = fr h"
proof -
  have "\<forall>h q. q \<in> {begin_sql, commit_sql, rollback_sql, wal_sql, fk_sql} \<longrightarrow>
        (case sq_exec S q h of (_, h') \<Rightarrow> tab h' = tab h \<and> fr h' = fr h)"
    using assms(1) unfolding sqlite_tables_def by (elim conjE)
  from this [rule_format, OF assms(2), of h] show ?thesis by (cases "sq_exec S q h") simp
qed

lemma sqlite_load:
  assumes "sqlite_tables S tab fr" "t \<in> set table_names"
  shows "sq_select S (select_sql t) [] h = map_option (map (\<lambda>x. [SqlText x])) (tab h t)"
proof -
  have "\<forall>h t. t \<in> set table_names \<longrightarrow>
        sq_select S (select_sql t) [] h = map_option (map (\<lambda>x. [SqlText x])) (tab h t)"
    using assms(1) unfolding sqlite_tables_def by (elim conjE)
  then show ?thesis using assms(2) by simp
qed

lemma sqlite_clear:
  assumes "sqlite_tables S tab fr" "t \<in> set table_names" "tab h t = Some xs"
  shows "\<exists>h'. sq_exec S (delete_sql t) h = (True, h') \<and> tab h' = (tab h)(t \<mapsto> []) \<and> fr h' = fr h"
proof -
  have "\<forall>h t xs. t \<in> set table_names \<longrightarrow> tab h t = Some xs \<longrightarrow>
        (case sq_exec S (delete_sql t) h of (b, h') \<Rightarrow>
           b \<and> tab h' = (tab h)(t \<mapsto> []) \<and> fr h' = fr h)"
    using assms(1) unfolding sqlite_tables_def by (elim conjE)
  from this [rule_format, OF assms(2,3)] show ?thesis by (cases "sq_exec S (delete_sql t) h") simp
qed

lemma sqlite_insert:
  assumes "sqlite_tables S tab fr" "t \<in> set table_names" "tab h t = Some xs"
  shows "\<exists>h'. sq_run S (insert_sql t) [SqlText x] h = Some (True, 1, h') \<and>
    tab h' = (tab h)(t \<mapsto> xs @ [x]) \<and> fr h' = fr h"
proof -
  have "\<forall>h t xs x. t \<in> set table_names \<longrightarrow> tab h t = Some xs \<longrightarrow>
        (case sq_run S (insert_sql t) [SqlText x] h of
           None \<Rightarrow> False
         | Some (b, n, h') \<Rightarrow> b \<and> n = 1 \<and> tab h' = (tab h)(t \<mapsto> xs @ [x]) \<and> fr h' = fr h)"
    using assms(1) unfolding sqlite_tables_def by (elim conjE)
  from this [rule_format, OF assms(2,3), of x] show ?thesis by (auto split: option.splits)
qed

subsection \<open>Friendships\<close>

lemma fs_find:
  assumes "sqlite_friendships S fr"
  shows "(\<forall>h fs a b. fr h = Some fs \<longrightarrow>
        (\<exists>rs. sq_select S fs_find_sql [SqlInt a, SqlInt b, SqlInt b, SqlInt a] h = Some rs \<and>
           (rs = [] \<longleftrightarrow> \<not> list_ex (fs_pair a b) fs) \<and>
           (\<forall>r \<in> set rs. \<exists>f \<in> set fs. fs_pair a b f \<and>
              r = [SqlInt (fs_from f), SqlInt (fs_to f), SqlText (fs_status f)])))"
  using assms unfolding sqlite_friendships_def by (elim conjE)

lemma fs_touch:
  assumes "sqlite_friendships S fr"
  shows "(\<forall>h fs m n a b. fr h = Some fs \<longrightarrow>
        (\<exists>h'. sq_run S fs_touch_sql [SqlText m, SqlInt n, SqlInt a, SqlInt b] h
            = Some (True, length (filter (\<lambda>f. fs_is a b f \<and> fs_status f = ''pending'') fs), h') \<and>
           fr h' = Some (map (\<lambda>f. if fs_is a b f \<and> fs_status f = ''pending''
             then f\<lparr>fs_msg := m, fs_updated := n\<rparr> else f) fs)))"
  using assms unfolding sqlite_friendships_def by (elim conjE)

lemma fs_insert:
  assumes "sqlite_friendships S fr"
  shows "(\<forall>h fs a b m n n'. fr h = Some fs \<longrightarrow>
        (if list_ex (fs_is a b) fs
         then \<exists>k h'. sq_run S fs_insert_sql
             [SqlInt a, SqlInt b, SqlText ''pending'', SqlText m, SqlInt n, SqlInt n'] h
               = Some (False, k, h') \<and> fr h' = Some fs
         else \<exists>h'. sq_run S fs_insert_sql
             [SqlInt a, SqlInt b, SqlText ''pending'', SqlText m, SqlInt n, SqlInt n'] h
               = Some (True, 1, h') \<and>
             fr h' = Some (fs @ [\<lparr>fs_from = a, fs_to = b, fs_status = ''pending'', fs_msg = m,
               fs_created = n, fs_updated = n'\<rparr>])))"
  using assms unfolding sqlite_friendships_def by (elim conjE)

lemma fs_delete:
  assumes "sqlite_friendships S fr"
  shows "(\<forall>h fs a b. fr h = Some fs \<longrightarrow>
        (\<exists>h'. sq_run S fs_delete_sql [SqlInt a, SqlInt b, SqlInt b, SqlInt a] h
            = Some (True, length (filter (fs_pair a b) fs), h') \<and>
           fr h' = Some (filter (\<lambda>f. \<not> fs_pair a b f) fs)))"
  using assms unfolding sqlite_friendships_def by (elim conjE)

lemma fs_are:
  assumes "sqlite_friendships S fr"
  shows "(\<forall>h fs a b. fr h = Some fs \<longrightarrow>
        (\<exists>rs. sq_select S fs_are_sql [SqlInt a, SqlInt b, SqlInt b, SqlInt a] h = Some rs \<and>
           (rs \<noteq> [] \<longleftrightarrow> list_ex (\<lambda>f. fs_status f = ''accepted'' \<and> fs_pair a b f) fs)))"
  using assms unfolding sqlite_friendships_def by (elim conjE)

lemma fs_friends:
  assumes "sqlite_friendships S fr"
  shows "(\<forall>h fs u. fr h = Some fs \<longrightarrow>
        (\<exists>fs'. mset fs' = mset (filter (\<lambda>f. fs_status f = ''accepted'' \<and> (fs_from f = u \<or> fs_to f = u)) fs) \<and>
           sq_select S fs_friends_sql [SqlInt u, SqlInt u, SqlInt u] h
             = Some (map (\<lambda>f. [SqlInt (if fs_from f = u then fs_to f else fs_from f)]) fs')))"
  using assms unfolding sqlite_friendships_def by (elim conjE)

lemma fs_pending:
  assumes "sqlite_friendships S fr"
  shows "(\<forall>h fs u. fr h = Some fs \<longrightarrow>
        (\<exists>fs'. mset fs' = mset (filter (\<lambda>f. fs_to f = u \<and> fs_status f = ''pending'') fs) \<and>
           sq_select S fs_pending_sql [SqlInt u] h
             = Some (map (\<lambda>f. [SqlInt (fs_from f), SqlInt (fs_to f), SqlText (fs_status f),
                 SqlText (fs_msg f)]) fs')))"
  using assms unfolding sqlite_friendships_def by (elim conjE)

lemma fs_status:
  assumes "sqlite_friendships S fr"
  shows "(\<forall>h fs s n a b. fr h = Some fs \<longrightarrow> s \<in> {''pending'', ''accepted'', ''rejected''} \<longrightarrow>
        (\<exists>h'. sq_run S fs_status_sql [SqlText s, SqlInt n, SqlInt a, SqlInt b] h
            = Some (True, length (filter (\<lambda>f. fs_is a b f \<and> fs_status f = ''pending'') fs), h') \<and>
           fr h' = Some (map (\<lambda>f. if fs_is a b f \<and> fs_status f = ''pending''
             then f\<lparr>fs_status := s, fs_updated := n\<rparr> else f) fs)))"
  using assms unfolding sqlite_friendships_def by (elim conjE)

subsection \<open>Schema\<close>

lemma sqlite_master:
  assumes "sqlite_schema S tab fr" "t \<in> set table_names"
  shows "sq_select S master_sql [SqlText t] h = Some (if tab h t = None then [] else [[SqlInt 1]])"
proof -
  have "\<forall>h t. t \<in> set table_names \<longrightarrow>
        sq_select S master_sql [SqlText t] h = Some (if tab h t = None then [] else [[SqlInt 1]])"
    using assms(1) unfolding sqlite_schema_def by (elim conjE)
  from this [rule_format, OF assms(2)] show ?thesis .
qed

lemma sqlite_create:
  assumes "sqlite_schema S tab fr" "t \<in> set table_names" "tab h t = None"
  shows "\<exists>h'. sq_exec S (create_sql t) h = (True, h') \<and> tab h' = (tab h)(t \<mapsto> []) \<and> fr h' = fr h"
proof -
  have "\<forall>h t. t \<in> set table_names \<longrightarrow> tab h t = None \<longrightarrow>
        (case sq_exec S (create_sql t) h of (b, h') \<Rightarrow>
           b \<and> tab h' = (tab h)(t \<mapsto> []) \<and> fr h' = fr h)"
    using assms(1) unfolding sqlite_schema_def by (elim conjE)
  from this [rule_format, OF assms(2,3)] show ?thesis by (cases "sq_exec S (create_sql t) h") simp
qed

lemma sqlite_fs_create:
  assumes "sqlite_schema S tab fr"
  shows "\<exists>b h'. sq_exec S friendships_sql h = (b, h') \<and> tab h' = tab h \<and>
    fr h' = Some (case fr h of None \<Rightarrow> [] | Some fs \<Rightarrow> fs)"
proof -
  have "\<forall>h. case sq_exec S friendships_sql h of (b, h') \<Rightarrow>
           b \<and> tab h' = tab h \<and> fr h' = Some (case fr h of None \<Rightarrow> [] | Some fs \<Rightarrow> fs)"
    using assms(1) unfolding sqlite_schema_def by (elim conjE)
  from this [rule_format, of h] show ?thesis by (cases "sq_exec S friendships_sql h") auto
qed

lemma sqlite_index:
  assumes "sqlite_schema S tab fr"
  shows "\<exists>b h'. sq_exec S (index_sql t i e) h = (b, h') \<and> tab h' = tab h \<and> fr h' = fr h"
proof -
  have "\<forall>h t i e. case sq_exec S (index_sql t i e) h of (_, h') \<Rightarrow> tab h' = tab h \<and> fr h' = fr h"
    using assms(1) unfolding sqlite_schema_def by (elim conjE)
  from this [rule_format, of h t i e] show ?thesis by (cases "sq_exec S (index_sql t i e) h") simp
qed

lemma sqlite_fs_index:
  assumes "sqlite_schema S tab fr" "q \<in> {idx_fs_from_sql, idx_fs_to_sql, idx_fs_both_sql}"
  shows "\<exists>b h'. sq_exec S q h = (b, h') \<and> tab h' = tab h \<and> fr h' = fr h"
proof -
  have "\<forall>h q. q \<in> {idx_fs_from_sql, idx_fs_to_sql, idx_fs_both_sql} \<longrightarrow>
        (case sq_exec S q h of (_, h') \<Rightarrow> tab h' = tab h \<and> fr h' = fr h)"
    using assms(1) unfolding sqlite_schema_def by (elim conjE)
  from this [rule_format, OF assms(2), of h] show ?thesis by (cases "sq_exec S q h") simp
qed

section \<open>A reference engine\<close>

record ref_db =
  rtabs :: "string \<Rightarrow> string list option"
  rfr :: "friendship list option"

definition ref_exec :: "string \<Rightarrow> ref_db \<Rightarrow> bool \<times> ref_db" where
  "ref_exec q h =
     (case find (\<lambda>t. q = delete_sql t) table_names of
        Some t \<Rightarrow> (if rtabs h t = None then (False, h) else (True, h\<lparr>rtabs := (rtabs h)(t \<mapsto> [])\<rparr>))
      | None \<Rightarrow>
          (case find (\<lambda>t. q = create_sql t) table_names of
             Some t \<Rightarrow> (if rtabs h t = None then (True, h\<lparr>rtabs := (rtabs h)(t \<mapsto> [])\<rparr>) else (False, h))
           | None \<Rightarrow>
               if q = friendships_sql
               then (True, h\<lparr>rfr := Some (case rfr h of None \<Rightarrow> [] | Some fs \<Rightarrow> fs)\<rparr>)
               else (True, h)))"

definition ref_select :: "string \<Rightarrow> sqlval list \<Rightarrow> ref_db \<Rightarrow> sqlval list list option" where
  "ref_select q ps h =
     (case find (\<lambda>t. q = select_sql t) table_names of
        Some t \<Rightarrow> map_option (map (\<lambda>x. [SqlText x])) (rtabs h t)
      | None \<Rightarrow>
          if q = master_sql then
            (case ps of
               [SqlText t] \<Rightarrow> Some (if (if t = ''friendships'' then rfr h = None else rtabs h t = None)
                 then [] else [[SqlInt 1]])
             | _ \<Rightarrow> None)
          else
            (case rfr h of
               None \<Rightarrow> None
             | Some fs \<Rightarrow>
                 (case ps of
                    [SqlInt a, SqlInt b, SqlInt _, SqlInt _] \<Rightarrow>
                      if q = fs_find_sql then
                        Some (map (\<lambda>f. [SqlInt (fs_from f), SqlInt (fs_to f), SqlText (fs_status f)])
                          (take 1 (filter (fs_pair a b) fs)))
                      else Some (map (\<lambda>f. [SqlInt 1])
                          (take 1 (filter (\<lambda>f. fs_status f = ''accepted'' \<and> fs_pair a b f) fs)))
                  | [SqlInt u, SqlInt _, SqlInt _] \<Rightarrow>
                      Some (map (\<lambda>f. [SqlInt (if fs_from f = u then fs_to f else fs_from f)])
                        (filter (\<lambda>f. fs_status f = ''accepted'' \<and> (fs_from f = u \<or> fs_to f = u)) fs))
                  | [SqlInt u] \<Rightarrow>
                      Some (map (\<lambda>f. [SqlInt (fs_from f), SqlInt (fs_to f), SqlText (fs_status f),
                          SqlText (fs_msg f)])
                        (filter (\<lambda>f. fs_to f = u \<and> fs_status f = ''pending'') fs))
                  | _ \<Rightarrow> None)))"

definition ref_run :: "string \<Rightarrow> sqlval list \<Rightarrow> ref_db \<Rightarrow> (bool \<times> nat \<times> ref_db) option" where
  "ref_run q ps h =
     (case find (\<lambda>t. q = insert_sql t) table_names of
        Some t \<Rightarrow>
          (case (rtabs h t, ps) of
             (Some xs, [SqlText x]) \<Rightarrow> Some (True, 1, h\<lparr>rtabs := (rtabs h)(t \<mapsto> xs @ [x])\<rparr>)
           | _ \<Rightarrow> None)
      | None \<Rightarrow>
          (case rfr h of
             None \<Rightarrow> None
           | Some fs \<Rightarrow>
               (case ps of
                  [SqlText s, SqlInt n, SqlInt a, SqlInt b] \<Rightarrow>
                    Some (True, length (filter (\<lambda>f. fs_is a b f \<and> fs_status f = ''pending'') fs),
                      h\<lparr>rfr := Some (map (\<lambda>f. if fs_is a b f \<and> fs_status f = ''pending''
                        then if q = fs_touch_sql then f\<lparr>fs_msg := s, fs_updated := n\<rparr>
                             else f\<lparr>fs_status := s, fs_updated := n\<rparr>
                        else f) fs)\<rparr>)
                | [SqlInt a, SqlInt b, SqlInt _, SqlInt _] \<Rightarrow>
                    Some (True, length (filter (fs_pair a b) fs),
                      h\<lparr>rfr := Some (filter (\<lambda>f. \<not> fs_pair a b f) fs)\<rparr>)
                | [SqlInt a, SqlInt b, SqlText s, SqlText m, SqlInt n, SqlInt n'] \<Rightarrow>
                    if list_ex (fs_is a b) fs then Some (False, 0, h)
                    else Some (True, 1, h\<lparr>rfr := Some (fs @ [\<lparr>fs_from = a, fs_to = b, fs_status = s,
                      fs_msg = m, fs_created = n, fs_updated = n'\<rparr>])\<rparr>)
                | _ \<Rightarrow> None)))"

definition ref_engine :: "ref_db sqlite" where
  "ref_engine = \<lparr>sq_open = (\<lambda>_. (True, \<lparr>rtabs = Map.empty, rfr = None\<rparr>)),
     sq_exec = ref_exec, sq_select = ref_select, sq_run = ref_run\<rparr>"

lemmas sql_texts = master_sql_def create_sql_def select_sql_def delete_sql_def insert_sql_def
  index_sql_def begin_sql_def commit_sql_def rollback_sql_def wal_sql_def fk_sql_def
  friendships_sql_def idx_fs_from_sql_def idx_fs_to_sql_def idx_fs_both_sql_def fs_find_sql_def
  fs_touch_sql_def fs_insert_sql_def fs_delete_sql_def fs_are_sql_def fs_friends_sql_def
  fs_pending_sql_def fs_status_sql_def quoted_def lit_def table_names_def

lemma ref_engine_tables: "sqlite_tables ref_engine rtabs rfr"
  unfolding sqlite_tables_def ref_engine_def
  by (simp add: ref_exec_def ref_select_def ref_run_def sql_texts)

lemma ref_engine_schema: "sqlite_schema ref_engine rtabs rfr"
  unfolding sqlite_schema_def ref_engine_def
  by (simp add: ref_exec_def ref_select_def ref_run_def sql_texts)

lemma ref_engine_friendships: "sqlite_friendships ref_engine rfr"
  unfolding sqlite_friendships_def ref_engine_def
  apply (simp add: ref_exec_def ref_select_def ref_run_def sql_texts filter_empty_conv list_ex_iff)
  apply (intro conjI allI impI ballI)
    apply (drule in_set_takeD, auto)[1]
   apply (metis (no_types, lifting) mset_filter)+
  done

end
