(* ===== verification/Sessions.thy ===== *)
theory Sessions
  imports FrameCodec Sqlite
begin

text \<open>
  The connections: the state of a session (\<^verbatim>\<open>AsyncSession.h\<close>, \<^verbatim>\<open>AsyncSession.cpp\<close> but for its read
  loop, which calls the server and is in theory TcpServer), the pool of the sessions
  (\<^verbatim>\<open>SessionPool.cpp\<close>) and the presence of the users (\<^verbatim>\<open>PresenceManager.cpp\<close>), under
  \<^verbatim>\<open>src/server\<close>.

  A session object is reached by its number. It outlives its entry in the pool as long as an
  operation on its socket is outstanding, so the objects are kept apart from the pool: \<open>sess\<close> gives
  the object of a number, \<open>pool\<close> lists the numbers that \<open>sessions_\<close> has as keys.

  Shown here: the write queue sends the frames whole and in the order in which they were delivered,
  its indices stay in range, and the pool's map of users points to sessions of the pool that belong
  to the user.
\<close>

section \<open>A session\<close>

text \<open>
  The members of \<open>AsyncSession\<close>. Not members, but the state of the socket: \<open>reading\<close> says that an
  \<open>async_read_some\<close> is outstanding, \<open>sock_open\<close> that the socket is not closed, \<open>wire\<close> is what the
  socket has accepted for sending. An \<open>async_write_some\<close> is outstanding just when \<open>writing\<close> is set.
\<close>

record session =
  user_id :: int
  read_accumulator :: "u8 list"
  write_queue :: "u8 list list"
  write_offset :: nat
  writing :: bool
  last_heartbeat :: int
  rate_window_start :: int
  missed_heartbeats :: int
  messages_this_window :: int
  reading :: bool
  sock_open :: bool
  wire :: "u8 list"

definition new_session :: "int \<Rightarrow> session" where
  "new_session now = \<lparr>user_id = 0, read_accumulator = [], write_queue = [], write_offset = 0,
     writing = False, last_heartbeat = now, rate_window_start = now, missed_heartbeats = 0,
     messages_this_window = 0, reading = False, sock_open = True, wire = []\<rparr>"

definition authenticated :: "session \<Rightarrow> bool" where
  "authenticated x \<longleftrightarrow> user_id x \<noteq> 0"

definition setUserId :: "int \<Rightarrow> session \<Rightarrow> session" where
  "setUserId i x = x\<lparr>user_id := i\<rparr>"

text \<open>\<open>start\<close>: the first \<open>doRead\<close> only starts an \<open>async_read_some\<close>.\<close>

definition start :: "int \<Rightarrow> session \<Rightarrow> session" where
  "start now x = x\<lparr>last_heartbeat := now, reading := True\<rparr>"

definition close :: "session \<Rightarrow> session" where
  "close x = x\<lparr>sock_open := False\<rparr>"

subsection \<open>Writing\<close>

definition doWrite :: "session \<Rightarrow> session" where
  "doWrite x = (if write_queue x = [] then x\<lparr>writing := False\<rparr> else x\<lparr>writing := True\<rparr>)"

text \<open>The part of \<open>deliver\<close> behind \<open>FrameCodec::encode\<close>.\<close>

definition push_frame :: "u8 list \<Rightarrow> session \<Rightarrow> session" where
  "push_frame f x =
     (let y = x\<lparr>write_queue := write_queue x @ [f]\<rparr>
      in if \<not> writing y then doWrite y else y)"

text \<open>The completion handler of \<open>async_write_some\<close>: with an error, and with \<open>bytes\<close> bytes sent.\<close>

definition write_failed :: "session \<Rightarrow> session" where
  "write_failed x = x\<lparr>write_queue := [], write_offset := 0, writing := False\<rparr>"

definition write_done :: "nat \<Rightarrow> session \<Rightarrow> session" where
  "write_done bytes x =
     (let y = x\<lparr>write_offset := write_offset x + bytes,
                wire := wire x @ take bytes (drop (write_offset x) (hd (write_queue x)))\<rparr>
      in if write_offset y < length (hd (write_queue y)) then doWrite y
         else doWrite (y\<lparr>write_queue := tl (write_queue y), write_offset := 0\<rparr>))"

subsection \<open>Heartbeats and the rate limit\<close>

text \<open>Times are in nanoseconds.\<close>

definition second :: int where
  "second = 1000000000"

definition heartbeatReceived :: "int \<Rightarrow> session \<Rightarrow> session" where
  "heartbeatReceived now x = x\<lparr>last_heartbeat := now, missed_heartbeats := 0\<rparr>"

definition isTimedOut :: "int \<Rightarrow> session \<Rightarrow> bool" where
  "isTimedOut now x \<longleftrightarrow> now - last_heartbeat x > 90 * second"

definition consumeRateLimitToken :: "int \<Rightarrow> session \<Rightarrow> bool \<times> session" where
  "consumeRateLimitToken now x =
     (let y = (if now - rate_window_start x \<ge> second
               then x\<lparr>rate_window_start := now, messages_this_window := 0\<rparr> else x);
          z = y\<lparr>messages_this_window := messages_this_window y + 1\<rparr>
      in (messages_this_window z \<le> 20, z))"

section \<open>The pool\<close>

text \<open>
  \<open>steadies\<close> counts the readings of the steady clock. \<open>pool\<close> holds the keys of \<open>sessions_\<close>, whose
  values are never null.
\<close>

record net =
  sess :: "nat \<Rightarrow> session"
  max_connections :: nat
  pool :: "nat list"
  user_to_session :: "int \<Rightarrow> nat option"
  steadies :: nat

definition upd_sess :: "nat \<Rightarrow> (session \<Rightarrow> session) \<Rightarrow> 'a net_scheme \<Rightarrow> 'a net_scheme" where
  "upd_sess i f s = s\<lparr>sess := (sess s)(i := f (sess s i))\<rparr>"

definition steadyNow :: "'db env \<Rightarrow> ('a net_scheme, int) prog" where
  "steadyNow E s = (Inr (steady E (steadies s)), s\<lparr>steadies := Suc (steadies s)\<rparr>)"

definition deliver :: "nat \<Rightarrow> string \<Rightarrow> ('a net_scheme, unit) prog" where
  "deliver i json =
     bindP (liftP (encode json)) (\<lambda>f. modifyP (upd_sess i (push_frame f)))"

definition pool_add :: "nat \<Rightarrow> ('a net_scheme, bool) prog" where
  "pool_add i =
     bindP (getP (\<lambda>s. length (pool s) \<ge> max_connections s)) (\<lambda>full.
       if full then returnP False
       else thenP (modifyP (\<lambda>s. s\<lparr>pool := (if i \<in> set (pool s) then pool s else pool s @ [i])\<rparr>))
              (returnP True))"

definition pool_remove :: "nat \<Rightarrow> ('a net_scheme, unit) prog" where
  "pool_remove i = modifyP (\<lambda>s.
     let s1 = (if i \<in> set (pool s) \<and> user_id (sess s i) \<noteq> 0
               then s\<lparr>user_to_session := (user_to_session s)(user_id (sess s i) := None)\<rparr> else s)
     in s1\<lparr>pool := filter (\<lambda>j. j \<noteq> i) (pool s1)\<rparr>)"

definition findSession :: "nat \<Rightarrow> 'a net_scheme \<Rightarrow> nat option" where
  "findSession i s = (if i \<in> set (pool s) then Some i else None)"

definition findByUserId :: "int \<Rightarrow> 'a net_scheme \<Rightarrow> nat option" where
  "findByUserId u s =
     (case user_to_session s u of None \<Rightarrow> None | Some i \<Rightarrow> findSession i s)"

definition bindUser :: "nat \<Rightarrow> int \<Rightarrow> ('a net_scheme, bool) prog" where
  "bindUser i u =
     bindP (getP (findSession i)) (\<lambda>found.
       if found = None \<or> u \<le> 0 then returnP False
       else
         thenP (modifyP (\<lambda>s. if user_id (sess s i) \<noteq> 0
             then s\<lparr>user_to_session := (user_to_session s)(user_id (sess s i) := None)\<rparr> else s))
         (thenP (modifyP (upd_sess i (setUserId u)))
         (thenP (modifyP (\<lambda>s. s\<lparr>user_to_session := (user_to_session s)(u \<mapsto> i)\<rparr>))
           (returnP True))))"

definition unbindUser :: "int \<Rightarrow> ('a net_scheme, unit) prog" where
  "unbindUser u = modifyP (\<lambda>s.
     case user_to_session s u of
       None \<Rightarrow> s
     | Some i \<Rightarrow>
         let s1 = (if findSession i s \<noteq> None then upd_sess i (setUserId 0) s else s)
         in s1\<lparr>user_to_session := (user_to_session s1)(u := None)\<rparr>)"

definition pool_all :: "'db env \<Rightarrow> 'a net_scheme \<Rightarrow> nat list" where
  "pool_all E s = hash_order E (pool s)"

text \<open>\<open>timedOut\<close> reads the clock once for each session.\<close>

definition timedOut :: "'db env \<Rightarrow> ('a net_scheme, nat list) prog" where
  "timedOut E =
     bindP (getP (\<lambda>s. hash_order E (pool s))) (\<lambda>ids.
     bindP (mapP (\<lambda>i. bindP (steadyNow E) (\<lambda>now. getP (\<lambda>s. (i, isTimedOut now (sess s i))))) ids) (\<lambda>late.
       returnP (map fst (filter snd late))))"

section \<open>Presence\<close>

type_synonym presence_map = "int \<Rightarrow> string option"

definition setOnline :: "int \<Rightarrow> string \<Rightarrow> presence_map \<Rightarrow> presence_map" where
  "setOnline u st p = (if u > 0 then p(u \<mapsto> (if st = [] then ''online'' else st)) else p)"

definition setOffline :: "int \<Rightarrow> presence_map \<Rightarrow> presence_map" where
  "setOffline u p = p(u := None)"

definition isOnline :: "int \<Rightarrow> presence_map \<Rightarrow> bool" where
  "isOnline u p \<longleftrightarrow> p u \<noteq> None"

definition presence_status :: "int \<Rightarrow> presence_map \<Rightarrow> string" where
  "presence_status u p = (case p u of None \<Rightarrow> ''offline'' | Some st \<Rightarrow> st)"

text \<open>\<open>onlineUsers\<close> lists the keys, each once and in the order of the unordered map, which is unspecified.\<close>

definition onlineUsers :: "presence_map \<Rightarrow> int set" where
  "onlineUsers p = dom p"

section \<open>The write queue\<close>

text \<open>
  What a session still owes its peer: the bytes already on the wire and the rest of the queue behind
  the offset. \<open>write_ok\<close> is the invariant of the members that the writing uses: a write is
  outstanding just when the queue is not empty, and the offset is inside the first frame.
\<close>

definition outgoing :: "session \<Rightarrow> u8 list" where
  "outgoing x = wire x @ drop (write_offset x) (concat (write_queue x))"

definition write_ok :: "session \<Rightarrow> bool" where
  "write_ok x \<longleftrightarrow> (writing x \<longleftrightarrow> write_queue x \<noteq> []) \<and> [] \<notin> set (write_queue x) \<and>
     (if write_queue x = [] then write_offset x = 0 else write_offset x < length (hd (write_queue x)))"

lemma write_ok_new [simp]: "write_ok (new_session now)"
  by (simp add: write_ok_def new_session_def)

lemma outgoing_new [simp]: "outgoing (new_session now) = []"
  by (simp add: outgoing_def new_session_def)

lemma doWrite_fields [simp]:
  "write_queue (doWrite x) = write_queue x" "write_offset (doWrite x) = write_offset x"
  "wire (doWrite x) = wire x" "user_id (doWrite x) = user_id x"
  "writing (doWrite x) \<longleftrightarrow> write_queue x \<noteq> []"
  by (simp_all add: doWrite_def)

lemma push_frame_fields [simp]:
  "write_queue (push_frame f x) = write_queue x @ [f]" "write_offset (push_frame f x) = write_offset x"
  "wire (push_frame f x) = wire x" "user_id (push_frame f x) = user_id x" "writing (push_frame f x)"
  by (auto simp: push_frame_def Let_def)

lemma write_ok_push: "write_ok x \<Longrightarrow> f \<noteq> [] \<Longrightarrow> write_ok (push_frame f x)"
  by (auto simp: write_ok_def hd_append split: if_splits)

lemma outgoing_push: "write_ok x \<Longrightarrow> outgoing (push_frame f x) = outgoing x @ f"
  by (cases "write_queue x") (auto simp: outgoing_def write_ok_def)

lemma write_ok_failed: "write_ok (write_failed x)"
  by (simp add: write_ok_def write_failed_def)

lemma write_done_fields [simp]: "user_id (write_done n x) = user_id x"
  by (simp add: write_done_def Let_def)

lemma write_done_ok:
  assumes "write_ok x" "writing x" "write_offset x + n \<le> length (hd (write_queue x))"
  shows "write_ok (write_done n x)" "outgoing (write_done n x) = outgoing x"
proof -
  obtain f fs where q: "write_queue x = f # fs"
    using assms(1,2) by (cases "write_queue x") (auto simp: write_ok_def)
  have off: "write_offset x < length f" "write_offset x + n \<le> length f" "f \<noteq> []" "[] \<notin> set fs"
    using assms q by (auto simp: write_ok_def)
  show "write_ok (write_done n x)"
    using off q by (cases fs) (auto simp: write_ok_def write_done_def Let_def)
  have "drop (write_offset x) f = take n (drop (write_offset x) f) @ drop (write_offset x + n) f"
    by (metis add.commute append_take_drop_id drop_drop)
  then show "outgoing (write_done n x) = outgoing x"
    using off q by (auto simp: outgoing_def write_done_def Let_def not_less)
qed

section \<open>The invariant of the network\<close>

text \<open>
  \<open>net_inv\<close>: the pool has no session twice and stays below its limit, a user is mapped to a session
  of the pool that carries his number, and every write queue is in order. \<open>net_keeps\<close> relates two
  states when the invariant carries over and every session's outgoing stream has only grown, by
  whole frames.
\<close>

definition routed :: "'a net_scheme \<Rightarrow> bool" where
  "routed s \<longleftrightarrow> (\<forall>u i. user_to_session s u = Some i \<longrightarrow>
     0 < u \<and> i \<in> set (pool s) \<and> user_id (sess s i) = u)"

definition net_inv :: "'a net_scheme \<Rightarrow> bool" where
  "net_inv s \<longleftrightarrow> distinct (pool s) \<and> length (pool s) \<le> max_connections s \<and> routed s \<and>
     (\<forall>i. write_ok (sess s i))"

definition frames :: "string list \<Rightarrow> u8 list" where
  "frames ms = concat (map frame ms)"

definition sends :: "session \<Rightarrow> session \<Rightarrow> bool" where
  "sends x y \<longleftrightarrow> (\<exists>ms. (\<forall>m \<in> set ms. length m \<le> 262144) \<and> outgoing y = outgoing x @ frames ms)"

definition net_keeps :: "'a net_scheme \<Rightarrow> 'a net_scheme \<Rightarrow> bool" where
  "net_keeps s t \<longleftrightarrow> max_connections t = max_connections s \<and>
     (net_inv s \<longrightarrow> net_inv t \<and> (\<forall>i. sends (sess s i) (sess t i)))"

lemma sends_refl: "outgoing y = outgoing x \<Longrightarrow> sends x y"
  unfolding sends_def by (rule exI [of _ "[]"]) (simp add: frames_def)

lemma sends_trans: "sends x y \<Longrightarrow> sends y z \<Longrightarrow> sends x z"
proof -
  assume "sends x y" "sends y z"
  then obtain ms ms' where "\<forall>m \<in> set ms. length m \<le> 262144" "\<forall>m \<in> set ms'. length m \<le> 262144"
    "outgoing y = outgoing x @ frames ms" "outgoing z = outgoing y @ frames ms'"
    unfolding sends_def by blast
  then show ?thesis unfolding sends_def by (intro exI [of _ "ms @ ms'"]) (auto simp: frames_def)
qed

interpretation net_step: step_relation net_keeps
proof
  fix s t u :: "'a net_scheme"
  show "net_keeps s s" by (simp add: net_keeps_def sends_refl)
  assume "net_keeps s t" "net_keeps t u"
  then show "net_keeps s u" unfolding net_keeps_def using sends_trans by (metis (no_types))
qed

lemma routedD: "routed s \<Longrightarrow> user_to_session s u = Some i \<Longrightarrow> 0 < u \<and> i \<in> set (pool s) \<and> user_id (sess s i) = u"
  by (simp add: routed_def)

lemma net_keeps_same:
  assumes "sess t = sess s" "pool t = pool s" "max_connections t = max_connections s"
    "user_to_session t = user_to_session s"
  shows "net_keeps s t"
  using assms by (simp add: net_keeps_def net_inv_def routed_def sends_refl)

text \<open>A change of one session that keeps its number and its write members.\<close>

lemma net_keeps_upd_sess:
  assumes "\<And>x. user_id (f x) = user_id x" "\<And>x. write_ok x \<Longrightarrow> write_ok (f x) \<and> sends x (f x)"
  shows "net_keeps s (upd_sess i f s)"
  using assms by (auto simp: net_keeps_def net_inv_def routed_def upd_sess_def intro: sends_refl)

lemma frame_nonempty [simp]: "frame m \<noteq> []"
  using length_frame [of m] by (metis add_is_0 list.size(3) zero_neq_numeral)

lemma sends_push: "write_ok x \<Longrightarrow> length m \<le> 262144 \<Longrightarrow> sends x (push_frame (frame m) x)"
  unfolding sends_def by (rule exI [of _ "[m]"]) (simp add: outgoing_push frames_def)

lemma keeps_deliver: "keeps net_keeps (deliver i json)"
proof (rule keepsI)
  fix s :: "'a net_scheme"
  show "net_keeps s (snd (deliver i json s))"
    by (auto simp: deliver_def prog_simps encode_frame net_step.refl
        intro!: net_keeps_upd_sess write_ok_push sends_push)
qed

lemma keeps_steady: "keeps net_keeps (steadyNow E)"
  by (rule keepsI) (simp add: steadyNow_def net_keeps_same)

lemma keeps_add: "keeps net_keeps (pool_add i)"
  by (rule keepsI) (auto simp: pool_add_def prog_simps net_keeps_def net_inv_def routed_def sends_refl)

lemma keeps_remove: "keeps net_keeps (pool_remove i)"
proof (rule keepsI)
  fix s :: "'a net_scheme"
  let ?t = "snd (pool_remove i s)"
  have t: "sess ?t = sess s" "pool ?t = filter (\<lambda>j. j \<noteq> i) (pool s)" "max_connections ?t = max_connections s"
    by (simp_all add: pool_remove_def prog_simps Let_def)
  have m: "user_to_session ?t u = (if u = user_id (sess s i) \<and> i \<in> set (pool s) \<and> u \<noteq> 0 then None
      else user_to_session s u)" for u
    by (auto simp: pool_remove_def prog_simps Let_def)
  have l: "length (pool s) \<le> n \<Longrightarrow> length (filter (\<lambda>j. j \<noteq> i) (pool s)) \<le> n" for n
    using length_filter_le [of _ "pool s"] le_trans by blast
  show "net_keeps s ?t"
    by (auto simp: net_keeps_def net_inv_def routed_def t m l sends_refl split: if_splits)
       (metis less_irrefl)
qed

lemma keeps_bindUser: "keeps net_keeps (bindUser i u)"
proof (rule keepsI)
  fix s :: "'a net_scheme"
  let ?t = "snd (bindUser i u s)"
  show "net_keeps s ?t"
  proof (cases "i \<in> set (pool s) \<and> 0 < u")
    case True
    have t: "sess ?t = (sess s)(i := setUserId u (sess s i))" "pool ?t = pool s"
        "max_connections ?t = max_connections s"
      using True by (simp_all add: bindUser_def prog_simps findSession_def upd_sess_def)
    have m: "user_to_session ?t = ((user_to_session s)(if user_id (sess s i) \<noteq> 0 then user_id (sess s i) else u := None))(u \<mapsto> i)"
      using True by (auto simp: bindUser_def prog_simps findSession_def upd_sess_def)
    have w: "write_ok (setUserId u x) = write_ok x" "outgoing (setUserId u x) = outgoing x" "user_id (setUserId u x) = u" for x
      by (simp_all add: setUserId_def write_ok_def outgoing_def)
    show ?thesis using True
      by (auto simp: net_keeps_def net_inv_def routed_def t m w sends_refl split: if_splits)
         (metis less_irrefl)
  next
    case False
    then show ?thesis by (auto simp: bindUser_def prog_simps findSession_def net_step.refl)
  qed
qed

lemma keeps_unbindUser: "keeps net_keeps (unbindUser u)"
proof (rule keepsI)
  fix s :: "'a net_scheme"
  have w: "write_ok (setUserId u x) = write_ok x" "outgoing (setUserId u x) = outgoing x" "user_id (setUserId u x) = u" for x u
    by (simp_all add: setUserId_def write_ok_def outgoing_def)
  show "net_keeps s (snd (unbindUser u s))"
    by (auto simp: unbindUser_def prog_simps Let_def findSession_def upd_sess_def net_keeps_def net_inv_def
        routed_def w sends_refl split: option.splits)
      metis
qed

lemma keeps_timedOut: "keeps net_keeps (timedOut E)"
  unfolding timedOut_def by (intro net_step.keeps_rules keeps_steady)

section \<open>The rate limit over time\<close>

text \<open>The times at which messages are let through, for messages that arrive at the times \<open>ts\<close>.\<close>

primrec let_through :: "int list \<Rightarrow> session \<Rightarrow> int list" where
  "let_through [] x = []"
| "let_through (t # ts) x =
     (case consumeRateLimitToken t x of (ok, y) \<Rightarrow> (if ok then [t] else []) @ let_through ts y)"

definition within :: "int \<Rightarrow> int list \<Rightarrow> nat" where
  "within t ts = length (filter (\<lambda>a. t \<le> a \<and> a < t + second) ts)"

text \<open>The tokens left in the current window.\<close>

definition tokens :: "session \<Rightarrow> nat" where
  "tokens x = nat (20 - messages_this_window x)"

lemma within_simps [simp]:
  "within t [] = 0"
  "within t (a # ts) = (if t \<le> a \<and> a < t + second then 1 else 0) + within t ts"
  by (simp_all add: within_def)

lemma consume_same:
  "now - rate_window_start x < second \<Longrightarrow> consumeRateLimitToken now x =
     (0 < tokens x, x\<lparr>messages_this_window := messages_this_window x + 1\<rparr>)"
  by (auto simp: consumeRateLimitToken_def Let_def tokens_def)

lemma consume_reset:
  "\<not> now - rate_window_start x < second \<Longrightarrow> consumeRateLimitToken now x =
     (True, x\<lparr>rate_window_start := now, messages_this_window := 1\<rparr>)"
  by (auto simp: consumeRateLimitToken_def Let_def)

lemma tokens_spent: "tokens (x\<lparr>messages_this_window := messages_this_window x + 1\<rparr>) = tokens x - 1"
  by (auto simp: tokens_def nat_diff_distrib')

lemma tokens_reset: "tokens (x\<lparr>rate_window_start := w, messages_this_window := 1\<rparr>) = 19"
  by (simp add: tokens_def)

lemma set_let_through: "set (let_through ts x) \<subseteq> set ts"
  by (induction ts arbitrary: x) (auto split: prod.splits if_splits)

lemma within_late: "\<forall>a \<in> set ts. t + second \<le> a \<Longrightarrow> within t ts = 0"
  unfolding within_def by (auto simp: filter_empty_conv)

lemma let_through_one_window:
  "sorted ts \<Longrightarrow> t \<le> rate_window_start x \<Longrightarrow> within t (let_through ts x) \<le> tokens x"
proof (induction ts arbitrary: x)
  case (Cons a ts)
  show ?case
  proof (cases "a - rate_window_start x < second")
    case True
    have "within t (let_through ts (x\<lparr>messages_this_window := messages_this_window x + 1\<rparr>)) \<le> tokens x - 1"
      using Cons.IH [of "x\<lparr>messages_this_window := messages_this_window x + 1\<rparr>"] Cons.prems
      by (simp add: tokens_spent)
    then show ?thesis using True by (auto simp: consume_same)
  next
    case False
    then have "\<forall>b \<in> set (a # ts). t + second \<le> b" using Cons.prems by auto
    then have "within t (let_through (a # ts) x) = 0"
      using set_let_through [of "a # ts" x] by (intro within_late) blast
    then show ?thesis by simp
  qed
qed simp

lemma let_through_two_windows:
  "sorted ts \<Longrightarrow> \<forall>a \<in> set ts. t \<le> a \<Longrightarrow> within t (let_through ts x) \<le> tokens x + 20"
proof (induction ts arbitrary: x)
  case (Cons a ts)
  show ?case
  proof (cases "a - rate_window_start x < second")
    case True
    have "within t (let_through ts (x\<lparr>messages_this_window := messages_this_window x + 1\<rparr>)) \<le> tokens x - 1 + 20"
      using Cons.IH [of "x\<lparr>messages_this_window := messages_this_window x + 1\<rparr>"] Cons.prems
      by (simp add: tokens_spent)
    then show ?thesis using True by (auto simp: consume_same)
  next
    case False
    have "within t (let_through ts (x\<lparr>rate_window_start := a, messages_this_window := 1\<rparr>)) \<le> 19"
      using let_through_one_window [of ts t "x\<lparr>rate_window_start := a, messages_this_window := 1\<rparr>"] Cons.prems
      by (simp add: tokens_reset)
    then show ?thesis using False by (auto simp: consume_reset)
  qed
qed simp

lemma tokens_le: "0 \<le> messages_this_window x \<Longrightarrow> tokens x \<le> 20"
  by (simp add: tokens_def)

lemma let_through_any_second:
  "sorted ts \<Longrightarrow> 0 \<le> messages_this_window x \<Longrightarrow> within t (let_through ts x) \<le> 40"
proof (induction ts arbitrary: x)
  case (Cons a ts)
  show ?case
  proof (cases "t \<le> a")
    case True
    then have "\<forall>b \<in> set (a # ts). t \<le> b" using Cons.prems by auto
    then show ?thesis
      using let_through_two_windows [of "a # ts" t x] tokens_le [of x] Cons.prems by linarith
  next
    case False
    then show ?thesis using Cons
      by (cases "a - rate_window_start x < second") (auto simp: consume_same consume_reset)
  qed
qed simp

lemma polite_let_through:
  assumes "sorted ts" "\<forall>k. \<forall>t. within t (drop k ts) \<le> 20"
    "messages_this_window x + int (within (rate_window_start x) ts) \<le> 20"
    "\<forall>a \<in> set ts. rate_window_start x \<le> a"
  shows "let_through ts x = ts"
  using assms
proof (induction ts arbitrary: x)
  case (Cons a ts)
  have d: "\<forall>k. \<forall>t. within t (drop k ts) \<le> 20"
    using Cons.prems(2) by (metis drop_Suc_Cons)
  show ?case
  proof (cases "a - rate_window_start x < second")
    case True
    have "let_through ts (x\<lparr>messages_this_window := messages_this_window x + 1\<rparr>) = ts"
      using Cons.prems d True by (intro Cons.IH) auto
    then show ?thesis using True Cons.prems by (auto simp: consume_same tokens_def)
  next
    case False
    have "within a (a # ts) \<le> 20" using Cons.prems(2) by (metis drop0)
    then have "let_through ts (x\<lparr>rate_window_start := a, messages_this_window := 1\<rparr>) = ts"
      using Cons.prems d by (intro Cons.IH) (auto simp: second_def)
    then show ?thesis using False by (simp add: consume_reset)
  qed
qed simp

lemma within_drop: "within t (drop k ts) \<le> within t ts"
  unfolding within_def
  by (metis append_take_drop_id filter_append length_append le_add2)

text \<open>C15: The rate limit bounds what a peer can make the server do and spares well-behaved peers. Of
  the messages of a session, in the order of their arrival, at most 40 that arrive within any second
  are let through, and if at most 20 arrive within any second all of them are.\<close>

theorem rate_limit:
  assumes "sorted ts" "\<forall>a \<in> set ts. now \<le> a"
  shows "within t (let_through ts (new_session now)) \<le> 40 \<and>
    ((\<forall>t. within t ts \<le> 20) \<longrightarrow> let_through ts (new_session now) = ts)"
proof (intro conjI impI)
  show "within t (let_through ts (new_session now)) \<le> 40"
    using assms by (intro let_through_any_second) (simp_all add: new_session_def)
  assume few: "\<forall>t. within t ts \<le> 20"
  then have "\<forall>k. \<forall>t. within t (drop k ts) \<le> 20" using within_drop le_trans by blast
  then show "let_through ts (new_session now) = ts"
    using assms few by (intro polite_let_through) (auto simp: new_session_def)
qed

theorem rate_limit_witness:
  "within 0 (let_through (replicate 25 0) (new_session 0)) \<le> 40 \<and>
   let_through [0, 600000000] (new_session 0) = [0, 600000000]"
proof
  show "within 0 (let_through (replicate 25 0) (new_session 0)) \<le> 40"
    using rate_limit [of "replicate 25 0" 0 0] by simp
  have "within t [0, 600000000] \<le> 20" for t by simp
  then show "let_through [0, 600000000] (new_session 0) = [0, 600000000]"
    using rate_limit [of "[0, 600000000]" 0 0] by simp
qed

end
