(* ===== verification/Json.thy ===== *)
theory Json
  imports Prelude "HOL-Library.Char_ord" "HOL-Library.List_Lexorder" "HOL-Library.Log_Nat"
begin

text \<open>
  The JSON values, parser and serializer of \<^verbatim>\<open>src/server/vendor/mini_json.hpp\<close>. A C++
  \<open>std::string\<close> is a \<^typ>\<open>string\<close>, one \<^typ>\<open>char\<close> per byte. A \<open>std::map\<close> is the list of its
  entries in increasing key order, which is the order in which the code iterates over it.

  Shown here: the parser returns for every input, never reads beyond a string's terminator, and
  inverts the serializer on every value without a floating point number.
\<close>

section \<open>Decimal numerals\<close>

definition isdigit :: "char \<Rightarrow> bool" where
  "isdigit c \<longleftrightarrow> 48 \<le> (of_char c :: int) \<and> (of_char c :: int) \<le> 57"

definition digit_value :: "char \<Rightarrow> int" where
  "digit_value c = of_char c - 48"

definition digit_char :: "int \<Rightarrow> char" where
  "digit_char d = char_of (48 + d)"

definition digits_value :: "string \<Rightarrow> int" where
  "digits_value ds = foldl (\<lambda>n c. 10 * n + digit_value c) 0 ds"

function digits :: "int \<Rightarrow> string" where
  "digits n = (if n < 10 then [digit_char n] else digits (n div 10) @ [digit_char (n mod 10)])"
  by pat_completeness auto
termination by (relation "measure nat") auto

declare digits.simps [simp del]

text \<open>\<open>std::to_string\<close> on an integer.\<close>

definition to_string :: "int \<Rightarrow> string" where
  "to_string i = (if i < 0 then CHR ''-'' # digits (- i) else digits i)"

text \<open>
  \<open>std::stoll\<close> on the texts \<open>parse_number\<close> passes to it: an optional minus sign and digits.
\<close>

definition stoll :: "string \<Rightarrow> exn + int" where
  "stoll num =
     (let neg = (num \<noteq> [] \<and> hd num = CHR ''-''); ds = (if neg then tl num else num);
          v = (if neg then - digits_value ds else digits_value ds)
      in if ds = [] then Inl (InvalidArgument ''stoll'')
         else if in_int64 v then Inr v else Inl (OutOfRange ''stoll''))"

section \<open>Double precision numbers\<close>

text \<open>
  A finite double is a sign, a mantissa and a binary exponent. \<open>stod\<close> rounds a decimal to the
  nearest double, ties to even; a magnitude of at least \<open>2^1024\<close> and, as the C library may report,
  a nonzero one below \<open>2^-1022\<close> are range errors. \<open>double_to_string\<close> is the \<open>%f\<close> format that
  \<open>std::to_string\<close> uses.
\<close>

datatype double = Dbl bool int int

definition round_div :: "int \<Rightarrow> int \<Rightarrow> int" where
  "round_div a b =
     (let q = a div b; r = a mod b
      in if 2 * r < b \<or> 2 * r = b \<and> even q then q else q + 1)"

definition scale_div :: "int \<Rightarrow> int \<Rightarrow> int \<Rightarrow> int \<times> int" where
  "scale_div a b e = (if 0 \<le> e then (a, b * 2 ^ nat e) else (a * 2 ^ nat (- e), b))"

definition round_double :: "bool \<Rightarrow> int \<Rightarrow> int \<Rightarrow> double option" where
  "round_double neg a b =
     (if a = 0 then Some (Dbl neg 0 0)
      else
        let e0 = bitlen a - bitlen b - 53;
            e = (case scale_div a b e0 of (x, y) \<Rightarrow> if 2 ^ 53 \<le> x div y then e0 + 1 else e0);
            m0 = (case scale_div a b e of (x, y) \<Rightarrow> round_div x y);
            m = (if m0 = 2 ^ 53 then 2 ^ 52 else m0);
            e' = (if m0 = 2 ^ 53 then e + 1 else e)
        in if e' < - 1074 \<or> 971 < e' then None else Some (Dbl neg m e'))"

definition stod :: "string \<Rightarrow> exn + double" where
  "stod num =
     (let neg = (num \<noteq> [] \<and> hd num = CHR ''-''); body = (if neg then tl num else num);
          ip = takeWhile isdigit body; fp = takeWhile isdigit (drop (Suc (length ip)) body)
      in if ip @ fp = [] then Inl (InvalidArgument ''stod'')
         else case round_double neg (digits_value (ip @ fp)) (10 ^ length fp) of
                None \<Rightarrow> Inl (OutOfRange ''stod'')
              | Some d \<Rightarrow> Inr d)"

definition double_to_string :: "double \<Rightarrow> string" where
  "double_to_string d =
     (case d of Dbl neg m e \<Rightarrow>
        let n = (case scale_div (m * 10 ^ 6) 1 (- e) of (x, y) \<Rightarrow> round_div x y);
            f = digits (n mod 10 ^ 6)
        in (if neg then ''-'' else '''') @ digits (n div 10 ^ 6) @ ''.''
             @ replicate (6 - length f) CHR ''0'' @ f)"

section \<open>Values\<close>

datatype json =
    JNull
  | JBool bool
  | JInt int
  | JFloat double
  | JString string
  | JArr "json list"
  | JObj "(string \<times> json) list"

type_synonym array = "json list"
type_synonym object = "(string \<times> json) list"

definition is_null :: "json \<Rightarrow> bool" where
  "is_null v = (case v of JNull \<Rightarrow> True | _ \<Rightarrow> False)"

definition is_bool :: "json \<Rightarrow> bool" where
  "is_bool v = (case v of JBool _ \<Rightarrow> True | _ \<Rightarrow> False)"

definition is_number :: "json \<Rightarrow> bool" where
  "is_number v = (case v of JInt _ \<Rightarrow> True | JFloat _ \<Rightarrow> True | _ \<Rightarrow> False)"

definition is_string :: "json \<Rightarrow> bool" where
  "is_string v = (case v of JString _ \<Rightarrow> True | _ \<Rightarrow> False)"

definition is_array :: "json \<Rightarrow> bool" where
  "is_array v = (case v of JArr _ \<Rightarrow> True | _ \<Rightarrow> False)"

definition is_object :: "json \<Rightarrow> bool" where
  "is_object v = (case v of JObj _ \<Rightarrow> True | _ \<Rightarrow> False)"

text \<open>The members \<open>i\<close>, \<open>b\<close>, \<open>s\<close>, \<open>arr\<close>, \<open>obj\<close> keep their defaults in a value of another kind.\<close>

definition as_int :: "json \<Rightarrow> int" where
  "as_int v = (case v of JInt i \<Rightarrow> i | _ \<Rightarrow> 0)"

definition as_bool :: "json \<Rightarrow> bool" where
  "as_bool v = (case v of JBool b \<Rightarrow> b | _ \<Rightarrow> False)"

definition as_string :: "json \<Rightarrow> string" where
  "as_string v = (case v of JString s \<Rightarrow> s | _ \<Rightarrow> [])"

definition as_arr :: "json \<Rightarrow> array" where
  "as_arr v = (case v of JArr xs \<Rightarrow> xs | _ \<Rightarrow> [])"

definition as_obj :: "json \<Rightarrow> object" where
  "as_obj v = (case v of JObj kvs \<Rightarrow> kvs | _ \<Rightarrow> [])"

subsection \<open>Objects: \<open>std::map\<close> operations\<close>

text \<open>\<open>obj[key] = v\<close>\<close>

fun obj_set :: "string \<Rightarrow> json \<Rightarrow> object \<Rightarrow> object" where
  "obj_set k v [] = [(k, v)]"
| "obj_set k v ((k', v') # kvs) =
     (if k < k' then (k, v) # (k', v') # kvs
      else if k = k' then (k, v) # kvs
      else (k', v') # obj_set k v kvs)"

text \<open>\<open>obj.find(key)\<close>, and \<open>obj.at(key)\<close>, which throws when the key is missing\<close>

definition obj_find :: "object \<Rightarrow> string \<Rightarrow> json option" where
  "obj_find ob k = map_of ob k"

definition obj_at :: "object \<Rightarrow> string \<Rightarrow> exn + json" where
  "obj_at ob k = (case obj_find ob k of None \<Rightarrow> Inl (OutOfRange ''map::at'') | Some v \<Rightarrow> Inr v)"

text \<open>A sequence of assignments \<open>obj[k1] = v1; obj[k2] = v2; \<dots>\<close> to an object.\<close>

definition obj_sets :: "object \<Rightarrow> (string \<times> json) list \<Rightarrow> object" where
  "obj_sets ob kvs = foldl (\<lambda>m (k, v). obj_set k v m) ob kvs"

definition value_contains :: "json \<Rightarrow> string \<Rightarrow> bool" where
  "value_contains v k = (case v of JObj kvs \<Rightarrow> obj_find kvs k \<noteq> None | _ \<Rightarrow> False)"

definition value_at :: "json \<Rightarrow> string \<Rightarrow> json" where
  "value_at v k =
     (case v of JObj kvs \<Rightarrow> (case obj_find kvs k of None \<Rightarrow> JNull | Some w \<Rightarrow> w) | _ \<Rightarrow> JNull)"

section \<open>The parser\<close>

text \<open>
  The parser's position \<open>pos\<close> is the text from it on: \<open>Some rest\<close> for a position up to the end of
  the string, \<open>None\<close> for the position one past the terminator, where \<open>next\<close> would be undefined.
\<close>

type_synonym cursor = "string option"

definition peek :: "cursor \<Rightarrow> char" where
  "peek cur = (case cur of Some (c # _) \<Rightarrow> c | _ \<Rightarrow> NUL)"

definition next_char :: "cursor \<Rightarrow> exn + (char \<times> cursor)" where
  "next_char cur =
     (case cur of
        Some (c # cs) \<Rightarrow> Inr (c, Some cs)
      | Some [] \<Rightarrow> Inr (NUL, None)
      | None \<Rightarrow> Inl OutOfBounds)"

definition is_ws :: "char \<Rightarrow> bool" where
  "is_ws c \<longleftrightarrow> c = CHR '' '' \<or> c = CHR 0x09 \<or> c = CHR 0x0A \<or> c = CHR 0x0D"

definition skip_ws :: "cursor \<Rightarrow> cursor" where
  "skip_ws cur = map_option (dropWhile is_ws) cur"

primrec parse_literal :: "string \<Rightarrow> string \<Rightarrow> json \<Rightarrow> cursor \<Rightarrow> exn + (json \<times> cursor)" where
  "parse_literal full [] result cur = Inr (result, cur)"
| "parse_literal full (p # ps) result cur =
     bindE (next_char cur) (\<lambda>(c, cur').
       if c \<noteq> p then Inl (RuntimeError (''expected '' @ full))
       else parse_literal full ps result cur')"

definition unescape :: "char \<Rightarrow> char" where
  "unescape c =
     (if c = CHR ''n'' then CHR 0x0A
      else if c = CHR ''t'' then CHR 0x09
      else if c = CHR ''r'' then CHR 0x0D
      else c)"

text \<open>
  The loop of \<open>parse_string\<close>. A backslash at the very end reads the terminator as its escape, after
  which the loop ends without a closing quote.
\<close>

fun parse_string_loop :: "string \<Rightarrow> string \<Rightarrow> exn + (string \<times> cursor)" where
  "parse_string_loop acc [] = Inl (RuntimeError ''unterminated string'')"
| "parse_string_loop acc (c # cs) =
     (if c = CHR 0x22 then Inr (acc, Some cs)
      else if c = CHR 0x5C then
        (case cs of
           [] \<Rightarrow> Inl (RuntimeError ''unterminated string'')
         | e # cs' \<Rightarrow> parse_string_loop (acc @ [unescape e]) cs')
      else parse_string_loop (acc @ [c]) cs)"

definition parse_string :: "cursor \<Rightarrow> exn + (string \<times> cursor)" where
  "parse_string cur =
     bindE (next_char cur) (\<lambda>(_, cur').
       case cur' of
         None \<Rightarrow> Inl (RuntimeError ''unterminated string'')
       | Some rest \<Rightarrow> parse_string_loop [] rest)"

text \<open>The text that \<open>parse_number\<close> takes, whether it has a point, and the rest.\<close>

definition number_split :: "string \<Rightarrow> string \<times> bool \<times> string" where
  "number_split s =
     (let sgn = (if s \<noteq> [] \<and> hd s = CHR ''-'' then [CHR ''-''] else []);
          s1 = drop (length sgn) s;
          ip = takeWhile isdigit s1; s2 = dropWhile isdigit s1
      in if s2 \<noteq> [] \<and> hd s2 = CHR ''.''
         then (sgn @ ip @ ''.'' @ takeWhile isdigit (tl s2), True, dropWhile isdigit (tl s2))
         else (sgn @ ip, False, s2))"

definition parse_number :: "cursor \<Rightarrow> exn + (json \<times> cursor)" where
  "parse_number cur =
     (case cur of
        None \<Rightarrow> Inl (OutOfRange ''substr'')
      | Some s \<Rightarrow>
          (case number_split s of (num, is_float, rest) \<Rightarrow>
             if is_float then bindE (stod num) (\<lambda>d. Inr (JFloat d, Some rest))
             else bindE (stoll num) (\<lambda>i. Inr (JInt i, Some rest))))"

text \<open>
  The mutually recursive part. Every call spends one unit of the bound; \<open>parse\<close> starts with one
  that \<open>parse_returns\<close> below shows to be enough for its input.
\<close>

fun parse_value :: "nat \<Rightarrow> cursor \<Rightarrow> exn + (json \<times> cursor)"
  and parse_array_loop :: "nat \<Rightarrow> array \<Rightarrow> cursor \<Rightarrow> exn + (json \<times> cursor)"
  and parse_object_loop :: "nat \<Rightarrow> object \<Rightarrow> cursor \<Rightarrow> exn + (json \<times> cursor)" where
  "parse_value 0 cur = Inl OutOfFuel"
| "parse_value (Suc n) cur =
     (let c = peek cur in
      if c = CHR ''n'' then parse_literal ''null'' ''null'' JNull cur
      else if c = CHR ''t'' then parse_literal ''true'' ''true'' (JBool True) cur
      else if c = CHR ''f'' then parse_literal ''false'' ''false'' (JBool False) cur
      else if c = CHR 0x22 then bindE (parse_string cur) (\<lambda>(s, cur'). Inr (JString s, cur'))
      else if c = CHR ''-'' \<or> isdigit c then parse_number cur
      else if c = CHR ''['' then
        bindE (next_char cur) (\<lambda>(_, cur1).
          let cur2 = skip_ws cur1 in
          if peek cur2 = CHR '']'' then bindE (next_char cur2) (\<lambda>(_, cur3). Inr (JArr [], cur3))
          else parse_array_loop n [] cur2)
      else if c = CHR ''{'' then
        bindE (next_char cur) (\<lambda>(_, cur1).
          let cur2 = skip_ws cur1 in
          if peek cur2 = CHR ''}'' then bindE (next_char cur2) (\<lambda>(_, cur3). Inr (JObj [], cur3))
          else parse_object_loop n [] cur2)
      else Inl (RuntimeError (''unexpected character: '' @ [c])))"
| "parse_array_loop 0 arr cur = Inl OutOfFuel"
| "parse_array_loop (Suc n) arr cur =
     bindE (parse_value n cur) (\<lambda>(v, cur1).
     bindE (next_char (skip_ws cur1)) (\<lambda>(c, cur2).
       if c = CHR '']'' then Inr (JArr (arr @ [v]), cur2)
       else if c \<noteq> CHR '','' then Inl (RuntimeError ''expected , or ] in array'')
       else parse_array_loop n (arr @ [v]) (skip_ws cur2)))"
| "parse_object_loop 0 obj cur = Inl OutOfFuel"
| "parse_object_loop (Suc n) obj cur =
     bindE (parse_string (skip_ws cur)) (\<lambda>(key, cur1).
     bindE (next_char (skip_ws cur1)) (\<lambda>(c, cur2).
       if c \<noteq> CHR '':'' then Inl (RuntimeError ''expected : in object'')
       else
         bindE (parse_value n (skip_ws cur2)) (\<lambda>(v, cur3).
         bindE (next_char (skip_ws cur3)) (\<lambda>(c', cur4).
           if c' = CHR ''}'' then Inr (JObj (obj_set key v obj), cur4)
           else if c' \<noteq> CHR '','' then Inl (RuntimeError ''expected , or } in object'')
           else parse_object_loop n (obj_set key v obj) cur4))))"

definition parse :: "string \<Rightarrow> exn + json" where
  "parse src =
     bindE (parse_value (2 * length src + 1) (skip_ws (Some src))) (\<lambda>(v, cur).
       if skip_ws cur \<noteq> Some [] then Inl (RuntimeError ''trailing content'') else Inr v)"

section \<open>The serializer\<close>

definition escape :: "char \<Rightarrow> string" where
  "escape c =
     (if c = CHR 0x22 then [CHR 0x5C, CHR 0x22]
      else if c = CHR 0x5C then [CHR 0x5C, CHR 0x5C]
      else if c = CHR 0x0A then [CHR 0x5C, CHR ''n'']
      else if c = CHR 0x0D then [CHR 0x5C, CHR ''r'']
      else if c = CHR 0x09 then [CHR 0x5C, CHR ''t'']
      else [c])"

definition serialize_string :: "string \<Rightarrow> string" where
  "serialize_string s = [CHR 0x22] @ concat (map escape s) @ [CHR 0x22]"

fun serialize :: "json \<Rightarrow> string"
  and serialize_elems :: "bool \<Rightarrow> array \<Rightarrow> string"
  and serialize_fields :: "bool \<Rightarrow> object \<Rightarrow> string" where
  "serialize JNull = ''null''"
| "serialize (JBool b) = (if b then ''true'' else ''false'')"
| "serialize (JInt i) = to_string i"
| "serialize (JFloat d) = double_to_string d"
| "serialize (JString s) = serialize_string s"
| "serialize (JArr xs) = ''['' @ serialize_elems True xs @ '']''"
| "serialize (JObj kvs) = ''{'' @ serialize_fields True kvs @ ''}''"
| "serialize_elems first [] = []"
| "serialize_elems first (x # xs) =
     (if first then [] else '','') @ serialize x @ serialize_elems False xs"
| "serialize_fields first [] = []"
| "serialize_fields first ((k, v) # kvs) =
     (if first then [] else '','') @ serialize_string k @ '':'' @ serialize v
       @ serialize_fields False kvs"

section \<open>Well-formed values\<close>

text \<open>
  What every value the C++ type can hold satisfies: integers fit 64 bits and a map's keys are
  strictly increasing. \<open>float_free\<close> values hold no floating point number.
\<close>

primrec wf_json :: "json \<Rightarrow> bool" where
  "wf_json JNull = True"
| "wf_json (JBool b) = True"
| "wf_json (JInt i) = in_int64 i"
| "wf_json (JFloat d) = True"
| "wf_json (JString s) = True"
| "wf_json (JArr xs) = list_all id (map wf_json xs)"
| "wf_json (JObj kvs) =
     (sorted_wrt (<) (map fst kvs) \<and> list_all snd (map (map_prod id wf_json) kvs))"

primrec float_free :: "json \<Rightarrow> bool" where
  "float_free JNull = True"
| "float_free (JBool b) = True"
| "float_free (JInt i) = True"
| "float_free (JFloat d) = False"
| "float_free (JString s) = True"
| "float_free (JArr xs) = list_all id (map float_free xs)"
| "float_free (JObj kvs) = list_all snd (map (map_prod id float_free) kvs)"

lemma wf_JArr [simp]: "wf_json (JArr xs) \<longleftrightarrow> (\<forall>x \<in> set xs. wf_json x)"
  by (auto simp: list_all_iff)

lemma wf_JObj [simp]:
  "wf_json (JObj kvs) \<longleftrightarrow> sorted_wrt (<) (map fst kvs) \<and> (\<forall>(k, v) \<in> set kvs. wf_json v)"
  by (auto simp: list_all_iff)

lemma float_free_JArr [simp]: "float_free (JArr xs) \<longleftrightarrow> (\<forall>x \<in> set xs. float_free x)"
  by (auto simp: list_all_iff)

lemma float_free_JObj [simp]: "float_free (JObj kvs) \<longleftrightarrow> (\<forall>(k, v) \<in> set kvs. float_free v)"
  by (auto simp: list_all_iff)

declare wf_json.simps(6,7) [simp del] float_free.simps(6,7) [simp del]

definition wf_object :: "object \<Rightarrow> bool" where
  "wf_object ob \<longleftrightarrow> wf_json (JObj ob)"

section \<open>Objects behave as finite maps\<close>

lemma obj_find_set [simp]: "obj_find (obj_set k v ob) = (obj_find ob)(k \<mapsto> v)"
proof -
  have "map_of (obj_set k v ob) x = ((map_of ob)(k \<mapsto> v)) x" for x
    by (induction k v ob rule: obj_set.induct) auto
  then show ?thesis by (auto simp: obj_find_def fun_eq_iff)
qed

lemma obj_find_Nil [simp]: "obj_find [] k = None"
  by (simp add: obj_find_def)

lemma set_obj_set: "set (obj_set k v ob) \<subseteq> insert (k, v) (set ob)"
  by (induction k v ob rule: obj_set.induct) auto

lemma keys_obj_set: "fst ` set (obj_set k v ob) = insert k (fst ` set ob)"
  by (induction k v ob rule: obj_set.induct) auto

lemma sorted_obj_set:
  "sorted_wrt (<) (map fst ob) \<Longrightarrow> sorted_wrt (<) (map fst (obj_set k v ob))"
proof (induction k v ob rule: obj_set.induct)
  case (2 k v k' v' kvs)
  then have IH: "\<not> k < k' \<Longrightarrow> k \<noteq> k' \<Longrightarrow> sorted_wrt (<) (map fst (obj_set k v kvs))" by simp
  have "\<forall>x \<in> fst ` set (obj_set k v kvs). k' < x" if "k' < k"
    using that "2.prems" by (auto simp: keys_obj_set simp del: image_iff)
  then show ?case
    using IH "2.prems" by (auto simp: image_iff)
qed auto

lemma wf_object_set: "wf_object ob \<Longrightarrow> wf_json v \<Longrightarrow> wf_object (obj_set k v ob)"
  unfolding wf_object_def using sorted_obj_set [of ob k v] set_obj_set [of k v ob] by auto

lemma wf_object_Nil [simp]: "wf_object []"
  by (simp add: wf_object_def)

text \<open>Assigning the keys of a sorted list in order rebuilds the list.\<close>

lemma obj_set_snoc: "\<forall>x \<in> fst ` set ob. x < k \<Longrightarrow> obj_set k v ob = ob @ [(k, v)]"
  by (induction k v ob rule: obj_set.induct) auto

section \<open>Numerals round trip\<close>

lemma digit_char_props:
  assumes "0 \<le> d" "d < 10"
  shows "isdigit (digit_char d)" "digit_value (digit_char d) = d"
proof -
  have "(of_char (char_of (48 + d)) :: int) = 48 + d"
    using assms by simp
  then show "isdigit (digit_char d)" "digit_value (digit_char d) = d"
    using assms by (simp_all add: isdigit_def digit_value_def digit_char_def)
qed

lemma digits_props:
  "0 \<le> n \<Longrightarrow> digits n \<noteq> [] \<and> (\<forall>c \<in> set (digits n). isdigit c) \<and> digits_value (digits n) = n"
proof (induction n rule: digits.induct)
  case (1 n)
  show ?case
  proof (cases "n < 10")
    case True
    with "1.prems" show ?thesis
      by (simp add: digits.simps [of n] digits_value_def digit_char_props)
  next
    case False
    then have "0 \<le> n div 10" "0 \<le> n mod 10" "n mod 10 < 10" by auto
    with "1.IH" False show ?thesis
      by (auto simp: digits.simps [of n] digits_value_def digit_char_props)
  qed
qed

lemma isdigit_simps [simp]:
  "\<not> isdigit CHR ''-''" "\<not> isdigit CHR ''.''" "\<not> isdigit CHR '','' " "\<not> isdigit CHR '']''"
  "\<not> isdigit CHR ''}''" "\<not> isdigit CHR 0x22" "\<not> isdigit CHR ''['' " "\<not> isdigit CHR ''{''"
  "\<not> isdigit CHR ''n''" "\<not> isdigit CHR ''t''" "\<not> isdigit CHR ''f''" "\<not> isdigit CHR '':''"
  "\<not> isdigit CHR '' ''" "\<not> isdigit CHR 0x09" "\<not> isdigit CHR 0x0A" "\<not> isdigit CHR 0x0D"
  by (simp_all add: isdigit_def)

lemma digits_hd: "0 \<le> n \<Longrightarrow> \<exists>c cs. digits n = c # cs \<and> isdigit c"
  using digits_props [of n] by (cases "digits n") auto

lemma to_string_not_minus: "0 \<le> i \<Longrightarrow> hd (digits i) \<noteq> CHR ''-''"
  using digits_hd [of i] by auto

lemma stoll_to_string: "in_int64 i \<Longrightarrow> stoll (to_string i) = Inr i"
  using digits_props [of i] digits_props [of "- i"] digits_hd [of i]
  by (auto simp: stoll_def to_string_def Let_def)

text \<open>What may follow a number without being read as a part of it.\<close>

definition num_end :: "string \<Rightarrow> bool" where
  "num_end rest \<longleftrightarrow> rest = [] \<or> \<not> isdigit (hd rest) \<and> hd rest \<noteq> CHR ''.''"

lemma span_digits:
  assumes "\<forall>c \<in> set ds. isdigit c" "num_end rest"
  shows "takeWhile isdigit (ds @ rest) = ds" "dropWhile isdigit (ds @ rest) = rest"
  using assms by (induction ds) (cases rest; auto simp: num_end_def)+

lemma number_split_to_string:
  assumes "num_end rest"
  shows "number_split (to_string i @ rest) = (to_string i, False, rest)"
proof (cases "i < 0")
  case True
  then have "\<forall>c \<in> set (digits (- i)). isdigit c" using digits_props [of "- i"] by simp
  from span_digits [OF this assms] show ?thesis
    using True assms by (auto simp: number_split_def to_string_def num_end_def)
next
  case False
  then have d: "\<forall>c \<in> set (digits i). isdigit c" and h: "\<exists>c cs. digits i = c # cs \<and> isdigit c"
    using digits_props [of i] digits_hd [of i] by simp_all
  from span_digits [OF d assms] show ?thesis
    using False assms h by (auto simp: number_split_def to_string_def num_end_def Let_def)
qed

section \<open>Strings round trip\<close>

lemma parse_string_loop_escape:
  "parse_string_loop acc (concat (map escape s) @ CHR 0x22 # rest) = Inr (acc @ s, Some rest)"
  by (induction s arbitrary: acc) (auto simp: escape_def unescape_def)

lemma parse_serialize_string:
  "parse_string (Some (serialize_string s @ rest)) = Inr (s, Some rest)"
  by (simp add: parse_string_def serialize_string_def next_char_def parse_string_loop_escape)

section \<open>Values round trip\<close>

lemma is_ws_simps [simp]:
  "\<not> is_ws CHR ''n''" "\<not> is_ws CHR ''t''" "\<not> is_ws CHR ''f''" "\<not> is_ws CHR 0x22"
  "\<not> is_ws CHR ''-''" "\<not> is_ws CHR ''['' " "\<not> is_ws CHR ''{''" "\<not> is_ws CHR '']''"
  "\<not> is_ws CHR ''}''" "\<not> is_ws CHR '':''" "\<not> is_ws CHR '',''"
  by (simp_all add: is_ws_def)

lemma isdigit_not_ws: "isdigit c \<Longrightarrow> \<not> is_ws c"
  by (auto simp: is_ws_def)

lemma serialize_hd:
  assumes "float_free v"
  obtains c cs where "serialize v = c # cs" "\<not> is_ws c" "c \<noteq> CHR '']''" "c \<noteq> CHR ''}''"
proof (cases v)
  case (JInt i)
  show ?thesis
    using that digits_hd [of i] JInt
    by (cases "i < 0") (auto simp: to_string_def isdigit_not_ws intro!: that)
next
  case (JBool b)
  then show ?thesis by (cases b) (auto intro: that)
qed (use assms that in \<open>auto simp: serialize_string_def split: if_splits\<close>)


lemma skip_ws_id [simp]:
  "\<not> is_ws c \<Longrightarrow> skip_ws (Some (c # cs)) = Some (c # cs)" "skip_ws (Some []) = Some []"
  by (simp_all add: skip_ws_def)

lemma next_char_simps [simp]:
  "next_char (Some (c # cs)) = Inr (c, Some cs)" "next_char (Some []) = Inr (NUL, None)"
  by (simp_all add: next_char_def)

lemma peek_simps [simp]: "peek (Some (c # cs)) = c" "peek (Some []) = NUL" "peek None = NUL"
  by (simp_all add: peek_def)

lemma num_end_simps [simp]: "num_end []" "num_end (CHR '','' # r)" "num_end (CHR '']'' # r)"
  "num_end (CHR ''}'' # r)"
  by (simp_all add: num_end_def)

text \<open>One value followed by other text is read back, whatever bound suffices for the text.\<close>

definition reads_back :: "json \<Rightarrow> bool" where
  "reads_back v \<longleftrightarrow> (\<forall>n rest. num_end rest \<longrightarrow> 2 * length (serialize v @ rest) + 1 \<le> n \<longrightarrow>
     parse_value n (Some (serialize v @ rest)) = Inr (v, Some rest))"

lemma reads_backD:
  "reads_back v \<Longrightarrow> num_end rest \<Longrightarrow> 2 * length (serialize v @ rest) + 1 \<le> n \<Longrightarrow>
     parse_value n (Some (serialize v @ rest)) = Inr (v, Some rest)"
  by (simp add: reads_back_def)

lemma reads_backI:
  assumes "\<And>m rest. num_end rest \<Longrightarrow> 2 * length (serialize v @ rest) \<le> m \<Longrightarrow>
     parse_value (Suc m) (Some (serialize v @ rest)) = Inr (v, Some rest)"
  shows "reads_back v"
  unfolding reads_back_def
proof (intro allI impI)
  fix n rest
  assume "num_end rest" "2 * length (serialize v @ rest) + 1 \<le> n"
  then show "parse_value n (Some (serialize v @ rest)) = Inr (v, Some rest)"
    using assms by (cases n) auto
qed

lemma array_loop_reads_back:
  assumes "\<forall>x \<in> set xs. reads_back x \<and> float_free x" "xs \<noteq> []"
    "2 * length (serialize_elems True xs @ CHR '']'' # rest) + 2 \<le> n"
  shows "parse_array_loop n acc (Some (serialize_elems True xs @ CHR '']'' # rest))
           = Inr (JArr (acc @ xs), Some rest)"
  using assms
proof (induction xs arbitrary: acc n)
  case (Cons x xs)
  then obtain m where n: "n = Suc m" by (cases n) auto
  show ?case
  proof (cases xs)
    case Nil
    with Cons.prems n have "parse_value m (Some (serialize x @ CHR '']'' # rest))
      = Inr (x, Some (CHR '']'' # rest))"
      by (intro reads_backD) auto
    with Nil n show ?thesis by simp
  next
    case (Cons y ys)
    let ?t = "serialize_elems True xs @ CHR '']'' # rest"
    have e: "serialize_elems True (x # xs) @ CHR '']'' # rest = serialize x @ CHR '','' # ?t"
      using Cons by simp
    have "parse_value m (Some (serialize x @ CHR '','' # ?t)) = Inr (x, Some (CHR '','' # ?t))"
      using Cons.prems n e by (intro reads_backD) auto
    moreover obtain c cs where "serialize y = c # cs" "\<not> is_ws c"
      using Cons.prems Cons by (metis list.set_intros serialize_hd)
    then have "skip_ws (Some ?t) = Some ?t" using Cons by simp
    moreover have "parse_array_loop m (acc @ [x]) (Some ?t) = Inr (JArr ((acc @ [x]) @ xs), Some rest)"
      using Cons.prems n e Cons by (intro Cons.IH) auto
    ultimately show ?thesis unfolding e n by simp
  qed
qed simp


lemma object_loop_reads_back:
  assumes "\<forall>(k, x) \<in> set kvs. reads_back x \<and> float_free x" "kvs \<noteq> []"
    "sorted_wrt (<) (map fst (acc @ kvs))"
    "2 * length (serialize_fields True kvs @ CHR ''}'' # rest) + 2 \<le> n"
  shows "parse_object_loop n acc (Some (serialize_fields True kvs @ CHR ''}'' # rest))
           = Inr (JObj (acc @ kvs), Some rest)"
  using assms
proof (induction kvs arbitrary: acc n)
  case (Cons kv kvs)
  obtain k x where kv: "kv = (k, x)" by fastforce
  from Cons.prems obtain m where n: "n = Suc m" by (cases n) auto
  obtain c cs where x: "serialize x = c # cs" "\<not> is_ws c"
    using Cons.prems kv by (auto elim: serialize_hd)
  have set: "obj_set k x acc = acc @ [(k, x)]"
    using Cons.prems(3) kv by (intro obj_set_snoc) (auto simp: sorted_wrt_append)
  have q: "serialize_string k @ t = CHR 0x22 # (concat (map escape k) @ [CHR 0x22]) @ t" for t
    by (simp add: serialize_string_def)
  have key: "parse_string (skip_ws (Some (serialize_string k @ t))) = Inr (k, Some t)" for t
    using parse_serialize_string [of k t] unfolding q by simp
  show ?case
  proof (cases kvs)
    case Nil
    have "parse_value m (Some (serialize x @ CHR ''}'' # rest)) = Inr (x, Some (CHR ''}'' # rest))"
      using Cons.prems n Nil kv by (intro reads_backD) auto
    with Nil n x show ?thesis by (simp add: kv key set)
  next
    case (Cons kv' kvs')
    let ?t = "serialize_fields True kvs @ CHR ''}'' # rest"
    have e: "serialize_fields True (kv # kvs) @ CHR ''}'' # rest
        = serialize_string k @ CHR '':'' # serialize x @ CHR '','' # ?t"
      using Cons kv by (cases kv') simp
    have "parse_value m (Some (serialize x @ CHR '','' # ?t)) = Inr (x, Some (CHR '','' # ?t))"
      using Cons.prems n kv e by (intro reads_backD) auto
    moreover have "parse_object_loop m (acc @ [(k, x)]) (Some ?t)
        = Inr (JObj ((acc @ [(k, x)]) @ kvs), Some rest)"
      using Cons.prems n e Cons kv by (intro Cons.IH) auto
    ultimately show ?thesis unfolding e n using x by (simp add: key set kv)
  qed
qed simp

lemma parse_literal_reads: "parse_literal full l v (Some (l @ rest)) = Inr (v, Some rest)"
  by (induction l) auto

lemma reads_back_all: "wf_json v \<Longrightarrow> float_free v \<Longrightarrow> reads_back v"
proof (induction v)
  case JNull
  show ?case
    using parse_literal_reads [of "''null''" "''null''" JNull] by (intro reads_backI) simp
next
  case (JBool b)
  show ?case
    using parse_literal_reads [of "''true''" "''true''" "JBool True"]
      parse_literal_reads [of "''false''" "''false''" "JBool False"]
    by (intro reads_backI) simp
next
  case (JInt i)
  have c: "\<exists>c cs. to_string i = c # cs \<and> (c = CHR ''-'' \<or> isdigit c)"
    using digits_hd [of i] by (auto simp: to_string_def)
  have "parse_number (Some (to_string i @ rest)) = Inr (JInt i, Some rest)" if "num_end rest" for rest
    using that JInt by (simp add: parse_number_def number_split_to_string stoll_to_string)
  then show ?case
    using c by (intro reads_backI) auto
next
  case (JFloat d)
  then show ?case by simp
next
  case (JString s)
  have q: "serialize_string s @ t = CHR 0x22 # (concat (map escape s) @ [CHR 0x22]) @ t" for t
    by (simp add: serialize_string_def)
  show ?case
    using parse_serialize_string [of s] by (intro reads_backI) (simp add: q)
next
  case (JArr xs)
  show ?case
  proof (rule reads_backI)
    fix m rest
    assume "num_end rest" and m: "2 * length (serialize (JArr xs) @ rest) \<le> m"
    show "parse_value (Suc m) (Some (serialize (JArr xs) @ rest)) = Inr (JArr xs, Some rest)"
    proof (cases xs)
      case Nil
      then show ?thesis by simp
    next
      case (Cons y ys)
      then have ff: "float_free y" using JArr.prems by simp
      obtain c cs where "serialize y = c # cs" "\<not> is_ws c" "c \<noteq> CHR '']''"
        by (rule serialize_hd [OF ff])
      moreover have "parse_array_loop m [] (Some (serialize_elems True xs @ CHR '']'' # rest))
          = Inr (JArr ([] @ xs), Some rest)"
        using JArr m Cons by (intro array_loop_reads_back) auto
      ultimately show ?thesis using Cons by simp
    qed
  qed
next
  case (JObj kvs)
  have all: "\<forall>(k, x) \<in> set kvs. reads_back x \<and> float_free x"
    using JObj by (fastforce simp: snds.simps)
  show ?case
  proof (rule reads_backI)
    fix m rest
    assume "num_end rest" and m: "2 * length (serialize (JObj kvs) @ rest) \<le> m"
    show "parse_value (Suc m) (Some (serialize (JObj kvs) @ rest)) = Inr (JObj kvs, Some rest)"
    proof (cases kvs)
      case Nil
      then show ?thesis by simp
    next
      case (Cons kv kvs')
      have "parse_object_loop m [] (Some (serialize_fields True kvs @ CHR ''}'' # rest))
          = Inr (JObj ([] @ kvs), Some rest)"
        using all JObj.prems m Cons by (intro object_loop_reads_back) auto
      then show ?thesis using Cons by (cases kv) (simp add: serialize_string_def)
    qed
  qed
qed

lemma parse_serialize: "wf_json v \<Longrightarrow> float_free v \<Longrightarrow> parse (serialize v) = Inr v"
proof -
  assume v: "wf_json v" "float_free v"
  then obtain c cs where c: "serialize v = c # cs" "\<not> is_ws c" by (auto elim: serialize_hd)
  have "parse_value (2 * length (serialize v) + 1) (Some (serialize v @ [])) = Inr (v, Some [])"
    using reads_back_all [OF v] by (rule reads_backD) auto
  then show ?thesis using c by (simp add: parse_def)
qed


section \<open>The parser returns and stays inside its input\<close>

text \<open>
  A run of a parsing function on the text \<open>s\<close> is good when it either throws one of the exceptions
  of the source (or, without enough fuel, the model's own) or returns with strictly less of the
  text left, still before the terminator.
\<close>

definition good :: "bool \<Rightarrow> string \<Rightarrow> exn + ('a \<times> cursor) \<Rightarrow> bool" where
  "good enough s r \<longleftrightarrow>
     (case r of
        Inl e \<Rightarrow> e \<noteq> OutOfBounds \<and> (enough \<longrightarrow> e \<noteq> OutOfFuel)
      | Inr (v, cur) \<Rightarrow> (\<exists>s'. cur = Some s' \<and> length s' < length s))"

lemma good_simps [simp]:
  "good b s (Inl e) \<longleftrightarrow> e \<noteq> OutOfBounds \<and> (b \<longrightarrow> e \<noteq> OutOfFuel)"
  "good b s (Inr (v, cur)) \<longleftrightarrow> (\<exists>s'. cur = Some s' \<and> length s' < length s)"
  by (simp_all add: good_def)

lemma good_bind:
  assumes "good b' s r" "b \<longrightarrow> b'"
    "\<And>v s'. r = Inr (v, Some s') \<Longrightarrow> length s' < length s \<Longrightarrow> good b s (f (v, Some s'))"
  shows "good b s (bindE r f)"
  using assms by (cases r) auto

lemma good_mono: "good b' s' r \<Longrightarrow> b \<longrightarrow> b' \<Longrightarrow> length s' \<le> length s \<Longrightarrow> good b s r"
  by (cases r) auto

lemma NUL_simps [simp]:
  "NUL \<noteq> CHR '','' " "NUL \<noteq> CHR '']''" "NUL \<noteq> CHR ''}''" "NUL \<noteq> CHR '':''" "\<not> isdigit NUL"
  "NUL \<noteq> CHR 0x22" "NUL \<noteq> CHR ''-''" "NUL \<noteq> CHR ''['' " "NUL \<noteq> CHR ''{''"
  "NUL \<noteq> CHR ''n''" "NUL \<noteq> CHR ''t''" "NUL \<noteq> CHR ''f''"
  by (simp_all add: NUL_def isdigit_def)

lemma good_literal: "NUL \<notin> set l \<Longrightarrow> l \<noteq> [] \<Longrightarrow> good b s (parse_literal full l v (Some s))"
proof (induction l arbitrary: s)
  case (Cons p ps)
  show ?case
  proof (cases s)
    case s: (Cons c cs)
    show ?thesis
    proof (cases ps)
      case (Cons q qs)
      with Cons.prems have "good b cs (parse_literal full ps v (Some cs))" by (intro Cons.IH) auto
      then have "good b s (parse_literal full ps v (Some cs))" by (rule good_mono) (simp_all add: s)
      then show ?thesis by (auto simp: s)
    qed (simp add: s)
  qed (use Cons.prems in auto)
qed simp

lemma good_string_loop: "length s < length t \<Longrightarrow> good b t (parse_string_loop acc s)"
  by (induction acc s rule: parse_string_loop.induct) (auto split: list.split)

lemma good_string: "good b s (parse_string (Some s))"
  by (cases s) (auto simp: parse_string_def good_string_loop)

lemma length_dropWhile_le: "length (dropWhile P xs) \<le> length xs"
  by (induction xs) auto

lemma skip_ws_Some: "\<exists>s'. skip_ws (Some s) = Some s' \<and> length s' \<le> length s"
  by (simp add: skip_ws_def length_dropWhile_le)

lemma good_number:
  assumes "s \<noteq> []" "hd s = CHR ''-'' \<or> isdigit (hd s)"
  shows "good b s (parse_number (Some s))"
proof -
  obtain c cs where s: "s = c # cs" using assms by (cases s) auto
  have l: "length (dropWhile isdigit xs) \<le> length xs" for xs by (rule length_dropWhile_le)
  have "length (snd (snd (number_split s))) < length s"
    using assms l [of cs] l [of "tl (dropWhile isdigit cs)"] s
    by (auto simp: number_split_def Let_def)
  then show ?thesis
    by (auto simp: parse_number_def stod_def stoll_def Let_def good_def bindE_def
        split: prod.splits sum.splits if_splits option.splits)
qed

lemma good_if: "(P \<Longrightarrow> good b s x) \<Longrightarrow> (\<not> P \<Longrightarrow> good b s y) \<Longrightarrow> good b s (if P then x else y)"
  by simp

lemma skip_ws_ind: "(\<And>t. length t \<le> length s \<Longrightarrow> P (Some t)) \<Longrightarrow> P (skip_ws (Some s))"
  by (simp add: skip_ws_def length_dropWhile_le)

lemma good_skip_next:
  assumes "good b s (f (NUL, None))" "\<And>c cs. length cs < length s1 \<Longrightarrow> good b s (f (c, Some cs))"
  shows "good b s (bindE (next_char (skip_ws (Some s1))) f)"
proof (rule skip_ws_ind)
  fix t :: string
  assume "length t \<le> length s1"
  then show "good b s (bindE (next_char (Some t)) f)" using assms by (cases t) auto
qed

lemma good_skip_bind:
  assumes "\<And>t. length t \<le> length s1 \<Longrightarrow> good b s (p (Some t))"
    "\<And>v t. length t < length s \<Longrightarrow> good b s (f (v, Some t))"
  shows "good b s (bindE (p (skip_ws (Some s1))) f)"
proof (rule skip_ws_ind)
  fix t :: string
  assume "length t \<le> length s1"
  then show "good b s (bindE (p (Some t)) f)" using assms by (intro good_bind [of b]) auto
qed

lemma good_parse:
  "good (2 * length s + 1 \<le> n) s (parse_value n (Some s))"
  "good (2 * length s + 2 \<le> n) s (parse_array_loop n arr (Some s))"
  "good (2 * length s + 2 \<le> n) s (parse_object_loop n obj (Some s))"
proof (induction n arbitrary: s arr obj)
  case 0
  { case 1 show ?case by simp next case 2 show ?case by simp next case 3 show ?case by simp }
next
  case (Suc n)
  { case 1
    show ?case
    proof (cases s)
      case (Cons c cs)
      obtain s2 where s2: "skip_ws (Some cs) = Some s2" "length s2 \<le> length cs"
        using skip_ws_Some by blast
      have a: "good (2 * length s + 1 \<le> Suc n) s (parse_array_loop n [] (Some s2))"
        by (rule good_mono [OF Suc(2)]) (use Cons s2 in auto)
      have o: "good (2 * length s + 1 \<le> Suc n) s (parse_object_loop n [] (Some s2))"
        by (rule good_mono [OF Suc(3)]) (use Cons s2 in auto)
      have e: "good bb s (if peek (Some s2) = k then bindE (next_char (Some s2)) (\<lambda>(_, cur3). Inr (v, cur3)) else r)"
        if "good bb s r" "k \<noteq> NUL" for bb k v r
        using that s2 Cons by (cases s2) auto
      have str: "good bb s (bindE (parse_string (Some s)) (\<lambda>(s, cur'). Inr (JString s, cur')))" for bb
        by (rule good_bind [OF good_string]) auto
      have pk: "peek (Some s) = c" and nx: "next_char (Some s) = Inr (c, Some cs)"
        by (simp_all add: Cons)
      show ?thesis
        unfolding parse_value.simps Let_def pk nx bindE_simps prod.case s2
        by (intro good_if good_literal str e a o good_number) (auto simp: Cons NUL_def)
    qed simp
  next
    case 2
    have loop: "good (2 * length s + 2 \<le> Suc n) s (parse_array_loop n arr' (skip_ws (Some cs)))"
      if "length cs < length s" for cs arr'
      by (rule skip_ws_ind, rule good_mono [OF Suc(2)]) (use that in auto)
    show ?case
      unfolding parse_array_loop.simps
      by (rule good_bind [OF Suc(1)], simp, simp only: prod.case, rule good_skip_next)
        (use loop in auto)
  next
    case 3
    have loop: "good (2 * length s + 2 \<le> Suc n) s (parse_object_loop n obj' (Some cs))"
      if "length cs < length s" for cs obj'
      using that by (intro good_mono [OF Suc(3)]) auto
    have val: "good (2 * length s + 2 \<le> Suc n) s (parse_value n (Some cs))"
      if "length cs \<le> length s" for cs
      using that by (intro good_mono [OF Suc(1)]) auto
    have str: "good (2 * length s + 2 \<le> Suc n) s (parse_string (Some cs))"
      if "length cs \<le> length s" for cs
      using that by (intro good_mono [OF good_string]) auto
    show ?case
      unfolding parse_object_loop.simps
      using loop val str by (auto intro!: good_skip_bind good_skip_next)
  }
qed

lemma parse_value_None: "parse_value n None \<noteq> Inl OutOfBounds"
  by (cases n) (simp_all add: Let_def)

text \<open>Every input is parsed to a value or to an exception the source throws.\<close>

lemma parse_returns: "parse src \<noteq> Inl OutOfBounds" "parse src \<noteq> Inl OutOfFuel"
proof -
  obtain t where t: "skip_ws (Some src) = Some t" "length t \<le> length src"
    using skip_ws_Some by blast
  then have "good True t (parse_value (2 * length src + 1) (Some t))"
    by (intro good_mono [OF good_parse(1)]) auto
  then show "parse src \<noteq> Inl OutOfBounds" "parse src \<noteq> Inl OutOfFuel"
    unfolding parse_def t by (auto simp: bindE_eq_Inl)
qed

section \<open>Parsed values are well formed\<close>

lemma stoll_range: "stoll num = Inr i \<Longrightarrow> in_int64 i"
  by (auto simp: stoll_def Let_def split: if_splits)

lemma parse_literal_value: "parse_literal full l v cur = Inr (w, cur') \<Longrightarrow> w = v"
  by (induction l arbitrary: cur) (auto simp: bindE_eq_Inr split: if_splits)

lemma parse_number_wf: "parse_number cur = Inr (v, cur') \<Longrightarrow> wf_json v"
  by (auto simp: parse_number_def bindE_eq_Inr dest: stoll_range split: option.splits prod.splits if_splits)

lemma parse_wf:
  "parse_value n cur = Inr (v, cur') \<Longrightarrow> wf_json v"
  "\<forall>x \<in> set arr. wf_json x \<Longrightarrow> parse_array_loop n arr cur = Inr (v, cur') \<Longrightarrow> wf_json v"
  "wf_object obj \<Longrightarrow> parse_object_loop n obj cur = Inr (v, cur') \<Longrightarrow> wf_json v"
proof (induction n arbitrary: cur v cur' arr obj)
  case (Suc n)
  { case 1
    then show ?case
      by (auto simp: Let_def bindE_eq_Inr dest!: parse_literal_value dest: parse_number_wf
          Suc.IH(2) [of "[]", simplified] Suc.IH(3) [of "[]", simplified] split: if_splits)
  next
    case 2
    then obtain w cur1 c cur2 where w: "parse_value n cur = Inr (w, cur1)"
      and r: "c = CHR '']'' \<and> v = JArr (arr @ [w]) \<or> parse_array_loop n (arr @ [w]) (skip_ws cur2) = Inr (v, cur')"
      by (auto simp: bindE_eq_Inr split: if_splits)
    have wf: "\<forall>x \<in> set (arr @ [w]). wf_json x" using 2 Suc.IH(1) [OF w] by auto
    from r show ?case
    proof
      assume "c = CHR '']'' \<and> v = JArr (arr @ [w])"
      with wf show ?case by simp
    next
      assume "parse_array_loop n (arr @ [w]) (skip_ws cur2) = Inr (v, cur')"
      with wf show ?case by (rule Suc.IH(2))
    qed
  next
    case 3
    then obtain key w cur1 cur2 cur3 where w: "parse_value n cur1 = Inr (w, cur2)"
      and r: "v = JObj (obj_set key w obj) \<or> parse_object_loop n (obj_set key w obj) cur3 = Inr (v, cur')"
      by (auto simp: bindE_eq_Inr split: if_splits) blast+
    have "wf_object (obj_set key w obj)" using 3 Suc.IH(1) [OF w] by (simp add: wf_object_set)
    with r show ?case using Suc.IH(3) by (auto simp: wf_object_def)
  }
qed auto

lemma parse_wf_json: "parse src = Inr v \<Longrightarrow> wf_json v"
  unfolding parse_def
  by (auto simp: bindE_eq_Inr simp del: parse_value.simps dest: parse_wf(1) split: if_splits)

section \<open>Properties\<close>

text \<open>C16: Parsing a serialized value gives the value back, for every value without a floating point
  number, whatever bytes its strings and keys contain.\<close>

theorem json_roundtrip: "wf_json v \<Longrightarrow> float_free v \<Longrightarrow> parse (serialize v) = Inr v"
  by (rule parse_serialize)

theorem json_roundtrip_witness:
  "parse (serialize (JObj [(''a'', JArr [JInt (- 5), JNull]), (''b'', JString [CHR 0x22, CHR 0x0A])]))
     = Inr (JObj [(''a'', JArr [JInt (- 5), JNull]), (''b'', JString [CHR 0x22, CHR 0x0A])])"
  by (rule json_roundtrip) (simp_all add: in_int64_def)

text \<open>C17: The parser returns on every input, with a value or with an exception of the standard library
  or of its own: it never reads beyond the terminator of its input, and the recursion bound of the
  model is never reached.\<close>

theorem parse_total_in_bounds:
  "parse src \<noteq> Inl OutOfBounds \<and> parse src \<noteq> Inl OutOfFuel \<and>
   ((\<exists>v. parse src = Inr v) \<or>
    (\<exists>m. parse src = Inl (RuntimeError m) \<or> parse src = Inl (OutOfRange m) \<or>
         parse src = Inl (InvalidArgument m)))"
  using parse_returns [of src] by (cases "parse src") (auto intro: exn.exhaust)

text \<open>C18: Every value the parser returns is one the data type can hold: integers fit in 64 bits and
  the keys of every object are strictly increasing, so no key occurs twice.\<close>

theorem parse_well_formed: "\<forall>v. parse src = Inr v \<longrightarrow> wf_json v"
  using parse_wf_json by blast

theorem parse_well_formed_witness: "wf_json (JArr [JInt 7])"
proof -
  have "parse (serialize (JArr [JInt 7])) = Inr (JArr [JInt 7])"
    by (rule parse_serialize) (simp_all add: in_int64_def)
  then show ?thesis using parse_well_formed by blast
qed

text \<open>The parser does not check the opening quote of a key: after the opening brace, any two
  characters that are neither white space nor the closing brace are read alike, so texts that are
  not JSON are accepted.\<close>

theorem key_quote_unchecked:
  assumes "\<not> is_ws c" "c \<noteq> CHR ''}''" "\<not> is_ws d" "d \<noteq> CHR ''}''"
  shows "parse (CHR ''{'' # c # t) = parse (CHR ''{'' # d # t)"
proof -
  have "parse_object_loop n [] (Some (c # t)) = parse_object_loop n [] (Some (d # t))" for n
    using assms by (cases n) (simp_all add: parse_string_def)
  then show ?thesis using assms by (simp add: parse_def Let_def)
qed

theorem key_quote_unchecked_witness:
  "parse (CHR ''{'' # CHR ''!'' # ''a'' @ CHR 0x22 # '':1}'')
     = parse (CHR ''{'' # CHR 0x22 # ''a'' @ CHR 0x22 # '':1}'')"
  by (rule key_quote_unchecked) (simp_all add: is_ws_def)

end
