(* ===== verification/MessageTypes.thy ===== *)
theory MessageTypes
  imports Prelude
begin

text \<open>
  The protocol's message types and user record: \<^verbatim>\<open>protocol/message_types.h\<close>. The enum's value
  \<open>static_cast<MsgType>(-1)\<close>, which \<open>fromInt\<close> returns for an unknown number, is the constructor
  \<open>InvalidType\<close>.
\<close>

section \<open>Message types\<close>

datatype MsgType =
    RegisterUser
  | RegisterUserReturn
  | Login
  | LoginSuccessReturn
  | LoginFailedReturn
  | SendMsg
  | ReceiveMsg
  | UserOnline
  | UserOffline
  | CreateGroup
  | CreateGroupReturn
  | SearchGroup
  | SearchGroupReturn
  | JoinGroup
  | JoinGroupReturn
  | LeaveGroup
  | SendGroupMsg
  | ReceiveGroupMsg
  | UserJoinGroup
  | UserLeaveGroup
  | Heartbeat
  | HeartbeatAck
  | OfflineMessages
  | Logout
  | RequestHistory
  | HistoryResponse
  | SendFile
  | ReceiveFile
  | FileTransferDone
  | AIRequest
  | AIResponse
  | AIStreamChunk
  | UserProfileUpdate
  | SystemBroadcast
  | FriendRequest
  | FriendRequestAck
  | FriendAccept
  | FriendAcceptReturn
  | FriendRemove
  | FriendRemoveReturn
  | FriendList
  | FriendListReturn
  | FriendOnline
  | MessageEdit
  | MessageEditReturn
  | MessageDelete
  | MessageDeleteReturn
  | MessageReaction
  | MessageReactionReturn
  | ReadReceipt
  | ProtocolHello
  | InvalidType

primrec toInt :: "MsgType \<Rightarrow> int" where
  "toInt RegisterUser = 0"
| "toInt RegisterUserReturn = 1"
| "toInt Login = 2"
| "toInt LoginSuccessReturn = 3"
| "toInt LoginFailedReturn = 4"
| "toInt SendMsg = 5"
| "toInt ReceiveMsg = 6"
| "toInt UserOnline = 7"
| "toInt UserOffline = 8"
| "toInt CreateGroup = 9"
| "toInt CreateGroupReturn = 10"
| "toInt SearchGroup = 11"
| "toInt SearchGroupReturn = 12"
| "toInt JoinGroup = 13"
| "toInt JoinGroupReturn = 14"
| "toInt LeaveGroup = 15"
| "toInt SendGroupMsg = 16"
| "toInt ReceiveGroupMsg = 17"
| "toInt UserJoinGroup = 18"
| "toInt UserLeaveGroup = 19"
| "toInt Heartbeat = 20"
| "toInt HeartbeatAck = 21"
| "toInt OfflineMessages = 22"
| "toInt Logout = 23"
| "toInt RequestHistory = 24"
| "toInt HistoryResponse = 25"
| "toInt SendFile = 26"
| "toInt ReceiveFile = 27"
| "toInt FileTransferDone = 28"
| "toInt AIRequest = 29"
| "toInt AIResponse = 30"
| "toInt AIStreamChunk = 31"
| "toInt UserProfileUpdate = 32"
| "toInt SystemBroadcast = 33"
| "toInt FriendRequest = 34"
| "toInt FriendRequestAck = 35"
| "toInt FriendAccept = 36"
| "toInt FriendAcceptReturn = 37"
| "toInt FriendRemove = 38"
| "toInt FriendRemoveReturn = 39"
| "toInt FriendList = 40"
| "toInt FriendListReturn = 41"
| "toInt FriendOnline = 42"
| "toInt MessageEdit = 43"
| "toInt MessageEditReturn = 44"
| "toInt MessageDelete = 45"
| "toInt MessageDeleteReturn = 46"
| "toInt MessageReaction = 47"
| "toInt MessageReactionReturn = 48"
| "toInt ReadReceipt = 49"
| "toInt ProtocolHello = 50"
| "toInt InvalidType = - 1"

definition msg_types :: "MsgType list" where
  "msg_types =
     [RegisterUser, RegisterUserReturn, Login, LoginSuccessReturn,
      LoginFailedReturn, SendMsg, ReceiveMsg, UserOnline,
      UserOffline, CreateGroup, CreateGroupReturn, SearchGroup,
      SearchGroupReturn, JoinGroup, JoinGroupReturn, LeaveGroup,
      SendGroupMsg, ReceiveGroupMsg, UserJoinGroup, UserLeaveGroup,
      Heartbeat, HeartbeatAck, OfflineMessages, Logout,
      RequestHistory, HistoryResponse, SendFile, ReceiveFile,
      FileTransferDone, AIRequest, AIResponse, AIStreamChunk,
      UserProfileUpdate, SystemBroadcast, FriendRequest, FriendRequestAck,
      FriendAccept, FriendAcceptReturn, FriendRemove, FriendRemoveReturn,
      FriendList, FriendListReturn, FriendOnline, MessageEdit,
      MessageEditReturn, MessageDelete, MessageDeleteReturn, MessageReaction,
      MessageReactionReturn, ReadReceipt, ProtocolHello]"

definition fromInt :: "int \<Rightarrow> MsgType" where
  "fromInt v = (if 0 \<le> v \<and> v \<le> 50 then msg_types ! nat v else InvalidType)"

definition isLegacyType :: "MsgType \<Rightarrow> bool" where
  "isLegacyType t \<longleftrightarrow> toInt t \<le> 19"

definition isValidType :: "MsgType \<Rightarrow> bool" where
  "isValidType t \<longleftrightarrow> 0 \<le> toInt t \<and> toInt t \<le> 50"

section \<open>Users\<close>

record UserInfo =
  u_id :: int
  u_password :: string
  u_nickname :: string
  u_avatar_id :: int

definition user_less :: "UserInfo \<Rightarrow> UserInfo \<Rightarrow> bool" where
  "user_less a b \<longleftrightarrow> u_id a < u_id b"

definition user_eq :: "UserInfo \<Rightarrow> UserInfo \<Rightarrow> bool" where
  "user_eq a b \<longleftrightarrow> u_id a = u_id b"

section \<open>The numbering is a bijection onto 0 to 50\<close>

lemma toInt_range: "- 1 \<le> toInt t \<and> toInt t \<le> 50"
  by (cases t) simp_all

lemma fromInt_toInt [simp]: "fromInt (toInt t) = t"
  by (cases t) (simp_all add: fromInt_def msg_types_def)

lemma toInt_msg_types: "map toInt msg_types = map int [0..<51]"
  unfolding msg_types_def by (simp add: upt_rec)

lemma length_msg_types: "length msg_types = 51"
proof -
  have "length (map toInt msg_types) = 51" unfolding toInt_msg_types by simp
  then show ?thesis by simp
qed

lemma toInt_fromInt: "toInt (fromInt v) = (if 0 \<le> v \<and> v \<le> 50 then v else - 1)"
proof (cases "0 \<le> v \<and> v \<le> 50")
  case True
  then have n: "nat v < length msg_types" by (simp add: length_msg_types nat_less_iff)
  then have "toInt (msg_types ! nat v) = map toInt msg_types ! nat v" by simp
  also have "\<dots> = int (nat v)"
    using True unfolding toInt_msg_types by (simp add: nat_less_iff)
  finally show ?thesis using True by (simp add: fromInt_def)
qed (auto simp: fromInt_def)

lemma toInt_inject: "toInt a = toInt b \<longleftrightarrow> a = b"
  by (metis fromInt_toInt)

lemma isValidType_iff: "isValidType t \<longleftrightarrow> t \<noteq> InvalidType"
  using toInt_range [of t] by (cases t) (simp_all add: isValidType_def)

end
