(* ===== verification/ProtocolJson.thy ===== *)
theory ProtocolJson
  imports Json MessageTypes
begin

text \<open>
  Typed access to a request's fields and the standard replies:
  \<^verbatim>\<open>src/server/include/lanchat/server/ProtocolJson.h\<close>.
\<close>

section \<open>Reading requests\<close>

text \<open>\<open>parseObject(json, ok)\<close>: \<open>None\<close> stands for \<open>ok = false\<close> with the empty object.\<close>

definition parseObject :: "string \<Rightarrow> object option" where
  "parseObject json =
     (case parse json of
        Inl _ \<Rightarrow> None
      | Inr v \<Rightarrow> if \<not> is_object v then None else Some (as_obj v))"

definition has :: "object \<Rightarrow> string \<Rightarrow> bool" where
  "has ob key \<longleftrightarrow> obj_find ob key \<noteq> None"

definition intField :: "object \<Rightarrow> string \<Rightarrow> int \<Rightarrow> int" where
  "intField ob key fallback =
     (case obj_find ob key of
        None \<Rightarrow> fallback
      | Some v \<Rightarrow> if \<not> is_number v then fallback else to_int32 (as_int v))"

definition int64Field :: "object \<Rightarrow> string \<Rightarrow> int \<Rightarrow> int" where
  "int64Field ob key fallback =
     (case obj_find ob key of
        None \<Rightarrow> fallback
      | Some v \<Rightarrow> if \<not> is_number v then fallback else as_int v)"

definition stringField :: "object \<Rightarrow> string \<Rightarrow> string \<Rightarrow> string" where
  "stringField ob key fallback =
     (case obj_find ob key of
        None \<Rightarrow> fallback
      | Some v \<Rightarrow> if \<not> is_string v then fallback else as_string v)"

definition field_TYPE :: string where
  "field_TYPE = ''type''"

definition typeField :: "object \<Rightarrow> MsgType" where
  "typeField ob = fromInt (intField ob field_TYPE (- 1))"

section \<open>Writing replies\<close>

definition serialize_object :: "object \<Rightarrow> string" where
  "serialize_object ob = serialize (JObj ob)"

definition ok_reply :: "MsgType \<Rightarrow> string \<Rightarrow> string" where
  "ok_reply t msg = serialize_object (obj_sets []
     [(''type'', JInt (toInt t)),
      (''status'', JString ''ok''),
      (''msg'', JString msg)])"

definition error_reply :: "MsgType \<Rightarrow> int \<Rightarrow> string \<Rightarrow> string" where
  "error_reply t code msg = serialize_object (obj_sets []
     [(''type'', JInt (toInt t)),
      (''status'', JString ''error''),
      (''code'', JInt code),
      (''msg'', JString msg)])"

section \<open>Facts\<close>

lemma in_int32_intField: "in_int32 fallback \<Longrightarrow> in_int32 (intField ob key fallback)"
  by (auto simp: intField_def split: option.split)

lemma parseObject_wf: "parseObject json = Some ob \<Longrightarrow> wf_object ob"
  using parse_wf_json [of json]
  by (auto simp: parseObject_def wf_object_def is_object_def as_obj_def
      split: sum.splits if_splits json.splits)

lemma parseObject_serialize:
  "wf_json (JObj ob) \<Longrightarrow> float_free (JObj ob) \<Longrightarrow> parseObject (serialize_object ob) = Some ob"
  using parse_serialize [of "JObj ob"]
  by (simp add: parseObject_def serialize_object_def is_object_def as_obj_def
      del: serialize.simps wf_JObj float_free_JObj)

lemma obj_find_sets [simp]:
  "obj_find (obj_sets ob []) = obj_find ob"
  "obj_find (obj_sets ob ((k, v) # kvs)) = obj_find (obj_sets (obj_set k v ob) kvs)"
  by (simp_all add: obj_sets_def)

lemma obj_sets_wf:
  "wf_object ob \<Longrightarrow> (\<forall>(k, v) \<in> set kvs. wf_json v) \<Longrightarrow> wf_object (obj_sets ob kvs)"
  by (induction kvs arbitrary: ob) (auto simp: obj_sets_def wf_object_set)

definition float_free_object :: "object \<Rightarrow> bool" where
  "float_free_object ob \<longleftrightarrow> float_free (JObj ob)"

lemma float_free_object_set:
  "float_free_object ob \<Longrightarrow> float_free v \<Longrightarrow> float_free_object (obj_set k v ob)"
  unfolding float_free_object_def using set_obj_set [of k v ob] by auto

lemma obj_sets_float_free:
  "float_free_object ob \<Longrightarrow> (\<forall>(k, v) \<in> set kvs. float_free v) \<Longrightarrow> float_free_object (obj_sets ob kvs)"
  by (induction kvs arbitrary: ob) (auto simp: obj_sets_def float_free_object_set)

lemma in_int64_toInt [simp]: "in_int64 (toInt t)"
  using toInt_range [of t] by (simp add: in_int64_def)

text \<open>A client that parses a reply finds the fields the server put there.\<close>

lemma parse_reply:
  assumes "\<forall>(k, v) \<in> set kvs. wf_json v \<and> float_free v"
  shows "parseObject (serialize_object (obj_sets [] kvs)) = Some (obj_sets [] kvs)"
proof (rule parseObject_serialize)
  have "wf_object (obj_sets [] kvs)" by (rule obj_sets_wf) (use assms in auto)
  then show "wf_json (JObj (obj_sets [] kvs))" by (simp only: wf_object_def)
  have "float_free_object (obj_sets [] kvs)"
    by (rule obj_sets_float_free) (use assms in \<open>auto simp: float_free_object_def\<close>)
  then show "float_free (JObj (obj_sets [] kvs))" by (simp only: float_free_object_def)
qed

lemma parse_ok_reply:
  "parseObject (ok_reply t msg) = Some (obj_sets []
     [(''type'', JInt (toInt t)), (''status'', JString ''ok''), (''msg'', JString msg)])"
  unfolding ok_reply_def by (rule parse_reply) simp

lemma parse_error_reply:
  "in_int64 code \<Longrightarrow> parseObject (error_reply t code msg) = Some (obj_sets []
     [(''type'', JInt (toInt t)), (''status'', JString ''error''), (''code'', JInt code),
      (''msg'', JString msg)])"
  unfolding error_reply_def by (rule parse_reply) simp

lemma typeField_error_reply:
  "in_int64 code \<Longrightarrow> parseObject (error_reply t code msg) = Some ob \<Longrightarrow> typeField ob = t"
  using toInt_range [of t]
  by (auto simp: parse_error_reply typeField_def intField_def field_TYPE_def is_number_def
      as_int_def in_int32_def obj_find_def obj_sets_def)

section \<open>Properties\<close>

text \<open>The standard replies reach the client as they are meant: parsing one gives an object with
  the type, status, code and text the server wrote, whatever bytes the text contains.\<close>

theorem replies_readable:
  "(\<exists>ob. parseObject (ok_reply t msg) = Some ob \<and> typeField ob = t \<and>
      stringField ob ''status'' [] = ''ok'' \<and> stringField ob ''msg'' [] = msg) \<and>
   (in_int32 code \<longrightarrow> (\<exists>ob. parseObject (error_reply t code msg) = Some ob \<and> typeField ob = t \<and>
      stringField ob ''status'' [] = ''error'' \<and> intField ob ''code'' 0 = code \<and>
      stringField ob ''msg'' [] = msg))"
  using toInt_range [of t] in_int32_int64 [of code]
  by (auto simp: parse_ok_reply parse_error_reply typeField_def intField_def stringField_def
      field_TYPE_def is_number_def is_string_def as_int_def as_string_def in_int32_def
      obj_find_def obj_sets_def)

theorem replies_readable_witness:
  "\<exists>ob. parseObject (error_reply LoginFailedReturn 401 ''invalid credentials'') = Some ob \<and>
     typeField ob = LoginFailedReturn \<and> stringField ob ''status'' [] = ''error'' \<and>
     intField ob ''code'' 0 = 401 \<and> stringField ob ''msg'' [] = ''invalid credentials''"
  using replies_readable [of LoginFailedReturn "''invalid credentials''" 401]
  by (simp add: in_int32_def)

text \<open>A request whose type is written with a decimal point is taken for a registration, whatever
  number it holds: a floating point value counts as a number, and its integer reading is zero.\<close>

theorem float_type_is_register:
  "obj_find ob ''type'' = Some (JFloat d) \<Longrightarrow> typeField ob = RegisterUser"
  by (simp add: typeField_def intField_def field_TYPE_def is_number_def as_int_def in_int32_def
      fromInt_def msg_types_def)

theorem float_type_is_register_witness:
  "parseObject (CHR ''{'' # CHR 0x22 # ''type'' @ CHR 0x22 # '':23.0}'')
     = Some [(''type'', JFloat (Dbl False (23 * 2 ^ 48) (- 48)))] \<and>
   typeField [(''type'', JFloat (Dbl False (23 * 2 ^ 48) (- 48)))] = RegisterUser"
proof
  show "typeField [(''type'', JFloat (Dbl False (23 * 2 ^ 48) (- 48)))] = RegisterUser"
    by (rule float_type_is_register) (simp add: obj_find_def)
qed code_simp

end
