(* ===== verification/Database.thy ===== *)
theory Database
  imports Json Sqlite
begin

text \<open>
  The table store: \<^verbatim>\<open>src/server/src/db/Database.cpp\<close> and \<^verbatim>\<open>Database.h\<close>. A table is a list of rows,
  each a JSON object; \<open>tables_\<close> (here \<open>tables\<close>) caches the tables that have been loaded, and every change writes the
  whole table back to SQLite.

  The record also counts the readings of the clocks and of the random generator, which are not
  members of the class: the operating system's state is threaded with the database.

  Shown here: how the operations change the cached rows, and that a table that is read back from
  SQLite after a change holds the rows the change left.
\<close>

type_synonym row = object

record 'db database =
  data_dir :: string
  db_handle :: "'db option"
  tables :: "string \<Rightarrow> row list option"
  ticks :: nat
  rnds :: nat

section \<open>The engine, the clock and the random bytes\<close>

text \<open>A call on a null handle is refused by SQLite (\<open>SQLITE_MISUSE\<close>).\<close>

definition sqlite3_exec :: "'db env \<Rightarrow> string \<Rightarrow> ('db database, bool) prog" where
  "sqlite3_exec E sql d =
     (case db_handle d of
        None \<Rightarrow> (Inr False, d)
      | Some h \<Rightarrow> (case sq_exec (sqlite E) sql h of (b, h') \<Rightarrow> (Inr b, d\<lparr>db_handle := Some h'\<rparr>)))"

definition sqlite3_select ::
  "'db env \<Rightarrow> string \<Rightarrow> sqlval list \<Rightarrow> ('db database, sqlval list list option) prog" where
  "sqlite3_select E sql ps d =
     (case db_handle d of
        None \<Rightarrow> (Inr None, d)
      | Some h \<Rightarrow> (Inr (sq_select (sqlite E) sql ps h), d))"

definition sqlite3_run ::
  "'db env \<Rightarrow> string \<Rightarrow> sqlval list \<Rightarrow> ('db database, (bool \<times> nat) option) prog" where
  "sqlite3_run E sql ps d =
     (case db_handle d of
        None \<Rightarrow> (Inr None, d)
      | Some h \<Rightarrow>
          (case sq_run (sqlite E) sql ps h of
             None \<Rightarrow> (Inr None, d)
           | Some (b, n, h') \<Rightarrow> (Inr (Some (b, n)), d\<lparr>db_handle := Some h'\<rparr>)))"

definition nowSeconds :: "'db env \<Rightarrow> ('db database, int) prog" where
  "nowSeconds E d = (Inr (to_int64 (clock E (ticks d))), d\<lparr>ticks := Suc (ticks d)\<rparr>)"

definition random_block :: "'db env \<Rightarrow> ('db database, string) prog" where
  "random_block E d = (Inr (entropy E (rnds d)), d\<lparr>rnds := Suc (rnds d)\<rparr>)"

section \<open>Tables\<close>

definition isIdentifier :: "string \<Rightarrow> bool" where
  "isIdentifier value \<longleftrightarrow> value \<noteq> [] \<and>
     list_all (\<lambda>c. isdigit c \<or> 65 \<le> (of_char c :: int) \<and> (of_char c :: int) \<le> 90 \<or>
        97 \<le> (of_char c :: int) \<and> (of_char c :: int) \<le> 122 \<or> c = CHR ''_'') value"

definition execSql :: "'db env \<Rightarrow> string \<Rightarrow> ('db database, bool) prog" where
  "execSql E sql = sqlite3_exec E sql"

definition tableExists :: "'db env \<Rightarrow> string \<Rightarrow> ('db database, bool) prog" where
  "tableExists E name =
     bindP (sqlite3_select E master_sql [SqlText (c_str name)]) (\<lambda>r.
       returnP (case r of None \<Rightarrow> False | Some rows \<Rightarrow> rows \<noteq> []))"

definition ensureTable :: "'db env \<Rightarrow> string \<Rightarrow> ('db database, unit) prog" where
  "ensureTable E name =
     bindP (tableExists E name) (\<lambda>e.
       if e then returnP ()
       else bindP (sqlite3_exec E (create_sql name)) (\<lambda>_. returnP ()))"

definition createIndex :: "'db env \<Rightarrow> string \<Rightarrow> string \<Rightarrow> string \<Rightarrow> ('db database, unit) prog" where
  "createIndex E table indexName expression =
     (if \<not> isIdentifier table \<or> \<not> isIdentifier indexName \<or> expression = [] then returnP ()
      else bindP (execSql E (index_sql table indexName expression)) (\<lambda>_. returnP ()))"

text \<open>The rows that the loop of \<open>loadTable\<close> reads: the text up to a NUL, parsed.\<close>

definition column_text :: "sqlval \<Rightarrow> string" where
  "column_text v = c_str (case v of SqlText s \<Rightarrow> s | SqlInt i \<Rightarrow> to_string i)"

fun load_rows :: "sqlval list list \<Rightarrow> row list \<Rightarrow> exn + row list" where
  "load_rows [] rows = Inr rows"
| "load_rows (r # rs) rows =
     (let text = (case r of [] \<Rightarrow> [] | v # _ \<Rightarrow> column_text v)
      in if text = [] then load_rows rs rows
         else bindE (parse text) (\<lambda>val.
                load_rows rs (if is_object val then rows @ [as_obj val] else rows)))"

definition loadTable :: "'db env \<Rightarrow> string \<Rightarrow> ('db database, bool) prog" where
  "loadTable E name =
     bindP (getP (\<lambda>d. tables d name)) (\<lambda>t.
       if t \<noteq> None then returnP True
       else bindP (sqlite3_select E (select_sql name) []) (\<lambda>r.
         case r of
           None \<Rightarrow> thenP (modifyP (\<lambda>d. d\<lparr>tables := (tables d)(name \<mapsto> [])\<rparr>)) (returnP True)
         | Some rs \<Rightarrow>
             bindP (liftP (load_rows rs [])) (\<lambda>rows.
               thenP (modifyP (\<lambda>d. d\<lparr>tables := (tables d)(name \<mapsto> rows)\<rparr>)) (returnP True))))"

definition saveTable :: "'db env \<Rightarrow> string \<Rightarrow> ('db database, unit) prog" where
  "saveTable E name =
     bindP (getP (\<lambda>d. tables d name)) (\<lambda>t.
       case t of
         None \<Rightarrow> returnP ()
       | Some rows \<Rightarrow>
           thenP (sqlite3_exec E begin_sql) (
           bindP (sqlite3_exec E (delete_sql name)) (\<lambda>ok.
             if \<not> ok then bindP (sqlite3_exec E rollback_sql) (\<lambda>_. returnP ())
             else
               thenP (forP rows (\<lambda>row.
                 bindP (sqlite3_run E (insert_sql name) [SqlText (serialize (JObj row))])
                   (\<lambda>_. returnP ())))
               (bindP (sqlite3_exec E commit_sql) (\<lambda>_. returnP ())))))"

text \<open>\<open>tables_[name]\<close>, which is empty for a table that is not there\<close>

definition cached :: "string \<Rightarrow> 'db database \<Rightarrow> row list" where
  "cached name d = (case tables d name of None \<Rightarrow> [] | Some rows \<Rightarrow> rows)"

text \<open>A predicate of the callers may throw, as \<open>row.at(key)\<close> does; the loop then stops there.\<close>

fun filterE :: "(row \<Rightarrow> exn + bool) \<Rightarrow> row list \<Rightarrow> exn + row list" where
  "filterE p [] = Inr []"
| "filterE p (r # rs) =
     bindE (p r) (\<lambda>b. bindE (filterE p rs) (\<lambda>rs'. Inr (if b then r # rs' else rs')))"

definition db_query :: "'db env \<Rightarrow> string \<Rightarrow> (row \<Rightarrow> exn + bool) \<Rightarrow> ('db database, row list) prog" where
  "db_query E name predicate =
     thenP (loadTable E name)
       (bindP (getP (cached name)) (\<lambda>rows. liftP (filterE predicate rows)))"

definition db_query_all :: "'db env \<Rightarrow> string \<Rightarrow> ('db database, row list) prog" where
  "db_query_all E name = thenP (loadTable E name) (getP (cached name))"

definition db_insert :: "'db env \<Rightarrow> string \<Rightarrow> row \<Rightarrow> ('db database, unit) prog" where
  "db_insert E name row =
     thenP (loadTable E name)
    (thenP (modifyP (\<lambda>d. d\<lparr>tables := (tables d)(name \<mapsto> cached name d @ [row])\<rparr>))
           (saveTable E name))"

text \<open>
  An updater may read the clock, so it takes and returns the number of readings. The result says
  whether a predicate threw, the rows as the loop left them, the readings, and whether the updater
  was called, which is what the callers' \<open>updated\<close> and \<open>found\<close> flags record.
\<close>

fun update_rows ::
  "(row \<Rightarrow> exn + bool) \<Rightarrow> (row \<Rightarrow> nat \<Rightarrow> row \<times> nat) \<Rightarrow> row list \<Rightarrow> nat \<Rightarrow> exn option \<times> row list \<times> nat \<times> bool"
where
  "update_rows p u [] k = (None, [], k, False)"
| "update_rows p u (r # rs) k =
     (case p r of
        Inl e \<Rightarrow> (Some e, r # rs, k, False)
      | Inr b \<Rightarrow>
          let (r', k') = (if b then u r k else (r, k));
              (e, rs', k'', f) = update_rows p u rs k'
          in (e, r' # rs', k'', b \<or> f))"

definition db_update ::
  "'db env \<Rightarrow> string \<Rightarrow> (row \<Rightarrow> exn + bool) \<Rightarrow> (row \<Rightarrow> nat \<Rightarrow> row \<times> nat) \<Rightarrow> ('db database, bool) prog" where
  "db_update E name predicate updater =
     thenP (loadTable E name) (\<lambda>d.
       case update_rows predicate updater (cached name d) (ticks d) of
         (Some e, rows, k, _) \<Rightarrow> (Inl e, d\<lparr>tables := (tables d)(name \<mapsto> rows), ticks := k\<rparr>)
       | (None, rows, k, called) \<Rightarrow>
           thenP (saveTable E name) (returnP called)
             (d\<lparr>tables := (tables d)(name \<mapsto> rows), ticks := k\<rparr>))"

definition db_remove :: "'db env \<Rightarrow> string \<Rightarrow> (row \<Rightarrow> bool) \<Rightarrow> ('db database, bool) prog" where
  "db_remove E name predicate =
     thenP (loadTable E name)
    (bindP (getP (\<lambda>d. list_ex predicate (cached name d))) (\<lambda>removed.
     thenP (modifyP (\<lambda>d. d\<lparr>tables := (tables d)(name \<mapsto> filter (\<lambda>r. \<not> predicate r) (cached name d))\<rparr>))
    (thenP (saveTable E name) (returnP removed))))"

section \<open>Lifecycle and schema\<close>

definition new_database :: "string \<Rightarrow> 'db database" where
  "new_database dataDir =
     \<lparr>data_dir = dataDir, db_handle = None, tables = Map.empty, ticks = 0, rnds = 0\<rparr>"

definition schemaVersion :: "'db env \<Rightarrow> ('db database, int) prog" where
  "schemaVersion E =
     bindP (db_query_all E ''schema_version'') (\<lambda>rows.
       case rows of
         [] \<Rightarrow> returnP 0
       | r # _ \<Rightarrow> bindP (liftP (obj_at r ''version'')) (\<lambda>v. returnP (to_int32 (as_int v))))"

definition setSchemaVersion :: "'db env \<Rightarrow> int \<Rightarrow> ('db database, unit) prog" where
  "setSchemaVersion E version =
     bindP (db_query_all E ''schema_version'') (\<lambda>rows.
       if rows = [] then db_insert E ''schema_version'' (obj_set ''version'' (JInt version) [])
       else bindP (db_update E ''schema_version'' (\<lambda>_. Inr True)
              (\<lambda>r k. (obj_set ''version'' (JInt version) r, k))) (\<lambda>_. returnP ()))"

definition db_open :: "'db env \<Rightarrow> ('db database, bool) prog" where
  "db_open E =
     bindP (\<lambda>d. case sq_open (sqlite E) (data_dir d @ ''/lanchat.db'') of
                  (ok, h) \<Rightarrow> (Inr ok, d\<lparr>db_handle := Some h\<rparr>)) (\<lambda>ok.
       if \<not> ok then returnP False
       else
         thenP (sqlite3_exec E wal_sql) (
         thenP (sqlite3_exec E fk_sql) (
         bindP (tableExists E ''schema_version'') (\<lambda>e.
         thenP (whenP (\<not> e)
           (thenP (ensureTable E ''schema_version'')
             (db_insert E ''schema_version'' (obj_set ''version'' (JInt 0) []))))
         (bindP (schemaVersion E) (\<lambda>_. returnP True))))))"

definition db_close :: "('db database, unit) prog" where
  "db_close = modifyP (\<lambda>d. d\<lparr>tables := Map.empty, db_handle := None\<rparr>)"

definition createFriendshipsTable :: "'db env \<Rightarrow> ('db database, unit) prog" where
  "createFriendshipsTable E =
     thenP (execSql E friendships_sql) (
     thenP (execSql E idx_fs_from_sql) (
     thenP (execSql E idx_fs_to_sql) (
     bindP (execSql E idx_fs_both_sql) (\<lambda>_. returnP ()))))"

definition json_path :: "string \<Rightarrow> string" where
  "json_path field = ''json_extract(data, '' @ [CHR 0x27] @ ''$.'' @ field @ [CHR 0x27] @ '')''"

definition migrate_v0 :: "'db env \<Rightarrow> ('db database, unit) prog" where
  "migrate_v0 E =
     thenP (forP [''users'', ''messages'', ''groups'', ''group_members''] (ensureTable E)) (
     thenP (forP [(''users'', ''idx_users_id'', ''id''),
                  (''users'', ''idx_users_nickname'', ''nickname''),
                  (''messages'', ''idx_messages_from_id'', ''from_id''),
                  (''messages'', ''idx_messages_to_id'', ''to_id''),
                  (''messages'', ''idx_messages_group_id'', ''group_id''),
                  (''messages'', ''idx_messages_timestamp'', ''timestamp''),
                  (''groups'', ''idx_groups_group_id'', ''group_id''),
                  (''group_members'', ''idx_gm_user_id'', ''user_id''),
                  (''group_members'', ''idx_gm_group_id'', ''group_id'')]
            (\<lambda>(table, idx, field). createIndex E table idx (json_path field))) (
     thenP (createFriendshipsTable E)
           (setSchemaVersion E 1)))"

text \<open>The loop of \<open>migrate\<close> raises the version by one in each of its \<open>n\<close> rounds.\<close>

primrec migrate_loop :: "'db env \<Rightarrow> nat \<Rightarrow> int \<Rightarrow> ('db database, unit) prog" where
  "migrate_loop E 0 current = returnP ()"
| "migrate_loop E (Suc n) current =
     thenP (if current = 0 then migrate_v0 E else setSchemaVersion E (current + 1))
       (migrate_loop E n (current + 1))"

definition migrate :: "'db env \<Rightarrow> int \<Rightarrow> ('db database, bool) prog" where
  "migrate E targetVersion =
     bindP (schemaVersion E) (\<lambda>current.
       if targetVersion < current then returnP False
       else thenP (migrate_loop E (nat (targetVersion - current)) current) (returnP True))"

section \<open>What the operations do to the rows\<close>

text \<open>The rows a table has for its users: the cached ones, or else those that loading it gives.\<close>

definition rows_of :: "'db env \<Rightarrow> string \<Rightarrow> 'db database \<Rightarrow> exn + row list" where
  "rows_of E name d =
     (case tables d name of
        Some rows \<Rightarrow> Inr rows
      | None \<Rightarrow>
          (case db_handle d of
             None \<Rightarrow> Inr []
           | Some h \<Rightarrow>
               (case sq_select (sqlite E) (select_sql name) [] h of
                  None \<Rightarrow> Inr []
                | Some rs \<Rightarrow> load_rows rs [])))"

definition set_rows :: "string \<Rightarrow> row list \<Rightarrow> 'db database \<Rightarrow> 'db database" where
  "set_rows name rows d = d\<lparr>tables := (tables d)(name \<mapsto> rows)\<rparr>"

definition saved :: "'db env \<Rightarrow> string \<Rightarrow> 'db database \<Rightarrow> 'db database" where
  "saved E name d = snd (saveTable E name d)"

lemma loadTable_run:
  "loadTable E name d =
     (case rows_of E name d of Inl e \<Rightarrow> (Inl e, d) | Inr rows \<Rightarrow> (Inr True, set_rows name rows d))"
  by (auto simp: loadTable_def rows_of_def set_rows_def sqlite3_select_def prog_simps fun_upd_idem
      split: option.split sum.split)

text \<open>Programs that change nothing but the connection.\<close>

definition handle_only :: "'db database \<Rightarrow> 'db database \<Rightarrow> bool" where
  "handle_only d d' \<longleftrightarrow> d' = d\<lparr>db_handle := db_handle d'\<rparr>"

lemma handle_only_iff:
  "handle_only d d' \<longleftrightarrow> data_dir d' = data_dir d \<and> tables d' = tables d \<and> ticks d' = ticks d \<and>
     rnds d' = rnds d \<and> database.more d' = database.more d"
  unfolding handle_only_def by (cases d; cases d') simp

interpretation handle_step: step_relation handle_only
  by unfold_locales (auto simp: handle_only_iff)

lemma keeps_handle_exec: "keeps handle_only (sqlite3_exec E q)"
  by (rule keepsI) (auto simp: handle_only_def sqlite3_exec_def split: option.split prod.split)

lemma keeps_handle_run: "keeps handle_only (sqlite3_run E q ps)"
  by (rule keepsI) (auto simp: handle_only_def sqlite3_run_def split: option.split prod.split)

lemma keeps_handle_save: "keeps handle_only (saveTable E name)"
  unfolding saveTable_def
  by (intro handle_step.keeps_rules keeps_handle_exec keeps_handle_run)

lemma saved_fields [simp]:
  "tables (saved E name d) = tables d" "ticks (saved E name d) = ticks d"
  "rnds (saved E name d) = rnds d" "data_dir (saved E name d) = data_dir d"
  using keepsD [OF keeps_handle_save, of d E name] unfolding handle_only_def saved_def
  by (metis database.select_convs database.surjective database.update_convs(2))+

lemma sqlite3_exec_returns: "\<exists>b d'. sqlite3_exec E q d = (Inr b, d')"
  by (auto simp: sqlite3_exec_def split: option.split prod.split)

lemma forP_returns: "(\<And>x d. \<exists>d'. f x d = (Inr (), d')) \<Longrightarrow> \<exists>d'. forP xs f d = (Inr (), d')"
proof (induction xs arbitrary: d)
  case (Cons x xs)
  obtain d1 where "f x d = (Inr (), d1)" using Cons.prems by blast
  with Cons show ?case by (simp add: prog_simps)
qed (simp add: prog_simps)

lemma saveTable_returns: "\<exists>d'. saveTable E name d = (Inr (), d')"
proof (cases "tables d name")
  case (Some rows)
  let ?body = "\<lambda>row. bindP (sqlite3_run E (insert_sql name) [SqlText (serialize (JObj row))])
    (\<lambda>_. returnP ())"
  have body: "\<exists>d'. ?body row d = (Inr (), d')" for row d
    by (auto simp: sqlite3_run_def prog_simps split: option.split prod.split)
  obtain b1 d1 where 1: "sqlite3_exec E begin_sql d = (Inr b1, d1)"
    using sqlite3_exec_returns by blast
  obtain b2 d2 where 2: "sqlite3_exec E (delete_sql name) d1 = (Inr b2, d2)"
    using sqlite3_exec_returns by blast
  obtain b3 d3 where 3: "sqlite3_exec E rollback_sql d2 = (Inr b3, d3)"
    using sqlite3_exec_returns by blast
  obtain d4 where 4: "forP rows ?body d2 = (Inr (), d4)"
    using forP_returns [of ?body] body by blast
  obtain b5 d5 where 5: "sqlite3_exec E commit_sql d4 = (Inr b5, d5)"
    using sqlite3_exec_returns by blast
  show ?thesis
    using Some 1 2 3 4 5 by (simp add: saveTable_def prog_simps)
qed (simp add: saveTable_def prog_simps)

lemma saveTable_run: "saveTable E name d = (Inr (), saved E name d)"
  using saveTable_returns [of E name d] by (auto simp: saved_def)

lemma cached_set_rows [simp]: "cached name (set_rows name rows d) = rows"
  by (simp add: cached_def set_rows_def)

lemma set_rows_fields [simp]:
  "db_handle (set_rows name rows d) = db_handle d" "ticks (set_rows name rows d) = ticks d"
  "rnds (set_rows name rows d) = rnds d" "data_dir (set_rows name rows d) = data_dir d"
  "tables (set_rows name rows d) = (tables d)(name \<mapsto> rows)"
  by (simp_all add: set_rows_def)

lemma rows_of_set_rows [simp]: "rows_of E name (set_rows name rows d) = Inr rows"
  by (simp add: rows_of_def)

lemma rows_of_saved [simp]: "tables d name \<noteq> None \<Longrightarrow> rows_of E name (saved E t d) = rows_of E name d"
  by (auto simp: rows_of_def)

lemma rows_of_counts [simp]:
  "rows_of E n (d\<lparr>ticks := k\<rparr>) = rows_of E n d" "rows_of E n (d\<lparr>rnds := k\<rparr>) = rows_of E n d"
  by (simp_all add: rows_of_def split: option.split)

lemma rows_of_save [simp]:
  "rows_of E n (saved E n (set_rows n rows d)) = Inr rows"
  "rows_of E n (saved E n ((set_rows n rows d)\<lparr>ticks := k\<rparr>)) = Inr rows"
  by (simp_all add: rows_of_def)

lemma db_query_run:
  "db_query E name p d =
     (case rows_of E name d of
        Inl e \<Rightarrow> (Inl e, d)
      | Inr rows \<Rightarrow> (filterE p rows, set_rows name rows d))"
  by (auto simp: db_query_def loadTable_run prog_simps split: sum.split)

lemma db_query_all_run:
  "db_query_all E name d =
     (case rows_of E name d of
        Inl e \<Rightarrow> (Inl e, d)
      | Inr rows \<Rightarrow> (Inr rows, set_rows name rows d))"
  by (auto simp: db_query_all_def loadTable_run prog_simps split: sum.split)

lemma set_rows_set_rows [simp]: "set_rows name rows' (set_rows name rows d) = set_rows name rows' d"
  by (simp add: set_rows_def)

lemma db_insert_run:
  "db_insert E name row d =
     (case rows_of E name d of
        Inl e \<Rightarrow> (Inl e, d)
      | Inr rows \<Rightarrow> (Inr (), saved E name (set_rows name (rows @ [row]) d)))"
  by (auto simp: db_insert_def loadTable_run saveTable_run prog_simps set_rows_def [symmetric]
      split: sum.split)

lemma db_remove_run:
  "db_remove E name p d =
     (case rows_of E name d of
        Inl e \<Rightarrow> (Inl e, d)
      | Inr rows \<Rightarrow> (Inr (list_ex p rows), saved E name (set_rows name (filter (\<lambda>r. \<not> p r) rows) d)))"
  by (auto simp: db_remove_def loadTable_run saveTable_run prog_simps set_rows_def [symmetric]
      split: sum.split)

lemma db_update_run:
  "db_update E name p u d =
     (case rows_of E name d of
        Inl e \<Rightarrow> (Inl e, d)
      | Inr rows \<Rightarrow>
          (case update_rows p u rows (ticks d) of
             (Some e, rows', k, _) \<Rightarrow> (Inl e, (set_rows name rows' d)\<lparr>ticks := k\<rparr>)
           | (None, rows', k, called) \<Rightarrow>
               (Inr called, saved E name ((set_rows name rows' d)\<lparr>ticks := k\<rparr>))))"
  by (auto simp: db_update_def loadTable_run saveTable_run prog_simps set_rows_def cached_def
      split: sum.split prod.split option.split)

text \<open>With a predicate that does not throw, and an updater that does not read the clock.\<close>

lemma filterE_pure [simp]: "filterE (\<lambda>r. Inr (p r)) rows = Inr (filter p rows)"
  by (induction rows) auto

lemma update_rows_pure:
  "update_rows (\<lambda>r. Inr (p r)) (\<lambda>r k. (u r, k)) rows k =
     (None, map (\<lambda>r. if p r then u r else r) rows, k, list_ex p rows)"
  by (induction rows) auto

text \<open>An updater that reads the clock once per row: the rows after the update, in order.\<close>

lemma update_rows_clock:
  "\<exists>ts k'. length ts = length rows \<and>
     update_rows (\<lambda>r. Inr (p r)) (\<lambda>r k. (u (c k) r, Suc k)) rows k =
       (None, map2 (\<lambda>t r. if p r then u t r else r) ts rows, k', list_ex p rows)"
proof (induction rows arbitrary: k)
  case (Cons r rows)
  obtain ts k' where ts: "length ts = length rows"
    "update_rows (\<lambda>r. Inr (p r)) (\<lambda>r k. (u (c k) r, Suc k)) rows (if p r then Suc k else k) =
       (None, map2 (\<lambda>t r. if p r then u t r else r) ts rows, k', list_ex p rows)"
    using Cons.IH by blast
  then show ?case
    by (intro exI [of _ "c k # ts"] exI [of _ k']) (auto split: if_splits)
qed simp

section \<open>The interface that the repositories use\<close>

text \<open>
  A repository sees a store of named tables: it queries the rows of a table with a predicate, adds
  a row at the end, changes the rows that match and drops rows. The laws speak of tables that are
  loaded; the lemmas below follow for every such store.
\<close>

locale row_store =
  fixes tab :: "'s \<Rightarrow> string \<Rightarrow> row list option"
    and qry :: "string \<Rightarrow> (row \<Rightarrow> exn + bool) \<Rightarrow> ('s, row list) prog"
    and ins :: "string \<Rightarrow> row \<Rightarrow> ('s, unit) prog"
    and upd :: "string \<Rightarrow> (row \<Rightarrow> exn + bool) \<Rightarrow> (row \<Rightarrow> nat \<Rightarrow> row \<times> nat) \<Rightarrow> ('s, bool) prog"
    and del :: "string \<Rightarrow> (row \<Rightarrow> bool) \<Rightarrow> ('s, bool) prog"
  assumes qry: "tab s n = Some rows \<Longrightarrow> qry n p s = (filterE p rows, s)"
    and ins: "tab s n = Some rows \<Longrightarrow> \<exists>s'. ins n r s = (Inr (), s') \<and> tab s' = (tab s)(n \<mapsto> rows @ [r])"
    and upd: "tab s n = Some rows \<Longrightarrow>
       \<exists>s'. upd n (\<lambda>r. Inr (m r)) (\<lambda>r k. (u r, k)) s = (Inr (list_ex m rows), s') \<and>
         tab s' = (tab s)(n \<mapsto> map (\<lambda>r. if m r then u r else r) rows)"
    and del: "tab s n = Some rows \<Longrightarrow>
       \<exists>s'. del n m s = (Inr (list_ex m rows), s') \<and>
         tab s' = (tab s)(n \<mapsto> filter (\<lambda>r. \<not> m r) rows)"
begin

lemma qry_pure: "tab s n = Some rows \<Longrightarrow> qry n (\<lambda>r. Inr (p r)) s = (Inr (filter p rows), s)"
  by (simp add: qry)

lemma qry_after_ins:
  "tab s n = Some rows \<Longrightarrow>
     thenP (ins n r) (qry n (\<lambda>r. Inr (p r))) s =
       (Inr (filter p rows @ (if p r then [r] else [])), snd (ins n r s))"
  using ins [of s n rows r] by (auto simp: thenP_run qry)

lemma qry_after_del:
  "tab s n = Some rows \<Longrightarrow>
     thenP (del n m) (qry n (\<lambda>r. Inr (p r))) s =
       (Inr (filter (\<lambda>r. p r \<and> \<not> m r) rows), snd (del n m s))"
  using del [of s n rows m] by (auto simp: thenP_run qry conj_commute)

lemma qry_after_upd:
  "tab s n = Some rows \<Longrightarrow>
     thenP (upd n (\<lambda>r. Inr (m r)) (\<lambda>r k. (u r, k))) (qry n (\<lambda>r. Inr (p r))) s =
       (Inr (filter p (map (\<lambda>r. if m r then u r else r) rows)),
        snd (upd n (\<lambda>r. Inr (m r)) (\<lambda>r k. (u r, k)) s))"
  using upd [of s n rows m u] by (auto simp: thenP_run qry)

lemma del_twice:
  assumes "tab s n = Some rows"
  shows "fst (thenP (del n m) (del n m) s) = Inr False"
proof -
  obtain s' where s': "del n m s = (Inr (list_ex m rows), s')"
    "tab s' n = Some (filter (\<lambda>r. \<not> m r) rows)"
    using del [OF assms, of m] by auto
  then show ?thesis
    using del [of s' n "filter (\<lambda>r. \<not> m r) rows" m] by (auto simp: thenP_run list_ex_iff)
qed

end

lemma set_rows_id: "tables d n = Some rows \<Longrightarrow> set_rows n rows d = d"
  by (simp add: set_rows_def fun_upd_idem)

lemma rows_of_loaded [simp]: "tables d n = Some rows \<Longrightarrow> rows_of E n d = Inr rows"
  by (simp add: rows_of_def)

interpretation db_store:
  row_store tables "db_query E" "db_insert E" "db_update E" "db_remove E" for E
  by unfold_locales
     (simp_all add: db_query_run db_insert_run db_update_run db_remove_run set_rows_id
        update_rows_pure)

section \<open>What is read back\<close>

text \<open>
  A row that SQLite gives back as it was stored: it holds no floating point number, which is
  written with six decimals, and no NUL, at which the reading stops.
\<close>

primrec nul_free :: "json \<Rightarrow> bool" where
  "nul_free JNull = True"
| "nul_free (JBool b) = True"
| "nul_free (JInt i) = True"
| "nul_free (JFloat d) = True"
| "nul_free (JString s) = (NUL \<notin> set s)"
| "nul_free (JArr xs) = list_all id (map nul_free xs)"
| "nul_free (JObj kvs) = list_all (\<lambda>(k, b). NUL \<notin> set k \<and> b) (map (map_prod id nul_free) kvs)"

lemma nul_free_JArr [simp]: "nul_free (JArr xs) \<longleftrightarrow> (\<forall>x \<in> set xs. nul_free x)"
  by (auto simp: list_all_iff)

lemma nul_free_JObj [simp]:
  "nul_free (JObj kvs) \<longleftrightarrow> (\<forall>(k, v) \<in> set kvs. NUL \<notin> set k \<and> nul_free v)"
  by (auto simp: list_all_iff)

declare nul_free.simps(6,7) [simp del]

lemma NUL_neq: "NUL \<noteq> CHR 0x22" "NUL \<noteq> CHR 0x2C" "NUL \<noteq> CHR 0x3A" "NUL \<noteq> CHR 0x5B" "NUL \<noteq> CHR 0x5D"
  "NUL \<noteq> CHR 0x7B" "NUL \<noteq> CHR 0x7D"
  "NUL \<noteq> CHR ''u''" "NUL \<noteq> CHR ''l''" "NUL \<noteq> CHR ''r''" "NUL \<noteq> CHR ''e''" "NUL \<noteq> CHR ''a''" "NUL \<noteq> CHR ''s''"
  by (simp_all add: NUL_def)

definition row_text :: "row \<Rightarrow> string" where
  "row_text r = serialize (JObj r)"

definition storable :: "row \<Rightarrow> bool" where
  "storable r \<longleftrightarrow> wf_json (JObj r) \<and> float_free (JObj r) \<and> nul_free (JObj r)"

lemma NUL_escape: "NUL \<in> set (escape c) \<longleftrightarrow> c = NUL"
  by (auto simp: escape_def NUL_def)

lemma NUL_serialize_string [simp]: "NUL \<in> set (serialize_string s) \<longleftrightarrow> NUL \<in> set s"
  by (auto simp: serialize_string_def NUL_escape)

lemma NUL_to_string: "NUL \<notin> set (to_string i)"
proof -
  have "NUL \<notin> set (digits n)" if "0 \<le> n" for n
    using digits_props [OF that] by (auto simp: list_all_iff isdigit_def NUL_def)
  then show ?thesis by (auto simp: to_string_def NUL_def)
qed

lemma NUL_serialize:
  "nul_free v \<Longrightarrow> float_free v \<Longrightarrow> NUL \<notin> set (serialize v)"
  "list_all nul_free xs \<Longrightarrow> list_all float_free xs \<Longrightarrow> NUL \<notin> set (serialize_elems f xs)"
  "list_all (\<lambda>(k, v). NUL \<notin> set k \<and> nul_free v \<and> float_free v) kvs \<Longrightarrow>
     NUL \<notin> set (serialize_fields f kvs)"
  by (induction v and f xs and f kvs rule: serialize_serialize_elems_serialize_fields.induct)
     (auto simp: NUL_to_string list_all_iff NUL_neq)

lemma storable_parse: "storable r \<Longrightarrow> parse (c_str (row_text r)) = Inr (JObj r)"
  using NUL_serialize(1) [of "JObj r"] parse_serialize [of "JObj r"]
  by (simp add: storable_def row_text_def del: wf_JObj float_free_JObj nul_free_JObj serialize.simps)

lemma row_text_nonempty: "storable r \<Longrightarrow> c_str (row_text r) \<noteq> []"
  by (simp add: row_text_def c_str_def NUL_def)

lemma load_rows_text:
  "list_all storable rows \<Longrightarrow>
     load_rows (map (\<lambda>x. [SqlText x]) (map row_text rows)) acc = Inr (acc @ rows)"
  by (induction rows arbitrary: acc)
     (auto simp: column_text_def storable_parse row_text_nonempty is_object_def as_obj_def)

section \<open>Write-through\<close>

text \<open>
  The invariant of an open store: every table exists in SQLite and holds the texts of rows that can
  be read back, and a table in the cache holds the same rows.
\<close>

definition synced ::
  "('db \<Rightarrow> string \<Rightarrow> string list option) \<Rightarrow> 'db database \<Rightarrow> (string \<Rightarrow> row list) \<Rightarrow> bool" where
  "synced tab d rows \<longleftrightarrow>
     (\<exists>h. db_handle d = Some h \<and>
       (\<forall>n \<in> set table_names. tab h n = Some (map row_text (rows n)) \<and> list_all storable (rows n) \<and>
          (tables d n = None \<or> tables d n = Some (rows n))))"

definition reopened :: "'db database \<Rightarrow> 'db database" where
  "reopened d = d\<lparr>tables := Map.empty\<rparr>"

lemma exec_txn:
  assumes "sqlite_tables (sqlite E) tab fr" "db_handle d = Some h"
    "q \<in> {begin_sql, commit_sql, rollback_sql, wal_sql, fk_sql}"
  shows "\<exists>b h'. sqlite3_exec E q d = (Inr b, d\<lparr>db_handle := Some h'\<rparr>) \<and> tab h' = tab h \<and> fr h' = fr h"
  using sqlite_txn [OF assms(1,3), of h] assms(2) by (auto simp: sqlite3_exec_def)

lemma exec_delete:
  assumes "sqlite_tables (sqlite E) tab fr" "db_handle d = Some h" "n \<in> set table_names"
    "tab h n = Some xs"
  shows "\<exists>h'. sqlite3_exec E (delete_sql n) d = (Inr True, d\<lparr>db_handle := Some h'\<rparr>) \<and>
    tab h' = (tab h)(n \<mapsto> []) \<and> fr h' = fr h"
  using sqlite_clear [of "sqlite E" tab fr n h xs] assms by (auto simp: sqlite3_exec_def)

lemma run_insert:
  assumes "sqlite_tables (sqlite E) tab fr" "db_handle d = Some h" "n \<in> set table_names"
    "tab h n = Some xs"
  shows "\<exists>h'. sqlite3_run E (insert_sql n) [SqlText x] d = (Inr (Some (True, 1)), d\<lparr>db_handle := Some h'\<rparr>) \<and>
    tab h' = (tab h)(n \<mapsto> xs @ [x]) \<and> fr h' = fr h"
  using sqlite_insert [of "sqlite E" tab fr n h xs x] assms by (auto simp: sqlite3_run_def)

lemma run_inserts:
  assumes "sqlite_tables (sqlite E) tab fr" "n \<in> set table_names"
  shows "db_handle d = Some h \<Longrightarrow> tab h n = Some xs \<Longrightarrow>
    \<exists>h'. forP rows (\<lambda>row. bindP (sqlite3_run E (insert_sql n) [SqlText (serialize (JObj row))])
        (\<lambda>_. returnP ())) d = (Inr (), d\<lparr>db_handle := Some h'\<rparr>) \<and>
      tab h' = (tab h)(n \<mapsto> xs @ map row_text rows) \<and> fr h' = fr h"
proof (induction rows arbitrary: d h xs)
  case (Cons r rows)
  obtain h1 where 1: "sqlite3_run E (insert_sql n) [SqlText (serialize (JObj r))] d
      = (Inr (Some (True, 1)), d\<lparr>db_handle := Some h1\<rparr>)"
    "tab h1 = (tab h)(n \<mapsto> xs @ [row_text r])" "fr h1 = fr h"
    using run_insert [OF assms(1) Cons.prems(1) assms(2) Cons.prems(2)] unfolding row_text_def by blast
  have "db_handle (d\<lparr>db_handle := Some h1\<rparr>) = Some h1" "tab h1 n = Some (xs @ [row_text r])"
    using 1 by simp_all
  from Cons.IH [OF this] obtain h2 where 2: "forP rows (\<lambda>row. bindP (sqlite3_run E (insert_sql n) [SqlText (serialize (JObj row))])
        (\<lambda>_. returnP ())) (d\<lparr>db_handle := Some h1\<rparr>) = (Inr (), d\<lparr>db_handle := Some h1, db_handle := Some h2\<rparr>)"
      "tab h2 = (tab h1)(n \<mapsto> (xs @ [row_text r]) @ map row_text rows)" "fr h2 = fr h1"
    by blast
  then show ?case
    using 1 by (intro exI [of _ h2]) (simp add: thenP_run bindP_run [of _ _ d] returnP_run [of _ "_\<lparr>db_handle := _\<rparr>"] del: serialize.simps)
next
  case Nil
  then show ?case by (intro exI [of _ h]) (simp add: returnP_run fun_upd_idem)
qed

lemma saved_tab:
  assumes S: "sqlite_tables (sqlite E) tab fr" and n: "n \<in> set table_names"
    and d: "db_handle d = Some h" "tab h n = Some xs" "tables d n = Some rows"
  shows "\<exists>h'. db_handle (saved E n d) = Some h' \<and> tab h' = (tab h)(n \<mapsto> map row_text rows) \<and> fr h' = fr h"
proof -
  obtain b1 h1 where 1: "sqlite3_exec E begin_sql d = (Inr b1, d\<lparr>db_handle := Some h1\<rparr>)"
      "tab h1 = tab h" "fr h1 = fr h"
    using exec_txn [OF S d(1), of begin_sql] by blast
  obtain h2 where 2: "sqlite3_exec E (delete_sql n) (d\<lparr>db_handle := Some h1\<rparr>)
      = (Inr True, d\<lparr>db_handle := Some h2\<rparr>)" "tab h2 = (tab h)(n \<mapsto> [])" "fr h2 = fr h"
    using exec_delete [OF S _ n, of "d\<lparr>db_handle := Some h1\<rparr>" h1 xs] 1 d by auto
  obtain h3 where 3: "forP rows (\<lambda>row. bindP (sqlite3_run E (insert_sql n) [SqlText (serialize (JObj row))])
        (\<lambda>_. returnP ())) (d\<lparr>db_handle := Some h2\<rparr>) = (Inr (), d\<lparr>db_handle := Some h3\<rparr>)"
      "tab h3 = (tab h)(n \<mapsto> map row_text rows)" "fr h3 = fr h"
    using run_inserts [OF S n, of "d\<lparr>db_handle := Some h2\<rparr>" h2 "[]" rows] 2 by auto
  obtain b4 h4 where 4: "sqlite3_exec E commit_sql (d\<lparr>db_handle := Some h3\<rparr>)
      = (Inr b4, d\<lparr>db_handle := Some h4\<rparr>)" "tab h4 = tab h3" "fr h4 = fr h3"
    using exec_txn [OF S, of "d\<lparr>db_handle := Some h3\<rparr>" h3 commit_sql] by auto
  show ?thesis
    using d 1 2 3 4 by (simp add: saved_def saveTable_def prog_simps)
qed

lemma synced_rows_of:
  assumes S: "sqlite_tables (sqlite E) tab fr" and s: "synced tab d rows" and n: "n \<in> set table_names"
  shows "rows_of E n d = Inr (rows n)" "rows_of E n (reopened d) = Inr (rows n)"
proof -
  obtain h where h: "db_handle d = Some h" "tab h n = Some (map row_text (rows n))"
      "list_all storable (rows n)" "tables d n = None \<or> tables d n = Some (rows n)"
    using s n unfolding synced_def by blast
  show "rows_of E n d = Inr (rows n)" "rows_of E n (reopened d) = Inr (rows n)"
    using h load_rows_text [OF h(3), of "[]"] by (auto simp: rows_of_def reopened_def sqlite_load [OF S n])
qed

lemma synced_saved:
  assumes S: "sqlite_tables (sqlite E) tab fr" and s: "synced tab d rows" and n: "n \<in> set table_names"
    and rs: "list_all storable rs"
  shows "synced tab (saved E n ((set_rows n rs d)\<lparr>ticks := k\<rparr>)) (rows(n := rs))"
proof -
  let ?d = "(set_rows n rs d)\<lparr>ticks := k\<rparr>"
  obtain h where h: "db_handle d = Some h" "tab h n = Some (map row_text (rows n))"
    using s n unfolding synced_def by blast
  obtain h' where h': "db_handle (saved E n ?d) = Some h'" "tab h' = (tab h)(n \<mapsto> map row_text rs)"
    using saved_tab [OF S n, of ?d h _ rs] h by auto
  show ?thesis
    using s rs h h' unfolding synced_def by auto
qed

lemma set_rows_ticks: "set_rows n rs d = (set_rows n rs d)\<lparr>ticks := ticks d\<rparr>"
  by (simp add: set_rows_def)

section \<open>The schema\<close>

text \<open>Programs that only use the connection, by what they make of the stored tables.\<close>

definition on_conn ::
  "('db \<Rightarrow> string \<Rightarrow> string list option) \<Rightarrow> ('db \<Rightarrow> friendship list option) \<Rightarrow>
   ('db database, unit) prog \<Rightarrow>
   ((string \<Rightarrow> string list option) \<times> friendship list option \<Rightarrow>
    (string \<Rightarrow> string list option) \<times> friendship list option) \<Rightarrow> bool" where
  "on_conn tab fr m f \<longleftrightarrow>
     (\<forall>d h. db_handle d = Some h \<longrightarrow>
        (\<exists>h'. m d = (Inr (), d\<lparr>db_handle := Some h'\<rparr>) \<and> (tab h', fr h') = f (tab h, fr h)))"

lemma on_connD:
  "on_conn tab fr m f \<Longrightarrow> db_handle d = Some h \<Longrightarrow>
     \<exists>h'. m d = (Inr (), d\<lparr>db_handle := Some h'\<rparr>) \<and> (tab h', fr h') = f (tab h, fr h)"
  by (simp add: on_conn_def)

lemma on_conn_then:
  assumes "on_conn tab fr m f" "on_conn tab fr k g"
  shows "on_conn tab fr (thenP m k) (g \<circ> f)"
  unfolding on_conn_def
proof (intro allI impI)
  fix d :: "'a database" and h assume "db_handle d = Some h"
  with assms(1) obtain h1 where 1: "m d = (Inr (), d\<lparr>db_handle := Some h1\<rparr>)"
    "(tab h1, fr h1) = f (tab h, fr h)" by (auto dest!: on_connD)
  obtain h2 where 2: "k (d\<lparr>db_handle := Some h1\<rparr>) = (Inr (), d\<lparr>db_handle := Some h2\<rparr>)"
    "(tab h2, fr h2) = g (tab h1, fr h1)"
    using on_connD [OF assms(2), of "d\<lparr>db_handle := Some h1\<rparr>" h1] by auto
  show "\<exists>h'. thenP m k d = (Inr (), d\<lparr>db_handle := Some h'\<rparr>) \<and> (tab h', fr h') = (g \<circ> f) (tab h, fr h)"
    using 1 2 by (auto simp: thenP_run)
qed

lemma on_conn_eq: "on_conn tab fr m f \<Longrightarrow> (\<And>t g. f (t, g) = f' (t, g)) \<Longrightarrow> on_conn tab fr m f'"
  by (simp add: on_conn_def)

lemma on_conn_return: "on_conn tab fr (returnP ()) id"
  by (auto simp: on_conn_def returnP_run intro!: exI)

lemma on_conn_for:
  "(\<And>x. x \<in> set xs \<Longrightarrow> on_conn tab fr (f x) (g x)) \<Longrightarrow> on_conn tab fr (forP xs f) (fold g xs)"
proof (induction xs)
  case (Cons x xs)
  then have "on_conn tab fr (thenP (f x) (forP xs f)) (fold g xs \<circ> g x)"
    by (intro on_conn_then) auto
  then show ?case by (simp only: forP.simps fold_simps comp_def fold_Cons)
qed (simp add: on_conn_return id_def [symmetric])

lemma on_conn_exec:
  assumes "\<And>h. \<exists>b h'. sq_exec (sqlite E) q h = (b, h') \<and> (tab h', fr h') = f (tab h, fr h)"
  shows "on_conn tab fr (bindP (execSql E q) (\<lambda>_. returnP ())) f"
  unfolding on_conn_def
proof (intro allI impI)
  fix d :: "'a database" and h assume "db_handle d = Some h"
  then show "\<exists>h'. bindP (execSql E q) (\<lambda>_. returnP ()) d = (Inr (), d\<lparr>db_handle := Some h'\<rparr>) \<and>
      (tab h', fr h') = f (tab h, fr h)"
    using assms [of h] by (auto simp: execSql_def sqlite3_exec_def bindP_run returnP_run)
qed

lemma on_conn_index:
  assumes "sqlite_schema (sqlite E) tab fr"
  shows "on_conn tab fr (createIndex E t i e) id"
proof -
  have "on_conn tab fr (bindP (execSql E (index_sql t i e)) (\<lambda>_. returnP ())) id"
    by (rule on_conn_exec) (use sqlite_index [OF assms] in simp)
  then show ?thesis by (simp add: createIndex_def on_conn_return)
qed

lemma on_conn_ensure:
  assumes S: "sqlite_schema (sqlite E) tab fr" and n: "n \<in> set table_names"
  shows "on_conn tab fr (ensureTable E n) (\<lambda>(t, f). (if t n = None then t(n \<mapsto> []) else t, f))"
  unfolding on_conn_def
proof (intro allI impI)
  fix d :: "'a database" and h assume d: "db_handle d = Some h"
  have nm: "c_str n = n" using n by (auto simp: table_names_def c_str_def NUL_def)
  show "\<exists>h'. ensureTable E n d = (Inr (), d\<lparr>db_handle := Some h'\<rparr>) \<and>
      (tab h', fr h') = (case (tab h, fr h) of (t, f) \<Rightarrow> (if t n = None then t(n \<mapsto> []) else t, f))"
  proof (cases "tab h n")
    case None
    then show ?thesis
      using sqlite_master [OF S n, of h] sqlite_create [OF S n None] d nm
      by (auto simp: ensureTable_def tableExists_def sqlite3_select_def sqlite3_exec_def bindP_run
          returnP_run)
  next
    case (Some xs)
    then show ?thesis
      using sqlite_master [OF S n, of h] d nm
      by (intro exI [of _ h])
         (auto simp: ensureTable_def tableExists_def sqlite3_select_def bindP_run returnP_run)
  qed
qed

lemma on_conn_friendships:
  assumes S: "sqlite_schema (sqlite E) tab fr"
  shows "on_conn tab fr (createFriendshipsTable E)
    (\<lambda>(t, f). (t, Some (case f of None \<Rightarrow> [] | Some fs \<Rightarrow> fs)))"
proof -
  let ?x = "\<lambda>q. bindP (execSql E q) (\<lambda>_. returnP ())"
  have eq: "createFriendshipsTable E = thenP (?x friendships_sql) (thenP (?x idx_fs_from_sql)
      (thenP (?x idx_fs_to_sql) (?x idx_fs_both_sql)))"
    by (simp add: createFriendshipsTable_def thenP_def bindP_assoc)
  have i: "on_conn tab fr (?x q) id" if "q \<in> {idx_fs_from_sql, idx_fs_to_sql, idx_fs_both_sql}" for q
    by (rule on_conn_exec) (use sqlite_fs_index [OF S that] in simp)
  have "on_conn tab fr (?x friendships_sql) (\<lambda>(t, f). (t, Some (case f of None \<Rightarrow> [] | Some fs \<Rightarrow> fs)))"
    by (rule on_conn_exec) (use sqlite_fs_create [OF S] in simp)
  then have "on_conn tab fr (createFriendshipsTable E)
      (((id \<circ> id) \<circ> id) \<circ> (\<lambda>(t, f). (t, Some (case f of None \<Rightarrow> [] | Some fs \<Rightarrow> fs))))"
    unfolding eq by (intro on_conn_then i) auto
  then show ?thesis by simp
qed

definition version_row :: "int \<Rightarrow> row" where
  "version_row v = [(''version'', JInt v)]"

lemma schemaVersion_loaded:
  "tables d ''schema_version'' = Some [version_row v] \<Longrightarrow> in_int32 v \<Longrightarrow> schemaVersion E d = (Inr v, d)"
  by (simp add: schemaVersion_def db_query_all_run set_rows_id bindP_run liftP_run returnP_run
      version_row_def obj_at_def obj_find_def as_int_def)

lemma open_fresh:
  assumes T: "sqlite_tables (sqlite E) tab fr" and S: "sqlite_schema (sqlite E) tab fr"
    and h: "sq_open (sqlite E) (dir @ ''/lanchat.db'') = (True, h)" "tab h ''schema_version'' = None"
  shows "\<exists>h'. db_open E (new_database dir) =
      (Inr True, \<lparr>data_dir = dir, db_handle = Some h',
         tables = [''schema_version'' \<mapsto> [version_row 0]], ticks = 0, rnds = 0\<rparr>) \<and>
      tab h' = (tab h)(''schema_version'' \<mapsto> [row_text (version_row 0)]) \<and> fr h' = fr h"
proof -
  let ?n = "''schema_version''"
  let ?d = "\<lambda>h t. \<lparr>data_dir = dir, db_handle = Some h, tables = t, ticks = 0, rnds = 0\<rparr>"
  have n: "?n \<in> set table_names" by (simp add: table_names_def)
  obtain b1 h1 where 1: "sqlite3_exec E wal_sql (?d h Map.empty) = (Inr b1, ?d h1 Map.empty)"
      "tab h1 = tab h" "fr h1 = fr h"
    using exec_txn [OF T, of "?d h Map.empty" h wal_sql] by auto
  obtain b2 h2 where 2: "sqlite3_exec E fk_sql (?d h1 Map.empty) = (Inr b2, ?d h2 Map.empty)"
      "tab h2 = tab h" "fr h2 = fr h"
    using exec_txn [OF T, of "?d h1 Map.empty" h1 fk_sql] 1 by auto
  have ex: "tableExists E ?n (?d h2 Map.empty) = (Inr False, ?d h2 Map.empty)"
    using sqlite_master [OF S n, of h2] 2 h(2)
    by (simp add: tableExists_def sqlite3_select_def bindP_run returnP_run c_str_def NUL_def)
  obtain h3 where 3: "ensureTable E ?n (?d h2 Map.empty) = (Inr (), ?d h3 Map.empty)"
      "tab h3 = (tab h)(?n \<mapsto> [])" "fr h3 = fr h"
    using on_connD [OF on_conn_ensure [OF S n], of "?d h2 Map.empty" h2] 2 h(2) by auto
  have rows: "rows_of E ?n (?d h3 Map.empty) = Inr []"
    using 3 by (simp add: rows_of_def sqlite_load [OF T n])
  obtain h4 where 4: "db_handle (saved E ?n (?d h3 [?n \<mapsto> [version_row 0]])) = Some h4"
      "tab h4 = (tab h)(?n \<mapsto> [row_text (version_row 0)])" "fr h4 = fr h"
    using saved_tab [OF T n, of "?d h3 [?n \<mapsto> [version_row 0]]" h3 "[]" "[version_row 0]"] 3 by auto
  have sv: "saved E ?n (?d h3 [?n \<mapsto> [version_row 0]]) = ?d h4 [?n \<mapsto> [version_row 0]]"
    by (rule database.equality) (use 4 in simp_all)
  have ins: "db_insert E ?n (version_row 0) (?d h3 Map.empty) = (Inr (), ?d h4 [?n \<mapsto> [version_row 0]])"
    using rows sv by (simp add: db_insert_run set_rows_def)
  have ver: "schemaVersion E (?d h4 [?n \<mapsto> [version_row 0]]) = (Inr 0, ?d h4 [?n \<mapsto> [version_row 0]])"
    by (rule schemaVersion_loaded) (simp_all add: in_int32_def)
  show ?thesis
    using 1 2 3 4 h ex ins ver
    by (simp add: db_open_def new_database_def bindP_run thenP_run whenP_run returnP_run version_row_def)
qed

lemma fold_ensure:
  "fold (\<lambda>n (t, f). (if t n = None then t(n \<mapsto> []) else t, f)) ns (t, f) =
     (\<lambda>n. if n \<in> set ns \<and> t n = None then Some [] else t n, f)"
  by (induction ns arbitrary: t) (auto simp: fun_eq_iff)

lemma on_conn_ensures:
  assumes "sqlite_schema (sqlite E) tab fr" "set ns \<subseteq> set table_names"
  shows "on_conn tab fr (forP ns (ensureTable E))
    (\<lambda>(t, f). (\<lambda>n. if n \<in> set ns \<and> t n = None then Some [] else t n, f))"
proof (rule on_conn_eq)
  show "on_conn tab fr (forP ns (ensureTable E))
      (fold (\<lambda>n (t, f). (if t n = None then t(n \<mapsto> []) else t, f)) ns)"
    by (rule on_conn_for, rule on_conn_ensure) (use assms in auto)
qed (simp only: fold_ensure prod.case)

lemma on_conn_v0:
  assumes S: "sqlite_schema (sqlite E) tab fr"
  shows "\<exists>m. migrate_v0 E = thenP m (setSchemaVersion E 1) \<and>
    on_conn tab fr m (\<lambda>(t, f).
      (\<lambda>n. if n \<in> set (tl table_names) \<and> t n = None then Some [] else t n,
       Some (case f of None \<Rightarrow> [] | Some fs \<Rightarrow> fs)))"
proof -
  let ?i = "\<lambda>xs. forP xs (\<lambda>(table, idx, field). createIndex E table idx (json_path field))"
  have tl: "tl table_names = [''users'', ''messages'', ''groups'', ''group_members'']"
    by (simp add: table_names_def)
  have e: "on_conn tab fr (forP (tl table_names) (ensureTable E))
      (\<lambda>(t, f). (\<lambda>n. if n \<in> set (tl table_names) \<and> t n = None then Some [] else t n, f))"
    by (rule on_conn_ensures [OF S]) (auto simp: table_names_def)
  have i: "on_conn tab fr (?i xs) id" for xs
  proof -
    have "on_conn tab fr (?i xs) (fold (\<lambda>_. id) xs)"
      by (rule on_conn_for) (auto intro: on_conn_index [OF S])
    then show ?thesis by (simp add: fold_id)
  qed
  have assoc: "thenP a (thenP b (thenP c k)) = thenP (thenP a (thenP b c)) k"
    for a b c :: "('a database, unit) prog" and k :: "('a database, unit) prog"
    by (simp add: thenP_def bindP_assoc)
  note conn = on_conn_then [OF e on_conn_then [OF i on_conn_friendships [OF S]]]
  show ?thesis
    unfolding migrate_v0_def assoc tl [symmetric]
    by (intro exI conjI, rule refl, rule conn [THEN on_conn_eq]) simp
qed

lemma obj_set_version: "obj_set ''version'' (JInt w) (version_row v) = version_row w"
  by (simp add: version_row_def)

lemma storable_version: "in_int64 v \<Longrightarrow> storable (version_row v)"
  by (simp add: storable_def version_row_def NUL_def)

lemma setSchemaVersion_loaded:
  assumes "tables d ''schema_version'' = Some [version_row v]"
  shows "setSchemaVersion E w d =
    (Inr (), saved E ''schema_version'' (set_rows ''schema_version'' [version_row w] d))"
  using assms update_rows_pure [of "\<lambda>_. True" "obj_set ''version'' (JInt w)" "[version_row v]" "ticks d"]
  by (simp add: setSchemaVersion_def db_query_all_run db_update_run set_rows_id bindP_run returnP_run
      obj_set_version set_rows_def)

lemma migrate_fresh:
  assumes T: "sqlite_tables (sqlite E) tab fr" and S: "sqlite_schema (sqlite E) tab fr"
    and d: "db_handle d = Some h" "tables d = [''schema_version'' \<mapsto> [version_row 0]]"
    and h: "tab h ''schema_version'' = Some [row_text (version_row 0)]"
      "\<forall>n \<in> set (tl table_names). tab h n = None"
  shows "\<exists>d'. migrate E 1 d = (Inr True, d') \<and>
    synced tab d' ((\<lambda>_. [])(''schema_version'' := [version_row 1])) \<and>
    (\<exists>h'. db_handle d' = Some h' \<and> fr h' = Some (case fr h of None \<Rightarrow> [] | Some fs \<Rightarrow> fs)) \<and>
    tables d' = [''schema_version'' \<mapsto> [version_row 1]]"
proof -
  let ?n = "''schema_version''"
  have n: "?n \<in> set table_names" "?n \<notin> set (tl table_names)"
    "set table_names = insert ?n (set (tl table_names))" by (auto simp: table_names_def)
  obtain m where m: "migrate_v0 E = thenP m (setSchemaVersion E 1)"
    "on_conn tab fr m (\<lambda>(t, f).
      (\<lambda>n. if n \<in> set (tl table_names) \<and> t n = None then Some [] else t n,
       Some (case f of None \<Rightarrow> [] | Some fs \<Rightarrow> fs)))"
    using on_conn_v0 [OF S] by blast
  obtain h1 where 1: "m d = (Inr (), d\<lparr>db_handle := Some h1\<rparr>)"
    "tab h1 = (\<lambda>n. if n \<in> set (tl table_names) then Some [] else tab h n)"
    "fr h1 = Some (case fr h of None \<Rightarrow> [] | Some fs \<Rightarrow> fs)"
    using on_connD [OF m(2) d(1)] h(2) by (auto simp: fun_eq_iff)
  let ?d = "d\<lparr>db_handle := Some h1\<rparr>"
  let ?d' = "saved E ?n (set_rows ?n [version_row 1] ?d)"
  obtain h2 where 2: "db_handle ?d' = Some h2" "tab h2 = (tab h1)(?n \<mapsto> [row_text (version_row 1)])"
      "fr h2 = fr h1"
    using saved_tab [OF T n(1), of "set_rows ?n [version_row 1] ?d" h1 _ "[version_row 1]"] 1 n h by auto
  have "setSchemaVersion E 1 ?d = (Inr (), ?d')"
    by (rule setSchemaVersion_loaded) (simp add: d)
  then have "migrate E 1 d = (Inr True, ?d')"
    using schemaVersion_loaded [of d 0 E] d m(1) 1(1)
    by (simp add: migrate_def bindP_run thenP_run returnP_run in_int32_def)
  moreover have "synced tab ?d' ((\<lambda>_. [])(?n := [version_row 1]))"
    unfolding synced_def using 2 1 n d storable_version [of 1] by (auto simp: in_int64_def)
  ultimately show ?thesis using 2 1 d by auto
qed

section \<open>Properties\<close>

text \<open>What a process that opens the database later, with an empty cache, loads.\<close>

definition restarts_with ::
  "'db env \<Rightarrow> ('db \<Rightarrow> string \<Rightarrow> string list option) \<Rightarrow> 'db database \<Rightarrow> (string \<Rightarrow> row list) \<Rightarrow> bool" where
  "restarts_with E tab d rows \<longleftrightarrow>
     synced tab d rows \<and> (\<forall>m \<in> set table_names. rows_of E m (reopened d) = Inr (rows m))"

lemma saved_restarts:
  assumes "sqlite_tables (sqlite E) tab fr" "synced tab d rows" "n \<in> set table_names"
    "list_all storable rs"
  shows "restarts_with E tab (saved E n (set_rows n rs d)) (rows(n := rs))"
  using synced_saved [OF assms, of "ticks d"] synced_rows_of(2) [OF assms(1)]
  by (auto simp del: fun_upd_apply simp: set_rows_ticks [symmetric] restarts_with_def)


definition ref_env :: "ref_db env" where
  "ref_env = \<lparr>sqlite = ref_engine, clock = (\<lambda>k. 1700000000 + int k), steady = (\<lambda>k. int k),
     entropy = (\<lambda>_. replicate 16 CHR ''e''),
     crypt_gensalt_rn = (\<lambda>prefix cost ent. Some (prefix @ ''12$'' @ replicate 16 CHR ''e'')),
     crypt_rn = (\<lambda>key setting. Some (take 23 setting @ key)),
     sort_perm = (\<lambda>ks. sort_key (\<lambda>i. ks ! i) [0..<length ks]),
     hash_order = rev\<rparr>"


text \<open>Opening the database for the first time and migrating it to version 1 succeeds and
  leaves the schema that the repositories rely on: the five tables of rows, the one of the schema
  version holding 1 and the others empty, and an empty table of friendships. Migrating again
  changes nothing, and a version below the current one is refused.\<close>

theorem first_start_schema:
  assumes T: "sqlite_tables (sqlite E) tab fr" and S: "sqlite_schema (sqlite E) tab fr"
    and h: "sq_open (sqlite E) (dir @ ''/lanchat.db'') = (True, h)"
    and f: "\<forall>n \<in> set table_names. tab h n = None" "fr h = None"
  shows "\<exists>d' h'. thenP (db_open E) (migrate E 1) (new_database dir) = (Inr True, d') \<and>
     synced tab d' ((\<lambda>_. [])(''schema_version'' := [version_row 1])) \<and>
     db_handle d' = Some h' \<and> fr h' = Some [] \<and>
     schemaVersion E d' = (Inr 1, d') \<and>
     migrate E 1 d' = (Inr True, d') \<and> migrate E 0 d' = (Inr False, d')"
proof -
  let ?n = "''schema_version''"
  have n: "?n \<in> set table_names" "?n \<notin> set (tl table_names)"
    "set table_names = insert ?n (set (tl table_names))" by (auto simp: table_names_def)
  obtain h1 where 1: "db_open E (new_database dir) =
      (Inr True, \<lparr>data_dir = dir, db_handle = Some h1,
         tables = [?n \<mapsto> [version_row 0]], ticks = 0, rnds = 0\<rparr>)"
      "tab h1 = (tab h)(?n \<mapsto> [row_text (version_row 0)])" "fr h1 = fr h"
    using open_fresh [OF T S h] f n by auto
  let ?d = "\<lparr>data_dir = dir, db_handle = Some h1, tables = [?n \<mapsto> [version_row 0]], ticks = 0, rnds = 0\<rparr>"
  have h1: "tab h1 ?n = Some [row_text (version_row 0)]" "\<forall>m \<in> set (tl table_names). tab h1 m = None"
    using 1 f n by auto
  have "\<exists>d'. migrate E 1 ?d = (Inr True, d') \<and>
      synced tab d' ((\<lambda>_. [])(?n := [version_row 1])) \<and>
      (\<exists>h'. db_handle d' = Some h' \<and> fr h' = Some (case fr h1 of None \<Rightarrow> [] | Some fs \<Rightarrow> fs)) \<and>
      tables d' = [?n \<mapsto> [version_row 1]]"
    by (rule migrate_fresh [OF T S]) (use h1 in simp_all)
  then obtain d' h' where d': "migrate E 1 ?d = (Inr True, d')"
      "synced tab d' ((\<lambda>_. [])(?n := [version_row 1]))" "db_handle d' = Some h'" "fr h' = Some []"
      "tables d' = [?n \<mapsto> [version_row 1]]"
    using 1 f by auto
  have v: "schemaVersion E d' = (Inr 1, d')"
    by (rule schemaVersion_loaded) (simp_all add: d' in_int32_def)
  then have "migrate E 1 d' = (Inr True, d')" "migrate E 0 d' = (Inr False, d')"
    by (simp_all add: migrate_def bindP_run thenP_run returnP_run)
  with d' v 1 show ?thesis by (auto simp: thenP_run)
qed

theorem first_start_schema_witness:
  "\<exists>d' h'. thenP (db_open ref_env) (migrate ref_env 1) (new_database ''data'') = (Inr True, d') \<and>
     db_handle d' = Some h' \<and> rfr h' = Some [] \<and> schemaVersion ref_env d' = (Inr 1, d')"
  using first_start_schema [of ref_env rtabs rfr "''data''" "\<lparr>rtabs = Map.empty, rfr = None\<rparr>"]
    ref_engine_tables ref_engine_schema
  by (fastforce simp: ref_env_def ref_engine_def)

end
