(* ===== verification/PasswordHash.thy ===== *)
theory PasswordHash
  imports Database
begin

unbundle bit_operations_syntax

text \<open>
  The two password schemes of the server: the salted hash of \<^verbatim>\<open>src/server/vendor/sha256.hpp\<close>, which
  only old rows carry, and bcrypt through \<^verbatim>\<open>src/server/vendor/lanchat_bcrypt.hpp\<close>. The bcrypt
  routines themselves, \<open>crypt_gensalt_rn\<close> and \<open>crypt_rn\<close>, are the third-party Openwall code and enter
  as fields of the environment; \<open>bcrypt_ok\<close> states what their documentation promises.
\<close>

section \<open>The salted hash\<close>

definition mix_char :: "u64 \<Rightarrow> char \<Rightarrow> u64" where
  "mix_char h c = (push_bit 5 h + h) XOR of_char c"

definition mix_round :: "nat \<Rightarrow> u64 \<Rightarrow> u64" where
  "mix_round i h = ((push_bit 7 h OR drop_bit 57 h) XOR (h * 0x9E3779B97F4A7C15)) XOR of_nat i"

definition hex_digit :: "u64 \<Rightarrow> char" where
  "hex_digit n = ''0123456789abcdef'' ! unat (n AND 15)"

text \<open>\<open>ss << std::hex << std::setfill('0') << std::setw(16) << h\<close>\<close>

definition hex16 :: "u64 \<Rightarrow> string" where
  "hex16 h = map (\<lambda>i. hex_digit (drop_bit (4 * i) h)) (rev [0..<16])"

definition crypto_hash_password :: "string \<Rightarrow> string \<Rightarrow> string" where
  "crypto_hash_password password salt =
     (let h = fold (\<lambda>c h. mix_char h c) salt 0x1505;
          h = fold (\<lambda>c h. mix_char h c) password h;
          h = fold mix_round [0..<10000] h
      in hex16 h)"

text \<open>The salt is the one that \<open>generate_salt\<close> draws.\<close>

definition make_hash :: "string \<Rightarrow> string \<Rightarrow> string" where
  "make_hash salt password = ''sha256:'' @ salt @ '':'' @ crypto_hash_password password salt"

definition verify_hash :: "string \<Rightarrow> string \<Rightarrow> bool" where
  "verify_hash password stored =
     (if length stored < 7 \<or> take 7 stored \<noteq> ''sha256:'' then password = stored
      else
        let rest = drop 7 stored;
            salt = takeWhile (\<lambda>c. c \<noteq> CHR '':'') rest
        in if CHR '':'' \<notin> set rest then False
           else crypto_hash_password password salt = drop (length salt + 1) rest)"

section \<open>bcrypt\<close>

definition bcrypt_hash_password :: "'db env \<Rightarrow> string \<Rightarrow> nat \<Rightarrow> ('db database, string) prog" where
  "bcrypt_hash_password E password cost =
     bindP (random_block E) (\<lambda>ent.
       returnP (case crypt_gensalt_rn E ''$2b$'' cost ent of
          None \<Rightarrow> []
        | Some salt \<Rightarrow>
            (case crypt_rn E (c_str password) salt of
               None \<Rightarrow> []
             | Some out \<Rightarrow> c_str out)))"

definition bcrypt_verify_password :: "'db env \<Rightarrow> string \<Rightarrow> string \<Rightarrow> bool" where
  "bcrypt_verify_password E password stored =
     (if \<not> is_prefix ''$2'' stored then False
      else case crypt_rn E (c_str password) (c_str stored) of
             None \<Rightarrow> False
           | Some out \<Rightarrow> stored = c_str out)"

text \<open>
  The documented use of \<open>crypt\<close>: a setting is made of 16 random bytes, hashing a password with it
  gives a text that starts with the scheme's prefix, and hashing the same password with that text
  as the setting gives the text again.
\<close>

definition bcrypt_ok :: "'db env \<Rightarrow> bool" where
  "bcrypt_ok E \<longleftrightarrow>
     (\<forall>pw ent. length ent = 16 \<longrightarrow> NUL \<notin> set pw \<longrightarrow>
        (\<exists>salt h. crypt_gensalt_rn E ''$2b$'' 12 ent = Some salt \<and> crypt_rn E pw salt = Some h \<and>
           is_prefix ''$2'' h \<and> NUL \<notin> set h \<and> crypt_rn E pw h = Some h)) \<and>
     (\<forall>k. length (entropy E k) = 16)"

section \<open>Facts\<close>

lemma verify_make_hash: "CHR '':'' \<notin> set salt \<Longrightarrow> verify_hash password (make_hash salt password)"
proof -
  assume "CHR '':'' \<notin> set salt"
  then have "takeWhile (\<lambda>c. c \<noteq> CHR '':'') (salt @ CHR '':'' # x) = salt" for x
    by (induction salt) auto
  then show ?thesis by (simp add: verify_hash_def make_hash_def)
qed

lemma NUL_c_str: "NUL \<notin> set (c_str s)"
  by (auto simp: c_str_def dest: set_takeWhileD)

lemma bcrypt_hash_verifies:
  assumes "bcrypt_ok E"
  shows "\<exists>h. bcrypt_hash_password E password 12 d = (Inr h, d\<lparr>rnds := Suc (rnds d)\<rparr>) \<and>
    NUL \<notin> set h \<and> bcrypt_verify_password E password h"
proof -
  obtain salt h where h: "crypt_gensalt_rn E ''$2b$'' 12 (entropy E (rnds d)) = Some salt"
      "crypt_rn E (c_str password) salt = Some h"
      "is_prefix ''$2'' h" "NUL \<notin> set h" "crypt_rn E (c_str password) h = Some h"
    using assms NUL_c_str unfolding bcrypt_ok_def by metis
  then show ?thesis
    by (simp add: bcrypt_hash_password_def random_block_def bcrypt_verify_password_def bindP_run
        returnP_run del: is_prefix.simps)
qed

lemma bcrypt_hash_returns:
  "\<exists>h. bcrypt_hash_password E password cost d = (Inr h, d\<lparr>rnds := Suc (rnds d)\<rparr>)"
  by (auto simp: bcrypt_hash_password_def random_block_def bindP_run returnP_run)

lemma ref_env_bcrypt: "bcrypt_ok ref_env"
  by (simp add: bcrypt_ok_def ref_env_def NUL_def)

section \<open>Properties\<close>

text \<open>The check of a password against an old row accepts the password from which the row's hash
  was made, for every salt without a colon; against a stored text that is not in the hashed format
  it accepts that text and nothing else.\<close>

theorem salted_hash_accepts:
  "(CHR '':'' \<notin> set salt \<longrightarrow> verify_hash password (make_hash salt password)) \<and>
   (\<not> is_prefix ''sha256:'' stored \<longrightarrow> (verify_hash password stored \<longleftrightarrow> password = stored))"
proof -
  have "take 7 stored \<noteq> ''sha256:''" if "\<not> is_prefix ''sha256:'' stored"
    using that append_take_drop_id [of 7 stored] by (metis is_prefix_iff)
  then have "\<not> is_prefix ''sha256:'' stored \<longrightarrow> (verify_hash password stored \<longleftrightarrow> password = stored)"
    by (simp add: verify_hash_def del: is_prefix.simps)
  then show ?thesis using verify_make_hash by blast
qed

theorem salted_hash_accepts_witness:
  "verify_hash ''secret'' (make_hash ''00112233445566778899aabbccddeeff'' ''secret'') \<and>
   \<not> verify_hash ''secret'' ''hunter2''"
  using salted_hash_accepts [of "''00112233445566778899aabbccddeeff''" "''secret''" "''hunter2''"]
  by simp

end
