(* ===== verification/UserRepository.thy ===== *)
theory UserRepository
  imports PasswordHash MessageTypes
begin

text \<open>
  The accounts: \<^verbatim>\<open>src/server/src/db/UserRepository.cpp\<close>. The lambdas that the C++ code passes to
  the database are definitions of their own here. \<open>row.at(key)\<close> throws on a row without the key.

  Shown here: the rows keep their shape and their identifiers stay distinct, a new account gets an
  identifier that no other has and can be found and logged into, and the operations on one account
  leave the others alone.
\<close>

section \<open>Operations\<close>

definition passwordVersion :: "row \<Rightarrow> int" where
  "passwordVersion row =
     (case obj_find row ''password_version'' of
        None \<Rightarrow> 0
      | Some v \<Rightarrow> if \<not> is_number v then 0 else to_int32 (as_int v))"

definition userFromRow :: "row \<Rightarrow> exn + UserInfo" where
  "userFromRow r =
     bindE (obj_at r ''id'') (\<lambda>i.
     bindE (obj_at r ''password_hash'') (\<lambda>p.
     bindE (obj_at r ''nickname'') (\<lambda>n.
     bindE (obj_at r ''avatar_id'') (\<lambda>a.
       Inr \<lparr>u_id = to_int32 (as_int i), u_password = as_string p, u_nickname = as_string n,
            u_avatar_id = to_int32 (as_int a)\<rparr>))))"

definition id_is :: "int \<Rightarrow> row \<Rightarrow> exn + bool" where
  "id_is i r = bindE (obj_at r ''id'') (\<lambda>v. Inr (as_int v = i))"

definition nickname_is :: "string \<Rightarrow> row \<Rightarrow> exn + bool" where
  "nickname_is nickname r = bindE (obj_at r ''nickname'') (\<lambda>v. Inr (as_string v = nickname))"

definition new_user_repository :: "'db env \<Rightarrow> ('db database, unit) prog" where
  "new_user_repository E = ensureTable E ''users''"

definition findById :: "'db env \<Rightarrow> int \<Rightarrow> ('db database, UserInfo option) prog" where
  "findById E i =
     bindP (db_query E ''users'' (id_is i)) (\<lambda>rows.
       case rows of
         [] \<Rightarrow> returnP None
       | r # _ \<Rightarrow> bindP (liftP (userFromRow r)) (\<lambda>u. returnP (Some u)))"

definition findByNickname :: "'db env \<Rightarrow> string \<Rightarrow> ('db database, UserInfo option) prog" where
  "findByNickname E nickname =
     bindP (db_query E ''users'' (nickname_is nickname)) (\<lambda>rows.
       case rows of
         [] \<Rightarrow> returnP None
       | r # _ \<Rightarrow> bindP (liftP (userFromRow r)) (\<lambda>u. returnP (Some u)))"

text \<open>The loop that looks for the largest identifier; the addition is on a C++ \<open>int\<close>.\<close>

fun max_user_id :: "row list \<Rightarrow> int \<Rightarrow> exn + int" where
  "max_user_id [] maxId = Inr maxId"
| "max_user_id (r # rs) maxId =
     bindE (obj_at r ''id'') (\<lambda>v.
       let rid = to_int32 (as_int v)
       in max_user_id rs (if rid \<ge> maxId then to_int32 (rid + 1) else maxId))"

definition new_user_row :: "int \<Rightarrow> string \<Rightarrow> string \<Rightarrow> int \<Rightarrow> int \<Rightarrow> row" where
  "new_user_row maxId hash nickname avatarId now = obj_sets []
     [(''id'', JInt maxId), (''password_hash'', JString hash), (''password_version'', JInt 1),
      (''nickname'', JString nickname), (''avatar_id'', JInt avatarId), (''created_at'', JInt now),
      (''last_seen_at'', JInt 0), (''is_online'', JInt 0)]"

definition create :: "'db env \<Rightarrow> string \<Rightarrow> string \<Rightarrow> int \<Rightarrow> ('db database, int) prog" where
  "create E password nickname avatarId =
     bindP (findByNickname E nickname) (\<lambda>existing.
       if existing \<noteq> None then returnP (- 1)
       else
         bindP (db_query_all E ''users'') (\<lambda>all.
         bindP (liftP (max_user_id all 1000)) (\<lambda>maxId.
         bindP (bcrypt_hash_password E password 12) (\<lambda>hash.
         bindP (nowSeconds E) (\<lambda>now.
         thenP (db_insert E ''users'' (new_user_row maxId hash nickname avatarId now))
           (returnP maxId))))))"

definition upgrade_hash :: "string \<Rightarrow> row \<Rightarrow> row" where
  "upgrade_hash upgraded r = obj_sets r
     [(''password_hash'', JString upgraded), (''password_version'', JInt 1)]"

definition verifyPassword :: "'db env \<Rightarrow> int \<Rightarrow> string \<Rightarrow> ('db database, bool) prog" where
  "verifyPassword E userId password =
     bindP (db_query E ''users'' (id_is userId)) (\<lambda>rows.
       case rows of
         [] \<Rightarrow> returnP False
       | row # _ \<Rightarrow>
           bindP (liftP (obj_at row ''password_hash'')) (\<lambda>v.
             let stored = as_string v in
             if passwordVersion row \<ge> 1 then returnP (bcrypt_verify_password E password stored)
             else if \<not> verify_hash password stored then returnP False
             else
               bindP (bcrypt_hash_password E password 12) (\<lambda>upgraded.
               thenP (db_update E ''users'' (id_is userId) (\<lambda>r k. (upgrade_hash upgraded r, k)))
                 (returnP True))))"

definition set_profile :: "string \<Rightarrow> int \<Rightarrow> row \<Rightarrow> row" where
  "set_profile nickname avatarId r = obj_sets r
     [(''nickname'', JString nickname), (''avatar_id'', JInt avatarId)]"

definition updateProfile :: "'db env \<Rightarrow> int \<Rightarrow> string \<Rightarrow> int \<Rightarrow> ('db database, bool) prog" where
  "updateProfile E userId nickname avatarId =
     db_update E ''users'' (id_is userId) (\<lambda>r k. (set_profile nickname avatarId r, k))"

definition set_online :: "'db env \<Rightarrow> bool \<Rightarrow> row \<Rightarrow> nat \<Rightarrow> row \<times> nat" where
  "set_online E online r k =
     (if online
      then (obj_sets r [(''is_online'', JInt 1), (''last_seen_at'', JInt (to_int64 (clock E k)))], Suc k)
      else (obj_set ''is_online'' (JInt 0) r, k))"

definition setOnlineStatus :: "'db env \<Rightarrow> int \<Rightarrow> bool \<Rightarrow> ('db database, unit) prog" where
  "setOnlineStatus E userId online =
     bindP (db_update E ''users'' (id_is userId) (set_online E online)) (\<lambda>_. returnP ())"

definition getAllUsers :: "'db env \<Rightarrow> ('db database, UserInfo list) prog" where
  "getAllUsers E = bindP (db_query_all E ''users'') (mapP (\<lambda>r. liftP (userFromRow r)))"

section \<open>The shape of the rows\<close>

definition user_row :: "row \<Rightarrow> bool" where
  "user_row r \<longleftrightarrow>
     (case obj_find r ''id'' of Some (JInt i) \<Rightarrow> in_int32 i | _ \<Rightarrow> False) \<and>
     (case obj_find r ''password_hash'' of Some (JString _) \<Rightarrow> True | _ \<Rightarrow> False) \<and>
     (case obj_find r ''nickname'' of Some (JString _) \<Rightarrow> True | _ \<Rightarrow> False) \<and>
     (case obj_find r ''avatar_id'' of Some (JInt a) \<Rightarrow> in_int32 a | _ \<Rightarrow> False)"

definition row_id :: "row \<Rightarrow> int" where
  "row_id r = as_int (the (obj_find r ''id''))"

definition row_nickname :: "row \<Rightarrow> string" where
  "row_nickname r = as_string (the (obj_find r ''nickname''))"

definition row_hash :: "row \<Rightarrow> string" where
  "row_hash r = as_string (the (obj_find r ''password_hash''))"

definition row_user :: "row \<Rightarrow> UserInfo" where
  "row_user r = \<lparr>u_id = row_id r, u_password = row_hash r, u_nickname = row_nickname r,
     u_avatar_id = as_int (the (obj_find r ''avatar_id''))\<rparr>"

definition users_ok :: "row list \<Rightarrow> bool" where
  "users_ok rows \<longleftrightarrow> (\<forall>r \<in> set rows. user_row r) \<and> distinct (map row_id rows) \<and>
     (\<forall>r \<in> set rows. row_id r < 2147483647)"

lemma users_okD: "users_ok rows \<Longrightarrow> \<forall>r \<in> set rows. user_row r"
  by (simp add: users_ok_def)

lemma user_row_at:
  assumes "user_row r"
  shows "obj_at r ''id'' = Inr (JInt (row_id r))" "in_int32 (row_id r)"
    "obj_at r ''password_hash'' = Inr (JString (row_hash r))"
    "obj_at r ''nickname'' = Inr (JString (row_nickname r))"
    "id_is i r = Inr (row_id r = i)" "nickname_is n r = Inr (row_nickname r = n)"
    "userFromRow r = Inr (row_user r)"
  using assms
  by (auto simp: user_row_def obj_at_def row_id_def row_hash_def row_nickname_def row_user_def id_is_def
      nickname_is_def userFromRow_def as_int_def as_string_def split: option.splits json.splits)

lemma filterE_cong: "(\<And>r. r \<in> set rows \<Longrightarrow> p r = Inr (q r)) \<Longrightarrow> filterE p rows = Inr (filter q rows)"
  by (induction rows) auto

lemma update_rows_cong:
  "(\<And>r. r \<in> set rows \<Longrightarrow> p r = p' r) \<Longrightarrow> update_rows p u rows k = update_rows p' u rows k"
  by (induction rows arbitrary: k) (auto split: sum.split)

lemma mapP_lift:
  "(\<And>x. x \<in> set xs \<Longrightarrow> f x = Inr (g x)) \<Longrightarrow> mapP (\<lambda>x. liftP (f x)) xs s = (Inr (map g xs), s)"
  by (induction xs) (simp_all add: bindP_run liftP_run returnP_run)

lemma query_ids:
  "rows_of E ''users'' d = Inr rows \<Longrightarrow> \<forall>r \<in> set rows. user_row r \<Longrightarrow>
     db_query E ''users'' (id_is i) d = (Inr (filter (\<lambda>r. row_id r = i) rows), set_rows ''users'' rows d)"
  by (simp add: db_query_run filterE_cong user_row_at)

lemma query_nicknames:
  "rows_of E ''users'' d = Inr rows \<Longrightarrow> \<forall>r \<in> set rows. user_row r \<Longrightarrow>
     db_query E ''users'' (nickname_is n) d =
       (Inr (filter (\<lambda>r. row_nickname r = n) rows), set_rows ''users'' rows d)"
  by (simp add: db_query_run filterE_cong user_row_at)

lemma list_case_filter:
  "(case filter P xs of [] \<Rightarrow> a | y # ys \<Rightarrow> f y) = (case find P xs of None \<Rightarrow> a | Some y \<Rightarrow> f y)"
  by (induction xs) auto

lemma findById_run:
  assumes "rows_of E ''users'' d = Inr rows" "\<forall>r \<in> set rows. user_row r"
  shows "findById E i d =
    (Inr (map_option row_user (find (\<lambda>r. row_id r = i) rows)), set_rows ''users'' rows d)"
  using assms
  by (auto simp: findById_def bindP_run query_ids list_case_filter returnP_run liftP_run
      user_row_at dest!: find_SomeD split: option.split)

lemma findByNickname_run:
  assumes "rows_of E ''users'' d = Inr rows" "\<forall>r \<in> set rows. user_row r"
  shows "findByNickname E n d =
    (Inr (map_option row_user (find (\<lambda>r. row_nickname r = n) rows)), set_rows ''users'' rows d)"
  using assms
  by (auto simp: findByNickname_def bindP_run query_nicknames list_case_filter returnP_run liftP_run
      user_row_at dest!: find_SomeD split: option.split)

lemma getAllUsers_run:
  assumes "rows_of E ''users'' d = Inr rows" "\<forall>r \<in> set rows. user_row r"
  shows "getAllUsers E d = (Inr (map row_user rows), set_rows ''users'' rows d)"
  using assms by (simp add: getAllUsers_def bindP_run db_query_all_run mapP_lift user_row_at)

section \<open>Identifiers\<close>

fun next_user_id :: "row list \<Rightarrow> int \<Rightarrow> int" where
  "next_user_id [] maxId = maxId"
| "next_user_id (r # rs) maxId =
     next_user_id rs (if row_id r \<ge> maxId then row_id r + 1 else maxId)"

lemma next_user_id_above:
  "maxId \<le> next_user_id rows maxId \<and> (\<forall>r \<in> set rows. row_id r < next_user_id rows maxId)"
proof (induction rows arbitrary: maxId)
  case (Cons r rows)
  show ?case
    using Cons.IH [of maxId] Cons.IH [of "row_id r + 1"] by auto
qed simp

lemma max_user_id_run:
  "\<forall>r \<in> set rows. user_row r \<and> row_id r < 2147483647 \<Longrightarrow> max_user_id rows maxId = Inr (next_user_id rows maxId)"
proof (induction rows arbitrary: maxId)
  case (Cons r rows)
  then have "in_int32 (row_id r)" "row_id r < 2147483647" by (auto simp: user_row_at)
  then have "to_int32 (row_id r + 1) = row_id r + 1" by (simp add: in_int32_def)
  with Cons show ?case
    by (simp add: user_row_at as_int_def \<open>in_int32 (row_id r)\<close>)
qed simp

interpretation user_ids: id_supply "map row_id" "\<lambda>rows. next_user_id rows 1000" users_ok
  by unfold_locales (use next_user_id_above in auto)

section \<open>The operations on well-shaped rows\<close>

lemma update_ids:
  assumes "\<forall>r \<in> set rows. user_row r"
  shows "update_rows (id_is i) (\<lambda>r k. (u r, k)) rows k =
    (None, map (\<lambda>r. if row_id r = i then u r else r) rows, k, list_ex (\<lambda>r. row_id r = i) rows)"
proof -
  have "update_rows (id_is i) (\<lambda>r k. (u r, k)) rows k =
      update_rows (\<lambda>r. Inr (row_id r = i)) (\<lambda>r k. (u r, k)) rows k"
    by (rule update_rows_cong) (use assms in \<open>simp add: user_row_at\<close>)
  then show ?thesis by (simp add: update_rows_pure)
qed

lemma users_ok_map:
  assumes "users_ok rows" "\<And>r. r \<in> set rows \<Longrightarrow> user_row (u r) \<and> row_id (u r) = row_id r"
  shows "users_ok (map u rows)"
proof -
  have "map (row_id \<circ> u) rows = map row_id rows" using assms(2) by simp
  then have "distinct (map (row_id \<circ> u) rows)" using assms(1) by (simp only: users_ok_def)
  then show ?thesis using assms by (auto simp: users_ok_def)
qed

lemma user_row_upgrade [simp]:
  "user_row r \<Longrightarrow> user_row (upgrade_hash h r)" "row_id (upgrade_hash h r) = row_id r"
  "row_hash (upgrade_hash h r) = h" "passwordVersion (upgrade_hash h r) = 1"
  by (auto simp: user_row_def upgrade_hash_def obj_sets_def row_id_def row_hash_def passwordVersion_def
      is_number_def as_int_def as_string_def in_int32_def)

lemma user_row_profile [simp]:
  "user_row r \<Longrightarrow> in_int32 a \<Longrightarrow> user_row (set_profile n a r)"
  "row_id (set_profile n a r) = row_id r" "row_nickname (set_profile n a r) = n"
  "row_user (set_profile n a r) = (row_user r)\<lparr>u_nickname := n, u_avatar_id := a\<rparr>"
  by (auto simp: user_row_def set_profile_def obj_sets_def row_id_def row_nickname_def row_user_def
      row_hash_def as_int_def as_string_def)

lemma user_row_new:
  "in_int32 i \<Longrightarrow> in_int32 a \<Longrightarrow> user_row (new_user_row i h n a t)"
  "row_id (new_user_row i h n a t) = i" "row_nickname (new_user_row i h n a t) = n"
  "row_hash (new_user_row i h n a t) = h" "passwordVersion (new_user_row i h n a t) = 1"
  "row_user (new_user_row i h n a t) = \<lparr>u_id = i, u_password = h, u_nickname = n, u_avatar_id = a\<rparr>"
  by (auto simp: user_row_def new_user_row_def obj_sets_def row_id_def row_nickname_def row_hash_def
      row_user_def passwordVersion_def obj_find_def is_number_def as_int_def as_string_def in_int32_def)

lemma create_run:
  assumes r: "rows_of E ''users'' d = Inr rows" and ok: "users_ok rows"
    and new: "n \<notin> set (map row_nickname rows)"
    and h: "bcrypt_hash_password E pw 12 (set_rows ''users'' rows d)
      = (Inr h, (set_rows ''users'' rows d)\<lparr>rnds := Suc (rnds d)\<rparr>)"
  shows "\<exists>t d'. create E pw n a d = (Inr (next_user_id rows 1000), d') \<and>
    rows_of E ''users'' d' = Inr (rows @ [new_user_row (next_user_id rows 1000) h n a t])"
proof -
  have ur: "\<forall>r \<in> set rows. user_row r" and lt: "\<forall>r \<in> set rows. user_row r \<and> row_id r < 2147483647"
    using ok by (auto simp: users_ok_def)
  have "find (\<lambda>r. row_nickname r = n) rows = None" using new by (auto simp: find_None_iff)
  moreover have "rows_of E ''users'' ((set_rows ''users'' rows d)\<lparr>rnds := x, ticks := y\<rparr>) = Inr rows" for x y
    by (simp add: rows_of_def)
  moreover have "set_rows ''users'' rs (d'\<lparr>rnds := x, ticks := y\<rparr>) = (set_rows ''users'' rs d')\<lparr>rnds := x, ticks := y\<rparr>"
    for rs d' x y by (simp add: set_rows_def)
  ultimately show ?thesis
    using h by (simp add: create_def findByNickname_run [OF r ur] db_query_all_run max_user_id_run [OF lt]
        nowSeconds_def db_insert_run bindP_run thenP_run returnP_run liftP_run rows_of_def)
      blast
qed

lemma create_taken:
  assumes "rows_of E ''users'' d = Inr rows" "users_ok rows" "n \<in> set (map row_nickname rows)"
  shows "create E pw n a d = (Inr (- 1), set_rows ''users'' rows d)"
proof -
  have ur: "\<forall>r \<in> set rows. user_row r" using assms(2) by (simp add: users_ok_def)
  have "find (\<lambda>r. row_nickname r = n) rows \<noteq> None" using assms(3) by (auto simp: find_None_iff)
  then show ?thesis by (auto simp: create_def findByNickname_run [OF assms(1) ur] bindP_run returnP_run)
qed

lemma users_ok_snoc:
  "users_ok rows \<Longrightarrow> in_int32 a \<Longrightarrow> next_user_id rows 1000 < 2147483647 \<Longrightarrow>
     users_ok (rows @ [new_user_row (next_user_id rows 1000) h n a t])"
  using next_user_id_above [of 1000 rows] user_ids.fresh [of rows]
  by (auto simp: users_ok_def user_row_new in_int32_def)

lemma find_snoc: "find P (xs @ [x]) = (case find P xs of None \<Rightarrow> if P x then Some x else None | Some y \<Rightarrow> Some y)"
  by (induction xs) auto

lemma verify_current:
  assumes "rows_of E ''users'' d = Inr rows" "\<forall>r \<in> set rows. user_row r"
    "find (\<lambda>r. row_id r = i) rows = Some r" "passwordVersion r \<ge> 1"
  shows "verifyPassword E i pw d =
    (Inr (bcrypt_verify_password E pw (row_hash r)), set_rows ''users'' rows d)"
  using assms
  by (auto simp: verifyPassword_def bindP_run query_ids list_case_filter liftP_run returnP_run user_row_at
      as_string_def dest!: find_SomeD)

lemma verify_unknown:
  assumes "rows_of E ''users'' d = Inr rows" "\<forall>r \<in> set rows. user_row r" "i \<notin> set (map row_id rows)"
  shows "verifyPassword E i pw d = (Inr False, set_rows ''users'' rows d)"
proof -
  have "filter (\<lambda>r. row_id r = i) rows = []" using assms(3) by (auto simp: filter_empty_conv)
  with assms show ?thesis by (simp add: verifyPassword_def bindP_run query_ids returnP_run)
qed

lemma verify_old:
  assumes r: "rows_of E ''users'' d = Inr rows" and ur: "\<forall>r \<in> set rows. user_row r"
    and f: "find (\<lambda>r. row_id r = i) rows = Some r" and v: "passwordVersion r < 1"
  shows "\<not> verify_hash pw (row_hash r) \<Longrightarrow> verifyPassword E i pw d = (Inr False, set_rows ''users'' rows d)"
    and "verify_hash pw (row_hash r) \<Longrightarrow>
      bcrypt_hash_password E pw 12 (set_rows ''users'' rows d)
        = (Inr h, (set_rows ''users'' rows d)\<lparr>rnds := Suc (rnds d)\<rparr>) \<Longrightarrow>
      \<exists>d'. verifyPassword E i pw d = (Inr True, d') \<and>
        rows_of E ''users'' d' = Inr (map (\<lambda>r. if row_id r = i then upgrade_hash h r else r) rows)"
proof -
  have q: "verifyPassword E i pw d =
      (if \<not> verify_hash pw (row_hash r) then (Inr False, set_rows ''users'' rows d)
       else bindP (bcrypt_hash_password E pw 12) (\<lambda>upgraded.
               thenP (db_update E ''users'' (id_is i) (\<lambda>r k. (upgrade_hash upgraded r, k)))
                 (returnP True)) (set_rows ''users'' rows d))"
    using r ur f v
    by (auto simp: verifyPassword_def bindP_run query_ids list_case_filter liftP_run returnP_run user_row_at
        as_string_def Let_def dest!: find_SomeD)
  show "\<not> verify_hash pw (row_hash r) \<Longrightarrow> verifyPassword E i pw d = (Inr False, set_rows ''users'' rows d)"
    by (simp add: q)
  have "rows_of E ''users'' ((set_rows ''users'' rows d)\<lparr>rnds := x\<rparr>) = Inr rows" for x
    by (simp add: rows_of_def)
  moreover have "set_rows ''users'' rs (d'\<lparr>rnds := x\<rparr>) = (set_rows ''users'' rs d')\<lparr>rnds := x\<rparr>"
    for rs d' x by (simp add: set_rows_def)
  ultimately show "verify_hash pw (row_hash r) \<Longrightarrow>
      bcrypt_hash_password E pw 12 (set_rows ''users'' rows d)
        = (Inr h, (set_rows ''users'' rows d)\<lparr>rnds := Suc (rnds d)\<rparr>) \<Longrightarrow>
      \<exists>d'. verifyPassword E i pw d = (Inr True, d') \<and>
        rows_of E ''users'' d' = Inr (map (\<lambda>r. if row_id r = i then upgrade_hash h r else r) rows)"
    by (simp add: q bindP_run thenP_run returnP_run db_update_run update_ids [OF ur] rows_of_def)
qed

lemma bcrypt_hash_set_rows:
  "bcrypt_ok E \<Longrightarrow> \<exists>h. bcrypt_hash_password E pw 12 (set_rows n rows d)
      = (Inr h, (set_rows n rows d)\<lparr>rnds := Suc (rnds d)\<rparr>) \<and>
    NUL \<notin> set h \<and> bcrypt_verify_password E pw h"
  using bcrypt_hash_verifies [of E pw "set_rows n rows d"] by simp

section \<open>Properties\<close>

text \<open>Creating an account with a nickname that is taken returns -1 and adds no row. Otherwise it
  adds one row and keeps all others; the new identifier is at least 1000 and belongs to no other
  account, the account is found by its identifier and by its nickname, and the password it was
  created with is accepted. The rows keep their shape and their distinct identifiers.\<close>

theorem create_account:
  assumes r: "rows_of E ''users'' d = Inr rows" and ok: "users_ok rows" and b: "bcrypt_ok E"
    and a: "in_int32 avatar" and full: "next_user_id rows 1000 < 2147483647"
  shows "if nick \<in> set (map row_nickname rows)
    then \<exists>d'. create E pw nick avatar d = (Inr (- 1), d') \<and> rows_of E ''users'' d' = Inr rows
    else \<exists>d' i row. create E pw nick avatar d = (Inr i, d') \<and>
      rows_of E ''users'' d' = Inr (rows @ [row]) \<and> users_ok (rows @ [row]) \<and>
      1000 \<le> i \<and> i \<notin> set (map row_id rows) \<and>
      row_user row = \<lparr>u_id = i, u_password = row_hash row, u_nickname = nick, u_avatar_id = avatar\<rparr> \<and>
      fst (findById E i d') = Inr (Some (row_user row)) \<and>
      fst (findByNickname E nick d') = Inr (Some (row_user row)) \<and>
      fst (verifyPassword E i pw d') = Inr True"
proof (cases "nick \<in> set (map row_nickname rows)")
  case True
  then show ?thesis using create_taken [OF r ok True] by simp
next
  case False
  let ?i = "next_user_id rows 1000"
  obtain h where h: "bcrypt_hash_password E pw 12 (set_rows ''users'' rows d)
      = (Inr h, (set_rows ''users'' rows d)\<lparr>rnds := Suc (rnds d)\<rparr>)" "bcrypt_verify_password E pw h"
    using bcrypt_hash_set_rows [OF b] by blast
  obtain t d' where c: "create E pw nick avatar d = (Inr ?i, d')"
      "rows_of E ''users'' d' = Inr (rows @ [new_user_row ?i h nick avatar t])"
    using create_run [OF r ok False h(1)] by blast
  let ?row = "new_user_row ?i h nick avatar t"
  have ok': "users_ok (rows @ [?row])" by (rule users_ok_snoc [OF ok a full])
  then have ur: "\<forall>r \<in> set (rows @ [?row]). user_row r" by (rule users_okD)
  have new: "?i \<notin> set (map row_id rows)" using user_ids.fresh [OF ok] .
  have fi: "find (\<lambda>r. row_id r = ?i) (rows @ [?row]) = Some ?row"
    using new by (force simp: find_snoc user_row_new split: option.split dest!: find_SomeD)
  have fn: "find (\<lambda>r. row_nickname r = nick) (rows @ [?row]) = Some ?row"
    using False by (force simp: find_snoc user_row_new split: option.split dest!: find_SomeD)
  have v: "fst (verifyPassword E ?i pw d') = Inr True"
    using verify_current [OF c(2) ur fi] h(2) by (simp add: user_row_new)
  have "1000 \<le> ?i" using next_user_id_above [of 1000 rows] by blast
  moreover have "fst (findById E ?i d') = Inr (Some (row_user ?row))"
    using fi by (simp add: findById_run [OF c(2) ur] user_row_new)
  moreover have "fst (findByNickname E nick d') = Inr (Some (row_user ?row))"
    using fn by (simp add: findByNickname_run [OF c(2) ur])
  ultimately show ?thesis
    unfolding if_not_P [OF False] using c ok' new v
    by (intro exI [of _ d'] exI [of _ ?i] exI [of _ ?row]) (simp add: user_row_new)
qed

theorem create_account_witness:
  "\<exists>d' i row. create ref_env ''pw'' ''bob'' 7
       \<lparr>data_dir = ''data'', db_handle = None,
        tables = [''users'' \<mapsto> [new_user_row 1000 ''$2b$12$x'' ''alice'' 3 1700000000]], ticks = 0, rnds = 0\<rparr>
     = (Inr i, d') \<and> 1000 \<le> i \<and> i \<noteq> 1000 \<and> fst (verifyPassword ref_env i ''pw'' d') = Inr True"
  using create_account [of ref_env "\<lparr>data_dir = ''data'', db_handle = None,
        tables = [''users'' \<mapsto> [new_user_row 1000 ''$2b$12$x'' ''alice'' 3 1700000000]], ticks = 0, rnds = 0\<rparr>"
      "[new_user_row 1000 ''$2b$12$x'' ''alice'' 3 1700000000]" 7 "''bob''" "''pw''"] ref_env_bcrypt
  by (auto simp: users_ok_def user_row_new in_int32_def)

text \<open>C21: The first login with an account from before bcrypt moves it to bcrypt: a wrong password is
  refused and changes nothing, the right one is accepted and replaces the stored hash of that
  account, and of no other, by a bcrypt hash that accepts the password at the next login. The rows
  keep their shape and their identifiers.\<close>

theorem old_hash_upgraded:
  assumes r: "rows_of E ''users'' d = Inr rows" and ok: "users_ok rows" and b: "bcrypt_ok E"
    and f: "find (\<lambda>r. row_id r = i) rows = Some row" and v: "passwordVersion row < 1"
  shows "if verify_hash pw (row_hash row)
    then \<exists>h d'. verifyPassword E i pw d = (Inr True, d') \<and>
      rows_of E ''users'' d' = Inr (map (\<lambda>r. if row_id r = i then upgrade_hash h r else r) rows) \<and>
      users_ok (map (\<lambda>r. if row_id r = i then upgrade_hash h r else r) rows) \<and>
      fst (verifyPassword E i pw d') = Inr True
    else \<exists>d'. verifyPassword E i pw d = (Inr False, d') \<and> rows_of E ''users'' d' = Inr rows"
proof -
  have ur: "\<forall>r \<in> set rows. user_row r" using ok by (rule users_okD)
  obtain h where h: "bcrypt_hash_password E pw 12 (set_rows ''users'' rows d)
      = (Inr h, (set_rows ''users'' rows d)\<lparr>rnds := Suc (rnds d)\<rparr>)" "bcrypt_verify_password E pw h"
    using bcrypt_hash_set_rows [OF b] by blast
  let ?rows = "map (\<lambda>r. if row_id r = i then upgrade_hash h r else r) rows"
  have ok': "users_ok ?rows" by (rule users_ok_map [OF ok]) (use ur in simp)
  then have ur': "\<forall>r \<in> set ?rows. user_row r" by (rule users_okD)
  have f': "find (\<lambda>r. row_id r = i) ?rows = Some (upgrade_hash h row)"
    using f by (induction rows) (auto split: if_splits)
  note old = verify_old [OF r ur f v]
  show ?thesis
  proof (cases "verify_hash pw (row_hash row)")
    case True
    obtain d' where d': "verifyPassword E i pw d = (Inr True, d')" "rows_of E ''users'' d' = Inr ?rows"
      using old(2) [OF True h(1)] by blast
    have "fst (verifyPassword E i pw d') = Inr True"
      using verify_current [OF d'(2) ur' f'] h(2) by simp
    with True d' ok' show ?thesis by auto
  qed (simp add: old(1))
qed

theorem old_hash_upgraded_witness:
  "\<exists>d'. verifyPassword ref_env 1000 ''pw''
       \<lparr>data_dir = ''data'', db_handle = None,
        tables = [''users'' \<mapsto> [obj_set ''password_version'' (JInt 0) (new_user_row 1000 ''pw'' ''alice'' 3 1700000000)]],
        ticks = 0, rnds = 0\<rparr>
     = (Inr True, d') \<and> fst (verifyPassword ref_env 1000 ''pw'' d') = Inr True"
proof -
  let ?r = "obj_set ''password_version'' (JInt 0) (new_user_row 1000 ''pw'' ''alice'' 3 1700000000)"
  have "user_row ?r" "row_id ?r = 1000" "row_hash ?r = ''pw''" "passwordVersion ?r = 0"
    by (simp_all add: user_row_def row_id_def row_hash_def passwordVersion_def new_user_row_def obj_sets_def
        obj_find_def is_number_def as_int_def as_string_def in_int32_def)
  then show ?thesis
    using old_hash_upgraded [of ref_env "\<lparr>data_dir = ''data'', db_handle = None,
        tables = [''users'' \<mapsto> [?r]], ticks = 0, rnds = 0\<rparr>" "[?r]" 1000 ?r "''pw''"] ref_env_bcrypt
    by (auto simp: users_ok_def verify_hash_def)
qed

text \<open>Updating a profile changes the nickname and the avatar of the account with that identifier
  and of no other, answers whether there is such an account, and leaves every account findable
  under its identifier.\<close>

theorem profile_update:
  assumes r: "rows_of E ''users'' d = Inr rows" and ok: "users_ok rows" and a: "in_int32 avatar"
  shows "\<exists>d' rows'. updateProfile E i nick avatar d = (Inr (i \<in> set (map row_id rows)), d') \<and>
    rows_of E ''users'' d' = Inr rows' \<and> users_ok rows' \<and> map row_id rows' = map row_id rows \<and>
    (\<forall>j. fst (findById E j d') = Inr (map_option
       (\<lambda>u. if j = i then u\<lparr>u_nickname := nick, u_avatar_id := avatar\<rparr> else u)
       (map_option row_user (find (\<lambda>r. row_id r = j) rows))))"
proof -
  have ur: "\<forall>r \<in> set rows. user_row r" using ok by (rule users_okD)
  let ?u = "\<lambda>r. if row_id r = i then set_profile nick avatar r else r"
  have ok': "users_ok (map ?u rows)" by (rule users_ok_map [OF ok]) (use ur a in simp)
  then have ur': "\<forall>r \<in> set (map ?u rows). user_row r" by (rule users_okD)
  have id: "row_id (?u r) = row_id r" for r by simp
  have fnd: "map_option row_user (find (\<lambda>r. row_id r = j) (map ?u rows)) = map_option
       (\<lambda>u. if j = i then u\<lparr>u_nickname := nick, u_avatar_id := avatar\<rparr> else u)
       (map_option row_user (find (\<lambda>r. row_id r = j) rows))" for j
    by (induction rows) (auto split: if_splits)
  have ex: "list_ex (\<lambda>r. row_id r = i) rows \<longleftrightarrow> i \<in> set (map row_id rows)"
    by (auto simp: list_ex_iff)
  obtain d' where d': "updateProfile E i nick avatar d = (Inr (i \<in> set (map row_id rows)), d')"
      "rows_of E ''users'' d' = Inr (map ?u rows)"
    using r by (simp add: updateProfile_def db_update_run update_ids [OF ur] ex del: set_map)
  show ?thesis
    using d' ok' fnd by (intro exI [of _ d'] exI [of _ "map ?u rows"]) (simp add: findById_run [OF d'(2) ur'] comp_def)
qed

theorem profile_update_witness:
  "\<exists>d'. updateProfile ref_env 1000 ''carol'' 9
       \<lparr>data_dir = ''data'', db_handle = None,
        tables = [''users'' \<mapsto> [new_user_row 1000 ''$2b$12$x'' ''alice'' 3 1700000000]], ticks = 0, rnds = 0\<rparr>
     = (Inr True, d') \<and> fst (findById ref_env 1000 d')
     = Inr (Some \<lparr>u_id = 1000, u_password = ''$2b$12$x'', u_nickname = ''carol'', u_avatar_id = 9\<rparr>)"
  using profile_update [of ref_env "\<lparr>data_dir = ''data'', db_handle = None,
        tables = [''users'' \<mapsto> [new_user_row 1000 ''$2b$12$x'' ''alice'' 3 1700000000]], ticks = 0, rnds = 0\<rparr>"
      "[new_user_row 1000 ''$2b$12$x'' ''alice'' 3 1700000000]" 9 1000 "''carol''"]
  by (auto simp: users_ok_def user_row_new in_int32_def)

end
