(* ===== verification/MessageRepository.thy ===== *)
theory MessageRepository
  imports Database
begin

text \<open>
  The messages: \<^verbatim>\<open>src/server/src/db/MessageRepository.cpp\<close>. The predicates and updaters that the
  C++ code passes to the database are definitions of their own; none of them throws.

  Shown here: the row of a message reads back as the message, new identifiers are new, what the
  history, the search and the delivery of offline messages return, and who may edit and delete.
\<close>

section \<open>Messages and rows\<close>

record StoredMessage =
  msg_id :: int
  from_id :: int
  to_id :: int
  group_id :: int
  content :: string
  content_type :: string
  timestamp :: int
  delivered :: bool
  msg_read :: bool
  edited :: bool
  deleted :: bool
  edited_at :: int
  deleted_at :: int
  reactions :: string

definition new_message :: StoredMessage where
  "new_message = \<lparr>msg_id = 0, from_id = 0, to_id = 0, group_id = 0, content = [], content_type = ''text'',
     timestamp = 0, delivered = False, msg_read = False, edited = False, deleted = False,
     edited_at = 0, deleted_at = 0, reactions = []\<rparr>"

definition asInt :: "row \<Rightarrow> string \<Rightarrow> int \<Rightarrow> int" where
  "asInt row key fallback =
     (case obj_find row key of
        None \<Rightarrow> fallback
      | Some v \<Rightarrow> if \<not> is_number v then fallback else to_int32 (as_int v))"

definition asInt64 :: "row \<Rightarrow> string \<Rightarrow> int \<Rightarrow> int" where
  "asInt64 row key fallback =
     (case obj_find row key of
        None \<Rightarrow> fallback
      | Some v \<Rightarrow> if \<not> is_number v then fallback else as_int v)"

definition asString :: "row \<Rightarrow> string \<Rightarrow> string \<Rightarrow> string" where
  "asString row key fallback =
     (case obj_find row key of
        None \<Rightarrow> fallback
      | Some v \<Rightarrow> if \<not> is_string v then fallback else as_string v)"

definition asBool :: "row \<Rightarrow> string \<Rightarrow> bool \<Rightarrow> bool" where
  "asBool row key fallback =
     (case obj_find row key of
        None \<Rightarrow> fallback
      | Some v \<Rightarrow>
          if is_bool v then as_bool v
          else if is_number v then as_int v \<noteq> 0
          else fallback)"

definition toRow :: "StoredMessage \<Rightarrow> row" where
  "toRow m = obj_sets []
     [(''msg_id'', JInt (msg_id m)), (''from_id'', JInt (from_id m)), (''to_id'', JInt (to_id m)),
      (''group_id'', JInt (group_id m)), (''content'', JString (content m)),
      (''content_type'', JString (content_type m)), (''timestamp'', JInt (timestamp m)),
      (''delivered'', JBool (delivered m)), (''read'', JBool (msg_read m)), (''edited'', JBool (edited m)),
      (''deleted'', JBool (deleted m)), (''edited_at'', JInt (edited_at m)),
      (''deleted_at'', JInt (deleted_at m)), (''reactions'', JString (reactions m))]"

definition fromRow :: "row \<Rightarrow> StoredMessage" where
  "fromRow row =
     \<lparr>msg_id = asInt64 row ''msg_id'' 0, from_id = asInt row ''from_id'' 0, to_id = asInt row ''to_id'' 0,
      group_id = asInt row ''group_id'' 0, content = asString row ''content'' [],
      content_type = asString row ''content_type'' ''text'', timestamp = asInt64 row ''timestamp'' 0,
      delivered = asBool row ''delivered'' False, msg_read = asBool row ''read'' False,
      edited = asBool row ''edited'' False, deleted = asBool row ''deleted'' False,
      edited_at = asInt64 row ''edited_at'' 0, deleted_at = asInt64 row ''deleted_at'' 0,
      reactions = asString row ''reactions'' []\<rparr>"

section \<open>Operations\<close>

definition trimToLimit :: "'db env \<Rightarrow> StoredMessage list \<Rightarrow> int \<Rightarrow> StoredMessage list" where
  "trimToLimit E messages limit =
     (let sorted = map ((!) messages) (sort_perm E (map timestamp messages))
      in if limit > 0 \<and> length sorted > nat limit then drop (length sorted - nat limit) sorted else sorted)"

definition new_message_repository :: "'db env \<Rightarrow> ('db database, unit) prog" where
  "new_message_repository E = ensureTable E ''messages''"

text \<open>\<open>maxId + 1\<close> is on \<open>std::int64_t\<close>.\<close>

definition nextMessageId :: "'db env \<Rightarrow> ('db database, int) prog" where
  "nextMessageId E =
     bindP (db_query_all E ''messages'') (\<lambda>rows.
       returnP (to_int64 (fold (\<lambda>row maxId. max maxId (asInt64 row ''msg_id'' 0)) rows 0 + 1)))"

definition savePrivate ::
  "'db env \<Rightarrow> int \<Rightarrow> int \<Rightarrow> string \<Rightarrow> string \<Rightarrow> bool \<Rightarrow> ('db database, StoredMessage) prog" where
  "savePrivate E fromId toId txt contentType isDelivered =
     bindP (nextMessageId E) (\<lambda>i.
     bindP (nowSeconds E) (\<lambda>now.
       let message = new_message\<lparr>msg_id := i, from_id := fromId, to_id := toId, content := txt,
             content_type := (if contentType = [] then ''text'' else contentType), timestamp := now,
             delivered := isDelivered\<rparr>
       in thenP (db_insert E ''messages'' (toRow message)) (returnP message)))"

definition saveGroup ::
  "'db env \<Rightarrow> int \<Rightarrow> int \<Rightarrow> string \<Rightarrow> string \<Rightarrow> ('db database, StoredMessage) prog" where
  "saveGroup E fromId groupId txt contentType =
     bindP (nextMessageId E) (\<lambda>i.
     bindP (nowSeconds E) (\<lambda>now.
       let message = new_message\<lparr>msg_id := i, from_id := fromId, group_id := groupId, content := txt,
             content_type := (if contentType = [] then ''text'' else contentType), timestamp := now,
             delivered := True\<rparr>
       in thenP (db_insert E ''messages'' (toRow message)) (returnP message)))"

definition has_id :: "int \<Rightarrow> row \<Rightarrow> bool" where
  "has_id i row \<longleftrightarrow> asInt64 row ''msg_id'' 0 = i"

definition markDelivered :: "'db env \<Rightarrow> int \<Rightarrow> ('db database, unit) prog" where
  "markDelivered E msgId =
     bindP (db_update E ''messages'' (\<lambda>row. Inr (has_id msgId row))
       (\<lambda>row k. (obj_set ''delivered'' (JBool True) row, k))) (\<lambda>_. returnP ())"

definition is_offline_for :: "int \<Rightarrow> row \<Rightarrow> bool" where
  "is_offline_for userId row \<longleftrightarrow>
     asInt row ''to_id'' 0 = userId \<and> asInt row ''group_id'' 0 = 0 \<and> \<not> asBool row ''delivered'' False"

definition offlineForUser :: "'db env \<Rightarrow> int \<Rightarrow> int \<Rightarrow> ('db database, StoredMessage list) prog" where
  "offlineForUser E userId limit =
     bindP (db_query E ''messages'' (\<lambda>row. Inr (is_offline_for userId row))) (\<lambda>rows.
       let messages = trimToLimit E (map fromRow rows) limit
       in thenP (forP messages (\<lambda>m. markDelivered E (msg_id m))) (returnP messages))"

definition is_between :: "int \<Rightarrow> int \<Rightarrow> row \<Rightarrow> bool" where
  "is_between userA userB row \<longleftrightarrow>
     (let from = asInt row ''from_id'' 0; to = asInt row ''to_id'' 0
      in asInt row ''group_id'' 0 = 0 \<and>
         (from = userA \<and> to = userB \<or> from = userB \<and> to = userA))"

definition privateHistory :: "'db env \<Rightarrow> int \<Rightarrow> int \<Rightarrow> int \<Rightarrow> ('db database, StoredMessage list) prog" where
  "privateHistory E userA userB limit =
     bindP (db_query E ''messages'' (\<lambda>row. Inr (is_between userA userB row))) (\<lambda>rows.
       returnP (trimToLimit E (map fromRow rows) limit))"

definition groupHistory :: "'db env \<Rightarrow> int \<Rightarrow> int \<Rightarrow> ('db database, StoredMessage list) prog" where
  "groupHistory E groupId limit =
     bindP (db_query E ''messages'' (\<lambda>row. Inr (asInt row ''group_id'' 0 = groupId))) (\<lambda>rows.
       returnP (trimToLimit E (map fromRow rows) limit))"

definition search :: "'db env \<Rightarrow> string \<Rightarrow> int \<Rightarrow> ('db database, StoredMessage list) prog" where
  "search E keyword limit =
     (if keyword = [] then returnP []
      else
        bindP (db_query E ''messages'' (\<lambda>row. Inr (str_contains keyword (asString row ''content'' [])))) (\<lambda>rows.
          returnP (trimToLimit E (map fromRow rows) limit)))"

definition can_edit :: "int \<Rightarrow> int \<Rightarrow> string \<Rightarrow> row \<Rightarrow> bool" where
  "can_edit msgId actorId txt row \<longleftrightarrow>
     has_id msgId row \<and> asInt row ''from_id'' 0 = actorId \<and> \<not> asBool row ''deleted'' False \<and> txt \<noteq> []"

definition edit_row :: "string \<Rightarrow> int \<Rightarrow> row \<Rightarrow> row" where
  "edit_row txt now row = obj_sets row
     [(''content'', JString txt), (''edited'', JBool True), (''edited_at'', JInt now)]"

definition edit :: "'db env \<Rightarrow> int \<Rightarrow> int \<Rightarrow> string \<Rightarrow> ('db database, bool) prog" where
  "edit E msgId actorId txt =
     db_update E ''messages'' (\<lambda>row. Inr (can_edit msgId actorId txt row))
       (\<lambda>row k. (edit_row txt (to_int64 (clock E k)) row, Suc k))"

definition can_delete :: "int \<Rightarrow> int \<Rightarrow> row \<Rightarrow> bool" where
  "can_delete msgId actorId row \<longleftrightarrow>
     has_id msgId row \<and> asInt row ''from_id'' 0 = actorId \<and> \<not> asBool row ''deleted'' False"

definition delete_row :: "int \<Rightarrow> row \<Rightarrow> row" where
  "delete_row now row = obj_sets row
     [(''content'', JString []), (''deleted'', JBool True), (''deleted_at'', JInt now)]"

definition softDelete :: "'db env \<Rightarrow> int \<Rightarrow> int \<Rightarrow> ('db database, bool) prog" where
  "softDelete E msgId actorId =
     db_update E ''messages'' (\<lambda>row. Inr (can_delete msgId actorId row))
       (\<lambda>row k. (delete_row (to_int64 (clock E k)) row, Suc k))"

definition react_row :: "string \<Rightarrow> row \<Rightarrow> row" where
  "react_row encoded row =
     (let current = asString row ''reactions'' [] in
      if str_contains encoded current then row
      else obj_set ''reactions'' (JString (if current = [] then encoded else current @ '','' @ encoded)) row)"

definition addReaction :: "'db env \<Rightarrow> int \<Rightarrow> int \<Rightarrow> string \<Rightarrow> ('db database, bool) prog" where
  "addReaction E msgId actorId reaction =
     (if reaction = [] then returnP False
      else
        let encoded = to_string actorId @ '':'' @ reaction
        in db_update E ''messages'' (\<lambda>row. Inr (has_id msgId row \<and> \<not> asBool row ''deleted'' False))
             (\<lambda>row k. (react_row encoded row, k)))"

definition read_row :: "int \<Rightarrow> row \<Rightarrow> row" where
  "read_row readerId row = obj_sets row [(''read'', JBool True), (''read_by'', JInt readerId)]"

definition markRead :: "'db env \<Rightarrow> int \<Rightarrow> int \<Rightarrow> ('db database, bool) prog" where
  "markRead E msgId readerId =
     db_update E ''messages'' (\<lambda>row. Inr (has_id msgId row)) (\<lambda>row k. (read_row readerId row, k))"

section \<open>Rows of messages\<close>

definition wf_message :: "StoredMessage \<Rightarrow> bool" where
  "wf_message m \<longleftrightarrow> in_int64 (msg_id m) \<and> in_int32 (from_id m) \<and> in_int32 (to_id m) \<and>
     in_int32 (group_id m) \<and> in_int64 (timestamp m) \<and> in_int64 (edited_at m) \<and> in_int64 (deleted_at m)"

lemmas field_defs = asInt_def asInt64_def asString_def asBool_def is_number_def is_string_def is_bool_def
  as_int_def as_string_def as_bool_def

text \<open>The rows as \<open>toRow\<close> lays them out, keys in order.\<close>

lemma toRow_eq:
  "toRow m = [(''content'', JString (content m)), (''content_type'', JString (content_type m)),
     (''deleted'', JBool (deleted m)), (''deleted_at'', JInt (deleted_at m)),
     (''delivered'', JBool (delivered m)), (''edited'', JBool (edited m)),
     (''edited_at'', JInt (edited_at m)), (''from_id'', JInt (from_id m)),
     (''group_id'', JInt (group_id m)), (''msg_id'', JInt (msg_id m)),
     (''reactions'', JString (reactions m)), (''read'', JBool (msg_read m)),
     (''timestamp'', JInt (timestamp m)), (''to_id'', JInt (to_id m))]"
  by (simp add: toRow_def obj_sets_def)

lemma toRow_find [simp]:
  "obj_find (toRow m) ''msg_id'' = Some (JInt (msg_id m))"
  "obj_find (toRow m) ''from_id'' = Some (JInt (from_id m))"
  "obj_find (toRow m) ''to_id'' = Some (JInt (to_id m))"
  "obj_find (toRow m) ''group_id'' = Some (JInt (group_id m))"
  "obj_find (toRow m) ''content'' = Some (JString (content m))"
  "obj_find (toRow m) ''content_type'' = Some (JString (content_type m))"
  "obj_find (toRow m) ''timestamp'' = Some (JInt (timestamp m))"
  "obj_find (toRow m) ''delivered'' = Some (JBool (delivered m))"
  "obj_find (toRow m) ''read'' = Some (JBool (msg_read m))"
  "obj_find (toRow m) ''edited'' = Some (JBool (edited m))"
  "obj_find (toRow m) ''deleted'' = Some (JBool (deleted m))"
  "obj_find (toRow m) ''edited_at'' = Some (JInt (edited_at m))"
  "obj_find (toRow m) ''deleted_at'' = Some (JInt (deleted_at m))"
  "obj_find (toRow m) ''reactions'' = Some (JString (reactions m))"
  by (simp_all add: toRow_eq obj_find_def)

lemma fromRow_toRow: "wf_message m \<Longrightarrow> fromRow (toRow m) = m"
  by (rule StoredMessage.equality) (simp_all add: fromRow_def wf_message_def field_defs)

lemma row_msg_id: "msg_id (fromRow r) = asInt64 r ''msg_id'' 0"
  by (simp add: fromRow_def)

lemma storable_toRow:
  assumes "wf_message m" "NUL \<notin> set (content m)" "NUL \<notin> set (content_type m)" "NUL \<notin> set (reactions m)"
  shows "storable (toRow m)"
  using assms in_int32_int64 by (simp add: storable_def toRow_eq wf_message_def NUL_def)

section \<open>Sorting and trimming\<close>

lemma sorted_messages:
  assumes "sort_ok E"
  shows "mset (map ((!) ms) (sort_perm E (map timestamp ms))) = mset ms"
    and "sorted (map timestamp (map ((!) ms) (sort_perm E (map timestamp ms))))"
proof -
  let ?p = "sort_perm E (map timestamp ms)"
  have p: "mset ?p = mset [0..<length ms]" "sorted (map ((!) (map timestamp ms)) ?p)"
    using assms unfolding sort_ok_def by (metis length_map)+
  have "mset (map ((!) ms) ?p) = mset (map ((!) ms) [0..<length ms])" using p(1) by (simp only: mset_map)
  then show "mset (map ((!) ms) ?p) = mset ms" by (simp only: map_nth)
  have "\<forall>i \<in> set ?p. i < length ms" using mset_eq_setD [OF p(1)] by auto
  then have "map timestamp (map ((!) ms) ?p) = map ((!) (map timestamp ms)) ?p" by simp
  then show "sorted (map timestamp (map ((!) ms) ?p))" using p(2) by (simp only:)
qed

lemma trim_spec:
  assumes "sort_ok E"
  obtains older where
    "mset ms = mset older + mset (trimToLimit E ms limit)"
    "sorted (map timestamp (older @ trimToLimit E ms limit))"
    "length (trimToLimit E ms limit) = (if limit > 0 then min (nat limit) (length ms) else length ms)"
proof -
  let ?s = "map ((!) ms) (sort_perm E (map timestamp ms))"
  let ?k = "if limit > 0 \<and> length ?s > nat limit then length ?s - nat limit else 0"
  note s = sorted_messages [OF assms, of ms]
  have t: "trimToLimit E ms limit = drop ?k ?s" by (simp add: trimToLimit_def Let_def)
  have l: "length ?s = length ms" using s(1) by (metis size_mset)
  have a: "take ?k ?s @ trimToLimit E ms limit = ?s" by (simp add: t del: drop_map take_map)
  have "mset ms = mset (take ?k ?s) + mset (trimToLimit E ms limit)"
    using s(1) a by (metis mset_append)
  moreover have "sorted (map timestamp (take ?k ?s @ trimToLimit E ms limit))"
    using s(2) a by simp
  moreover have "length (trimToLimit E ms limit) = (if limit > 0 then min (nat limit) (length ms) else length ms)"
    using l by (auto simp: t)
  ultimately show ?thesis by (rule that)
qed

lemma ref_env_sort: "sort_ok ref_env"
  unfolding sort_ok_def ref_env_def by simp

section \<open>The operations on the rows\<close>

lemma query_messages:
  "rows_of E ''messages'' d = Inr rows \<Longrightarrow>
     db_query E ''messages'' (\<lambda>r. Inr (p r)) d = (Inr (filter p rows), set_rows ''messages'' rows d)"
  by (simp add: db_query_run)

lemma update_messages:
  assumes "rows_of E ''messages'' d = Inr rows"
    "update_rows p u rows (ticks d) = (None, rows', k, c)"
  shows "\<exists>d'. db_update E ''messages'' p u d = (Inr c, d') \<and> rows_of E ''messages'' d' = Inr rows'"
  using assms by (simp add: db_update_run)

definition next_msg_id :: "row list \<Rightarrow> int" where
  "next_msg_id rows = fold (\<lambda>row maxId. max maxId (asInt64 row ''msg_id'' 0)) rows 0 + 1"

lemma fold_max_above:
  "m \<le> fold (\<lambda>row maxId. max maxId (f row)) rows m \<and> (\<forall>r \<in> set rows. f r \<le> fold (\<lambda>row maxId. max maxId (f row)) rows (m :: int))"
proof (induction rows arbitrary: m)
  case (Cons r rows)
  show ?case using Cons.IH [of "max m (f r)"] by auto
qed simp

interpretation message_ids:
  id_supply "map (\<lambda>r. asInt64 r ''msg_id'' 0)" next_msg_id "\<lambda>_. True"
proof unfold_locales
  fix rs i assume "i \<in> set (map (\<lambda>r. asInt64 r ''msg_id'' 0) rs)"
  then show "i < next_msg_id rs"
    using fold_max_above [of 0 "\<lambda>r. asInt64 r ''msg_id'' 0" rs] by (auto simp: next_msg_id_def)
qed

lemma next_msg_id_pos: "1 \<le> next_msg_id rows"
  using fold_max_above [of 0 "\<lambda>r. asInt64 r ''msg_id'' 0" rows] by (auto simp: next_msg_id_def)

lemma nextMessageId_run:
  "rows_of E ''messages'' d = Inr rows \<Longrightarrow> in_int64 (next_msg_id rows) \<Longrightarrow>
     nextMessageId E d = (Inr (next_msg_id rows), set_rows ''messages'' rows d)"
  by (simp add: nextMessageId_def db_query_all_run bindP_run returnP_run next_msg_id_def)

lemma insert_run:
  "rows_of E n d = Inr rows \<Longrightarrow>
     \<exists>d'. db_insert E n r (d\<lparr>ticks := k\<rparr>) = (Inr (), d') \<and> rows_of E n d' = Inr (rows @ [r])"
  by (simp add: db_insert_run)

lemma savePrivate_run:
  assumes "rows_of E ''messages'' d = Inr rows" "in_int64 (next_msg_id rows)"
  shows "\<exists>t d'. in_int64 t \<and> savePrivate E f u c ct del d =
      (Inr (new_message\<lparr>msg_id := next_msg_id rows, from_id := f, to_id := u, content := c,
         content_type := (if ct = [] then ''text'' else ct), timestamp := t, delivered := del\<rparr>), d') \<and>
    rows_of E ''messages'' d' = Inr (rows @ [toRow (new_message\<lparr>msg_id := next_msg_id rows, from_id := f,
         to_id := u, content := c, content_type := (if ct = [] then ''text'' else ct), timestamp := t,
         delivered := del\<rparr>)])"
proof -
  let ?t = "to_int64 (clock E (ticks d))"
  let ?m = "new_message\<lparr>msg_id := next_msg_id rows, from_id := f, to_id := u, content := c,
      content_type := (if ct = [] then ''text'' else ct), timestamp := ?t, delivered := del\<rparr>"
  have "rows_of E ''messages'' (set_rows ''messages'' rows d) = Inr rows" by simp
  then obtain d' where d': "db_insert E ''messages'' (toRow ?m)
      ((set_rows ''messages'' rows d)\<lparr>ticks := Suc (ticks d)\<rparr>) = (Inr (), d')"
      "rows_of E ''messages'' d' = Inr (rows @ [toRow ?m])"
    using insert_run by blast
  then show ?thesis
    by (intro exI [of _ ?t] exI [of _ d'])
       (simp add: savePrivate_def nextMessageId_run [OF assms] bindP_run thenP_run returnP_run nowSeconds_def Let_def)
qed

lemma saveGroup_run:
  assumes "rows_of E ''messages'' d = Inr rows" "in_int64 (next_msg_id rows)"
  shows "\<exists>t d'. in_int64 t \<and> saveGroup E f g c ct d =
      (Inr (new_message\<lparr>msg_id := next_msg_id rows, from_id := f, group_id := g, content := c,
         content_type := (if ct = [] then ''text'' else ct), timestamp := t, delivered := True\<rparr>), d') \<and>
    rows_of E ''messages'' d' = Inr (rows @ [toRow (new_message\<lparr>msg_id := next_msg_id rows, from_id := f,
         group_id := g, content := c, content_type := (if ct = [] then ''text'' else ct), timestamp := t,
         delivered := True\<rparr>)])"
proof -
  let ?t = "to_int64 (clock E (ticks d))"
  let ?m = "new_message\<lparr>msg_id := next_msg_id rows, from_id := f, group_id := g, content := c,
      content_type := (if ct = [] then ''text'' else ct), timestamp := ?t, delivered := True\<rparr>"
  have "rows_of E ''messages'' (set_rows ''messages'' rows d) = Inr rows" by simp
  then obtain d' where d': "db_insert E ''messages'' (toRow ?m)
      ((set_rows ''messages'' rows d)\<lparr>ticks := Suc (ticks d)\<rparr>) = (Inr (), d')"
      "rows_of E ''messages'' d' = Inr (rows @ [toRow ?m])"
    using insert_run by blast
  then show ?thesis
    by (intro exI [of _ ?t] exI [of _ d'])
       (simp add: saveGroup_def nextMessageId_run [OF assms] bindP_run thenP_run returnP_run nowSeconds_def Let_def)
qed

definition deliver_row :: "row \<Rightarrow> row" where
  "deliver_row = obj_set ''delivered'' (JBool True)"

lemma deliver_row_id [simp]: "asInt64 (deliver_row r) ''msg_id'' 0 = asInt64 r ''msg_id'' 0"
  by (simp add: deliver_row_def asInt64_def)

lemma deliver_row_twice [simp]: "deliver_row (deliver_row r) = deliver_row r"
proof -
  have "obj_set k v (obj_set k v r) = obj_set k v r" for k v
    by (induction k v r rule: obj_set.induct) auto
  then show ?thesis by (simp add: deliver_row_def)
qed

lemma mark_delivered_run:
  assumes "rows_of E ''messages'' d = Inr rows"
  shows "\<exists>d'. markDelivered E i d = (Inr (), d') \<and>
    rows_of E ''messages'' d' = Inr (map (\<lambda>r. if has_id i r then deliver_row r else r) rows)"
  using update_messages [OF assms update_rows_pure [of "has_id i" deliver_row rows "ticks d"]]
  by (auto simp: markDelivered_def bindP_run returnP_run deliver_row_def)

lemma mark_all_run:
  "rows_of E ''messages'' d = Inr rows \<Longrightarrow>
     \<exists>d'. forP ms (\<lambda>m. markDelivered E (msg_id m)) d = (Inr (), d') \<and>
       rows_of E ''messages'' d' =
         Inr (map (\<lambda>r. if asInt64 r ''msg_id'' 0 \<in> msg_id ` set ms then deliver_row r else r) rows)"
proof (induction ms arbitrary: d rows)
  case (Cons m ms)
  let ?one = "map (\<lambda>r. if has_id (msg_id m) r then deliver_row r else r) rows"
  obtain d1 where 1: "markDelivered E (msg_id m) d = (Inr (), d1)" "rows_of E ''messages'' d1 = Inr ?one"
    using mark_delivered_run [OF Cons.prems] by blast
  obtain d2 where 2: "forP ms (\<lambda>m. markDelivered E (msg_id m)) d1 = (Inr (), d2)"
      "rows_of E ''messages'' d2 =
         Inr (map (\<lambda>r. if asInt64 r ''msg_id'' 0 \<in> msg_id ` set ms then deliver_row r else r) ?one)"
    using Cons.IH [OF 1(2)] by blast
  have "map (\<lambda>r. if asInt64 r ''msg_id'' 0 \<in> msg_id ` set ms then deliver_row r else r) ?one =
      map (\<lambda>r. if asInt64 r ''msg_id'' 0 \<in> msg_id ` set (m # ms) then deliver_row r else r) rows"
    by (auto simp: has_id_def)
  with 1 2 show ?case by (auto simp: thenP_run)
qed (simp add: returnP_run)

lemma offline_run:
  assumes "rows_of E ''messages'' d = Inr rows"
  shows "\<exists>d'. offlineForUser E u limit d =
      (Inr (trimToLimit E (map fromRow (filter (is_offline_for u) rows)) limit), d') \<and>
    rows_of E ''messages'' d' = Inr (map (\<lambda>r.
      if asInt64 r ''msg_id'' 0 \<in> msg_id ` set (trimToLimit E (map fromRow (filter (is_offline_for u) rows)) limit)
      then deliver_row r else r) rows)"
proof -
  let ?ms = "trimToLimit E (map fromRow (filter (is_offline_for u) rows)) limit"
  have "rows_of E ''messages'' (set_rows ''messages'' rows d) = Inr rows" by simp
  then obtain d' where "forP ?ms (\<lambda>m. markDelivered E (msg_id m)) (set_rows ''messages'' rows d) = (Inr (), d')"
    "rows_of E ''messages'' d' = Inr (map (\<lambda>r.
      if asInt64 r ''msg_id'' 0 \<in> msg_id ` set ?ms then deliver_row r else r) rows)"
    using mark_all_run by blast
  then show ?thesis
    by (auto simp: offlineForUser_def bindP_run thenP_run returnP_run query_messages [OF assms] Let_def)
qed

lemma offline_after_delivery:
  "filter (is_offline_for u) (map (\<lambda>r. if asInt64 r ''msg_id'' 0 \<in> S then deliver_row r else r) rows) =
    filter (\<lambda>r. is_offline_for u r \<and> asInt64 r ''msg_id'' 0 \<notin> S) rows"
proof -
  have "\<not> is_offline_for u (deliver_row r)" for r
    by (simp add: is_offline_for_def deliver_row_def asBool_def is_bool_def as_bool_def)
  then show ?thesis by (induction rows) auto
qed

lemma distinct_older:
  assumes "mset ms = mset older + mset recent" "distinct (map msg_id ms)"
  shows "filter_mset (\<lambda>m. msg_id m \<notin> msg_id ` set recent) (mset ms) = mset older"
proof -
  have "mset (map msg_id (older @ recent)) = mset (map msg_id ms)"
    using assms(1) by simp
  then have "distinct (map msg_id (older @ recent))"
    using assms(2) mset_eq_imp_distinct_iff by blast
  then have d: "\<forall>m \<in> set older. msg_id m \<notin> msg_id ` set recent" by auto
  have "filter_mset (\<lambda>m. msg_id m \<notin> msg_id ` set recent) (mset older) = mset older"
    using d by (simp add: filter_mset_eq_conv)
  moreover have "filter_mset (\<lambda>m. msg_id m \<notin> msg_id ` set recent) (mset recent) = {#}"
    by (simp add: mset_filter [symmetric] filter_empty_conv del: mset_filter)
  ultimately show ?thesis by (simp add: assms(1))
qed

lemma mset_trim_all: "sort_ok E \<Longrightarrow> mset (trimToLimit E ms 0) = mset ms"
  using sorted_messages(1) [of E ms] by (simp add: trimToLimit_def Let_def)

lemma edit_row_fields [simp]:
  "fromRow (edit_row txt t r) = (fromRow r)\<lparr>content := txt, edited := True, edited_at := t\<rparr>"
  by (rule StoredMessage.equality) (simp_all add: fromRow_def edit_row_def obj_sets_def field_defs)

lemma delete_row_fields [simp]:
  "fromRow (delete_row t r) = (fromRow r)\<lparr>content := [], deleted := True, deleted_at := t\<rparr>"
  by (rule StoredMessage.equality) (simp_all add: fromRow_def delete_row_def obj_sets_def field_defs)

lemma update_stamped_run:
  assumes "rows_of E ''messages'' d = Inr rows"
  shows "\<exists>d' ts. db_update E ''messages'' (\<lambda>r. Inr (p r)) (\<lambda>r k. (u (to_int64 (clock E k)) r, Suc k)) d
        = (Inr (list_ex p rows), d') \<and> length ts = length rows \<and>
      rows_of E ''messages'' d' = Inr (map2 (\<lambda>t r. if p r then u t r else r) ts rows)"
proof -
  obtain ts k' where ts: "length ts = length rows"
    "update_rows (\<lambda>r. Inr (p r)) (\<lambda>r k. (u (to_int64 (clock E k)) r, Suc k)) rows (ticks d) =
       (None, map2 (\<lambda>t r. if p r then u t r else r) ts rows, k', list_ex p rows)"
    using update_rows_clock [where c = "\<lambda>k. to_int64 (clock E k)" and p = p and u = u and rows = rows] by blast
  then show ?thesis using update_messages [OF assms ts(2)] by blast
qed

definition row_deleted :: "row \<Rightarrow> bool" where
  "row_deleted r \<longleftrightarrow> asBool r ''deleted'' False"

lemma deleted_delete_row: "row_deleted (delete_row t r)" "has_id i (delete_row t r) = has_id i r"
  by (simp_all add: row_deleted_def has_id_def delete_row_def obj_sets_def field_defs)

section \<open>A NUL in a message\<close>

lemma unterminated_string:
  "CHR 0x22 \<notin> set s \<Longrightarrow> CHR 0x5C \<notin> set s \<Longrightarrow>
     parse_string_loop acc s = Inl (RuntimeError ''unterminated string'')"
  by (induction s arbitrary: acc) auto

lemma escaped_unterminated:
  "parse_string_loop acc (concat (map escape s)) = Inl (RuntimeError ''unterminated string'')"
  by (induction s arbitrary: acc) (auto simp: escape_def)

lemma takeWhile_escape:
  "NUL \<notin> set a \<Longrightarrow> takeWhile (\<lambda>c. c \<noteq> NUL) (concat (map escape (a @ NUL # b)) @ rest) = concat (map escape a)"
  by (induction a) (auto simp: escape_def NUL_def)

lemma first_NUL: "NUL \<in> set s \<Longrightarrow> \<exists>a b. s = a @ NUL # b \<and> NUL \<notin> set a"
  by (rule split_list_first)

lemma cut_first_field:
  assumes "NUL \<notin> set k" "NUL \<in> set s"
  shows "\<exists>a. c_str (row_text ((k, JString s) # kvs)) =
    CHR ''{'' # serialize_string k @ CHR '':'' # CHR 0x22 # concat (map escape a)"
proof -
  obtain a b where s: "s = a @ NUL # b" "NUL \<notin> set a" using first_NUL [OF assms(2)] by blast
  have k: "takeWhile (\<lambda>c. c \<noteq> NUL) (serialize_string k @ x) = serialize_string k @ takeWhile (\<lambda>c. c \<noteq> NUL) x" for x
    by (rule takeWhile_append2) (use assms(1) NUL_serialize_string in metis)
  have "serialize (JObj ((k, JString s) # kvs)) = CHR ''{'' # serialize_string k @ CHR '':'' # CHR 0x22 #
      (concat (map escape (a @ NUL # b)) @ CHR 0x22 # serialize_fields False kvs @ ''}'')"
    by (simp add: s serialize_string_def)
  then show ?thesis
    using takeWhile_escape [OF s(2), of b "CHR 0x22 # serialize_fields False kvs @ ''}''"]
    by (intro exI [of _ a]) (simp only: row_text_def c_str_def, simp add: k NUL_neq [symmetric])
qed

lemma parse_cut_row:
  "parse (CHR ''{'' # serialize_string k @ CHR '':'' # CHR 0x22 # concat (map escape a))
     = Inl (RuntimeError ''unterminated string'')"
proof -
  let ?body = "CHR '':'' # CHR 0x22 # concat (map escape a)"
  have 1: "parse_string (Some (serialize_string k @ ?body)) = Inr (k, Some ?body)"
    by (rule parse_serialize_string)
  have 2: "skip_ws (Some (serialize_string k @ ?body)) = Some (serialize_string k @ ?body)"
    by (simp add: serialize_string_def skip_ws_def)
  have "parse_object_loop (Suc (Suc n)) [] (Some (serialize_string k @ ?body)) =
      Inl (RuntimeError ''unterminated string'')" for n
    by (simp only: parse_object_loop.simps 2 1 bindE_simps prod.case)
       (simp add: skip_ws_def is_ws_def next_char_def parse_string_def escaped_unterminated)
  then have "parse_value (Suc (Suc (Suc n))) (Some (CHR ''{'' # serialize_string k @ ?body)) =
      Inl (RuntimeError ''unterminated string'')" for n
    using 2 by (simp add: serialize_string_def)
  moreover have "\<exists>n. 2 * length (CHR ''{'' # serialize_string k @ ?body) + 1 = Suc (Suc (Suc n))"
    by (simp add: numeral_eq_Suc)
  ultimately show ?thesis
    by (auto simp: parse_def skip_ws_def is_ws_def simp del: parse_value.simps)
qed

section \<open>Properties\<close>

text \<open>Saving a private message stores it under an identifier that no stored message has, and the
  stored row reads back as that message, so it is in the history of the two users, from either
  side, and among the messages waiting for its recipient when it was saved as undelivered.\<close>

theorem saved_message_found:
  assumes r: "rows_of E ''messages'' d = Inr rows" and i: "in_int64 (next_msg_id rows)"
    and f: "in_int32 f" and u: "in_int32 u" and s: "sort_ok E"
  shows "\<exists>m d'. savePrivate E f u txt ct isDelivered d = (Inr m, d') \<and>
    rows_of E ''messages'' d' = Inr (rows @ [toRow m]) \<and> fromRow (toRow m) = m \<and>
    msg_id m \<notin> set (map (\<lambda>r. msg_id (fromRow r)) rows) \<and> 0 < msg_id m \<and>
    from_id m = f \<and> to_id m = u \<and> content m = txt \<and> delivered m = isDelivered \<and>
    (\<exists>h. fst (privateHistory E f u 0 d') = Inr h \<and> m \<in> set h) \<and>
    (\<exists>h. fst (privateHistory E u f 0 d') = Inr h \<and> m \<in> set h) \<and>
    (\<exists>h. fst (offlineForUser E u 0 d') = Inr h \<and> (m \<in> set h \<longleftrightarrow> \<not> isDelivered))"
proof -
  obtain t d' where t: "in_int64 t"
    and d': "savePrivate E f u txt ct isDelivered d = (Inr (new_message\<lparr>msg_id := next_msg_id rows, from_id := f,
        to_id := u, content := txt, content_type := (if ct = [] then ''text'' else ct), timestamp := t,
        delivered := isDelivered\<rparr>), d')"
      "rows_of E ''messages'' d' = Inr (rows @ [toRow (new_message\<lparr>msg_id := next_msg_id rows, from_id := f,
        to_id := u, content := txt, content_type := (if ct = [] then ''text'' else ct), timestamp := t,
        delivered := isDelivered\<rparr>)])"
    using savePrivate_run [OF r i] by blast
  define m where
    "m = new_message\<lparr>msg_id := next_msg_id rows, from_id := f, to_id := u, content := txt,
      content_type := (if ct = [] then ''text'' else ct), timestamp := t, delivered := isDelivered\<rparr>"
  have fields: "msg_id m = next_msg_id rows" "from_id m = f" "to_id m = u" "content m = txt" "group_id m = 0"
      "delivered m = isDelivered" by (simp_all add: m_def new_message_def)
  have rt: "fromRow (toRow m) = m"
    by (rule fromRow_toRow)
       (use t i f u in \<open>simp add: wf_message_def m_def new_message_def in_int32_def in_int64_def\<close>)
  have new: "msg_id m \<notin> set (map (\<lambda>r. msg_id (fromRow r)) rows)"
    using message_ids.fresh [of rows] by (simp add: fields row_msg_id)
  have bt: "is_between f u (toRow m)" "is_between u f (toRow m)"
    "is_offline_for u (toRow m) \<longleftrightarrow> \<not> isDelivered"
    using f u by (auto simp: is_between_def is_offline_for_def field_defs fields in_int32_def Let_def)
  have mem: "x \<in> set (trimToLimit E ms 0) \<longleftrightarrow> x \<in> set ms" for x ms
    using mset_eq_setD [OF mset_trim_all [OF s, of ms]] by simp
  have "m \<in> fromRow ` {r \<in> set rows. is_offline_for u r} \<Longrightarrow> False"
    using new by auto
  moreover obtain d'' where "offlineForUser E u 0 d' =
      (Inr (trimToLimit E (map fromRow (filter (is_offline_for u) (rows @ [toRow m]))) 0), d'')"
    using offline_run [OF d'(2) [folded m_def]] by blast
  ultimately have off: "\<exists>h. fst (offlineForUser E u 0 d') = Inr h \<and> (m \<in> set h \<longleftrightarrow> \<not> isDelivered)"
    using bt(3) rt by (auto simp: mem)
  have hist: "\<exists>h. fst (privateHistory E a b 0 d') = Inr h \<and> m \<in> set h" if "is_between a b (toRow m)" for a b
    using that rt by (simp add: privateHistory_def bindP_run returnP_run query_messages [OF d'(2) [folded m_def]] mem)
  show ?thesis
    using d' [folded m_def] rt new fields next_msg_id_pos [of rows] off hist bt
    by (intro exI [of _ m] exI [of _ d']) auto
qed

theorem saved_message_found_witness:
  "\<exists>m d'. savePrivate ref_env 1000 1001 ''hi'' [] False
       \<lparr>data_dir = ''data'', db_handle = None, tables = [''messages'' \<mapsto> []], ticks = 0, rnds = 0\<rparr>
     = (Inr m, d') \<and> content m = ''hi'' \<and>
     (\<exists>h. fst (offlineForUser ref_env 1001 0 d') = Inr h \<and> m \<in> set h)"
  using saved_message_found [of ref_env
      "\<lparr>data_dir = ''data'', db_handle = None, tables = [''messages'' \<mapsto> []], ticks = 0, rnds = 0\<rparr>" "[]"
      1000 1001 "''hi''" "[]" False] ref_env_sort
  by (auto simp: next_msg_id_def in_int64_def in_int32_def)

text \<open>C12: A waiting message is handed out exactly once. \<open>offlineForUser\<close> returns the waiting messages
  of the user in the order of their timestamps, the latest ones when there are more than the limit,
  and marks them; asking again returns exactly the others, so none is repeated and none is lost.\<close>

theorem offline_exactly_once:
  assumes r: "rows_of E ''messages'' d = Inr rows" and s: "sort_ok E"
    and ids: "distinct (map (\<lambda>r. msg_id (fromRow r)) rows)"
  shows "\<exists>ms older d' ms' d''.
    offlineForUser E u limit d = (Inr ms, d') \<and>
    mset (map fromRow (filter (is_offline_for u) rows)) = mset older + mset ms \<and>
    sorted (map timestamp (older @ ms)) \<and>
    length ms = (let n = length (filter (is_offline_for u) rows) in if limit > 0 then min (nat limit) n else n) \<and>
    offlineForUser E u 0 d' = (Inr ms', d'') \<and> mset ms' = mset older"
proof -
  let ?p = "map fromRow (filter (is_offline_for u) rows)"
  let ?ms = "trimToLimit E ?p limit"
  obtain older where o: "mset ?p = mset older + mset ?ms" "sorted (map timestamp (older @ ?ms))"
      "length ?ms = (if limit > 0 then min (nat limit) (length ?p) else length ?p)"
    using trim_spec [OF s] by blast
  let ?rows = "map (\<lambda>r. if asInt64 r ''msg_id'' 0 \<in> msg_id ` set ?ms then deliver_row r else r) rows"
  obtain d' where d': "offlineForUser E u limit d = (Inr ?ms, d')" "rows_of E ''messages'' d' = Inr ?rows"
    using offline_run [OF r] by blast
  let ?p' = "map fromRow (filter (is_offline_for u) ?rows)"
  obtain d'' where d'': "offlineForUser E u 0 d' = (Inr (trimToLimit E ?p' 0), d'')"
    using offline_run [OF d'(2)] by blast
  have "distinct (map msg_id ?p)"
    using ids by (simp add: comp_def distinct_map inj_on_def)
  from distinct_older [OF o(1) this]
  have "filter_mset (\<lambda>m. msg_id m \<notin> msg_id ` set ?ms) (mset ?p) = mset older" .
  moreover have "?p' = filter (\<lambda>m. msg_id m \<notin> msg_id ` set ?ms) ?p"
    by (simp only: offline_after_delivery) (simp add: filter_map comp_def row_msg_id conj_commute)
  ultimately have "mset ?p' = mset older" by (metis mset_filter)
  then have "mset (trimToLimit E ?p' 0) = mset older" by (simp add: mset_trim_all [OF s] del: mset_map)
  with d'(1) d'' o show ?thesis by (auto simp: Let_def)
qed

theorem offline_exactly_once_witness:
  "\<exists>ms d' ms' d''. offlineForUser ref_env 7 1
       \<lparr>data_dir = ''data'', db_handle = None, tables = [''messages'' \<mapsto>
          [toRow (new_message\<lparr>msg_id := 1, to_id := 7, timestamp := 5\<rparr>),
           toRow (new_message\<lparr>msg_id := 2, to_id := 7, timestamp := 6\<rparr>)]], ticks = 0, rnds = 0\<rparr>
     = (Inr ms, d') \<and> length ms = 1 \<and> offlineForUser ref_env 7 0 d' = (Inr ms', d'') \<and> length ms' = 1"
proof -
  let ?rows = "[toRow (new_message\<lparr>msg_id := 1, to_id := 7, timestamp := 5\<rparr>),
      toRow (new_message\<lparr>msg_id := 2, to_id := 7, timestamp := 6\<rparr>)]"
  let ?d = "\<lparr>data_dir = ''data'', db_handle = None, tables = [''messages'' \<mapsto> ?rows], ticks = 0, rnds = 0\<rparr>"
  have off: "filter (is_offline_for 7) ?rows = ?rows"
    by (simp add: is_offline_for_def field_defs new_message_def in_int32_def)
  obtain ms older d' ms' d'' where o: "offlineForUser ref_env 7 1 ?d = (Inr ms, d')"
      "mset (map fromRow (filter (is_offline_for 7) ?rows)) = mset older + mset ms"
      "length ms = (let n = length (filter (is_offline_for 7) ?rows) in if (1 :: int) > 0 then min (nat 1) n else n)"
      "offlineForUser ref_env 7 0 d' = (Inr ms', d'')" "mset ms' = mset older"
    using offline_exactly_once [of ref_env ?d ?rows 7 1] ref_env_sort
    by (auto simp: row_msg_id asInt64_def is_number_def as_int_def simp del: filter.simps)
  have "length ms = 1" using o(3) by (simp only: off) simp
  moreover have "length ms' + length ms = 2"
    using arg_cong [OF o(2), of size] o(5) by (simp only: off) (metis One_nat_def Suc_1 length_Cons length_map list.size(3) size_mset size_union)
  ultimately show ?thesis using o(1,4) by auto
qed



text \<open>C20: Only the sender can edit or delete a message, only while it is not deleted, and never to an
  empty text. Exactly the rows for which that holds change, in the fields that the operation is
  about, and the answer says whether there was one.\<close>

theorem edit_and_delete_rights:
  assumes r: "rows_of E ''messages'' d = Inr rows"
  shows "(\<exists>d' rows'. edit E i actor txt d =
       (Inr (\<exists>r \<in> set rows. msg_id (fromRow r) = i \<and> from_id (fromRow r) = actor \<and> \<not> deleted (fromRow r) \<and> txt \<noteq> []), d') \<and>
     rows_of E ''messages'' d' = Inr rows' \<and> length rows' = length rows \<and>
     (\<forall>k < length rows. let m = fromRow (rows ! k); m' = fromRow (rows' ! k) in
        if msg_id m = i \<and> from_id m = actor \<and> \<not> deleted m \<and> txt \<noteq> []
        then m' = m\<lparr>content := txt, edited := True, edited_at := edited_at m'\<rparr>
        else rows' ! k = rows ! k)) \<and>
   (\<exists>d' rows'. softDelete E i actor d =
       (Inr (\<exists>r \<in> set rows. msg_id (fromRow r) = i \<and> from_id (fromRow r) = actor \<and> \<not> deleted (fromRow r)), d') \<and>
     rows_of E ''messages'' d' = Inr rows' \<and> length rows' = length rows \<and>
     (\<forall>k < length rows. let m = fromRow (rows ! k); m' = fromRow (rows' ! k) in
        if msg_id m = i \<and> from_id m = actor \<and> \<not> deleted m
        then m' = m\<lparr>content := [], deleted := True, deleted_at := deleted_at m'\<rparr>
        else rows' ! k = rows ! k))"
proof (intro conjI)
  have e: "can_edit i actor txt r \<longleftrightarrow> msg_id (fromRow r) = i \<and> from_id (fromRow r) = actor \<and>
      \<not> deleted (fromRow r) \<and> txt \<noteq> []" for r
    by (simp add: can_edit_def has_id_def fromRow_def)
  have c: "can_delete i actor r \<longleftrightarrow> msg_id (fromRow r) = i \<and> from_id (fromRow r) = actor \<and>
      \<not> deleted (fromRow r)" for r
    by (simp add: can_delete_def has_id_def fromRow_def)
  obtain d1 ts where 1: "edit E i actor txt d = (Inr (list_ex (can_edit i actor txt) rows), d1)"
      "length ts = length rows"
      "rows_of E ''messages'' d1 = Inr (map2 (\<lambda>t r. if can_edit i actor txt r then edit_row txt t r else r) ts rows)"
    using update_stamped_run [OF r, of "can_edit i actor txt" "edit_row txt"] by (auto simp: edit_def)
  then show "\<exists>d' rows'. edit E i actor txt d =
       (Inr (\<exists>r \<in> set rows. msg_id (fromRow r) = i \<and> from_id (fromRow r) = actor \<and> \<not> deleted (fromRow r) \<and> txt \<noteq> []), d') \<and>
     rows_of E ''messages'' d' = Inr rows' \<and> length rows' = length rows \<and>
     (\<forall>k < length rows. let m = fromRow (rows ! k); m' = fromRow (rows' ! k) in
        if msg_id m = i \<and> from_id m = actor \<and> \<not> deleted m \<and> txt \<noteq> []
        then m' = m\<lparr>content := txt, edited := True, edited_at := edited_at m'\<rparr>
        else rows' ! k = rows ! k)"
    by (intro exI [of _ d1] exI [of _ "map2 (\<lambda>t r. if can_edit i actor txt r then edit_row txt t r else r) ts rows"])
       (simp add: list_ex_iff Let_def e)
  obtain d2 ts where 2: "softDelete E i actor d = (Inr (list_ex (can_delete i actor) rows), d2)"
      "length ts = length rows"
      "rows_of E ''messages'' d2 = Inr (map2 (\<lambda>t r. if can_delete i actor r then delete_row t r else r) ts rows)"
    using update_stamped_run [OF r, of "can_delete i actor" delete_row] by (auto simp: softDelete_def)
  then show "\<exists>d' rows'. softDelete E i actor d =
       (Inr (\<exists>r \<in> set rows. msg_id (fromRow r) = i \<and> from_id (fromRow r) = actor \<and> \<not> deleted (fromRow r)), d') \<and>
     rows_of E ''messages'' d' = Inr rows' \<and> length rows' = length rows \<and>
     (\<forall>k < length rows. let m = fromRow (rows ! k); m' = fromRow (rows' ! k) in
        if msg_id m = i \<and> from_id m = actor \<and> \<not> deleted m
        then m' = m\<lparr>content := [], deleted := True, deleted_at := deleted_at m'\<rparr>
        else rows' ! k = rows ! k)"
    by (intro exI [of _ d2] exI [of _ "map2 (\<lambda>t r. if can_delete i actor r then delete_row t r else r) ts rows"])
       (simp add: list_ex_iff Let_def c)
qed

theorem edit_and_delete_rights_witness:
  "\<exists>d'. edit ref_env 1 5 ''mine''
       \<lparr>data_dir = ''data'', db_handle = None,
        tables = [''messages'' \<mapsto> [toRow (new_message\<lparr>msg_id := 1, from_id := 4\<rparr>)]], ticks = 0, rnds = 0\<rparr>
     = (Inr False, d')"
proof -
  let ?rows = "[toRow (new_message\<lparr>msg_id := 1, from_id := 4\<rparr>)]"
  have "from_id (fromRow (toRow (new_message\<lparr>msg_id := 1, from_id := 4\<rparr>))) = 4"
    by (simp add: fromRow_def field_defs in_int32_def)
  then show ?thesis
    using edit_and_delete_rights [of ref_env "\<lparr>data_dir = ''data'', db_handle = None,
        tables = [''messages'' \<mapsto> ?rows], ticks = 0, rnds = 0\<rparr>" ?rows 1 5 "''mine''"]
    by auto
qed

text \<open>A reaction can be lost. Reactions are kept in one text and a new one is only added when its
  encoding does not occur there, as a piece of text: when a user whose number ends in the digits of
  another user's number has reacted in the same way, the other user's reaction is answered with
  success and leaves the message as it was.\<close>

theorem reaction_lost:
  assumes r: "rows_of E ''messages'' d = Inr rows" and x: "x \<noteq> []"
    and suffix: "to_string other = pre @ to_string actor"
    and all: "\<forall>r \<in> set rows. msg_id (fromRow r) = i \<longrightarrow>
      \<not> deleted (fromRow r) \<and> reactions (fromRow r) = to_string other @ '':'' @ x"
    and one: "i \<in> set (map (\<lambda>r. msg_id (fromRow r)) rows)"
  shows "\<exists>d'. addReaction E i actor x d = (Inr True, d') \<and> rows_of E ''messages'' d' = Inr rows"
proof -
  let ?p = "\<lambda>r. has_id i r \<and> \<not> asBool r ''deleted'' False"
  have same: "(if ?p r then react_row (to_string actor @ '':'' @ x) r else r) = r" if "r \<in> set rows" for r
  proof -
    have "str_contains (to_string actor @ '':'' @ x) (asString r ''reactions'' [])" if "has_id i r"
      using all \<open>r \<in> set rows\<close> that suffix
      by (auto simp: has_id_def fromRow_def str_contains_iff) (metis append.right_neutral)
    then show ?thesis by (simp add: react_row_def Let_def)
  qed
  have ex: "list_ex ?p rows" using one all by (auto simp: list_ex_iff has_id_def fromRow_def)
  have "update_rows (\<lambda>r. Inr (?p r)) (\<lambda>r k. (react_row (to_string actor @ '':'' @ x) r, k)) rows (ticks d) =
      (None, rows, ticks d, True)"
    using map_idI [of rows, OF same] ex by (simp only: update_rows_pure)
  from update_messages [OF r this] x show ?thesis by (simp add: addReaction_def Let_def)
qed

theorem reaction_lost_witness:
  "\<exists>d'. addReaction ref_env 1 2 ''+''
       \<lparr>data_dir = ''data'', db_handle = None,
        tables = [''messages'' \<mapsto> [toRow (new_message\<lparr>msg_id := 1, reactions := ''12:+''\<rparr>)]], ticks = 0, rnds = 0\<rparr>
     = (Inr True, d') \<and>
     rows_of ref_env ''messages'' d' = Inr [toRow (new_message\<lparr>msg_id := 1, reactions := ''12:+''\<rparr>)]"
proof (rule reaction_lost [where other = 12 and pre = "''1''"])
  show "to_string 12 = ''1'' @ to_string 2" by code_simp
  have "to_string 12 = ''12''" by code_simp
  then show "\<forall>r \<in> set [toRow (new_message\<lparr>msg_id := 1, reactions := ''12:+''\<rparr>)]. msg_id (fromRow r) = 1 \<longrightarrow>
      \<not> deleted (fromRow r) \<and> reactions (fromRow r) = to_string 12 @ '':'' @ ''+''"
    by (simp add: fromRow_def field_defs new_message_def)
qed (simp_all add: fromRow_def field_defs)

text \<open>A message with a NUL byte in its text makes its table unreadable. The stored text of the row
  is read up to the first NUL, in the middle of a string, and loading any table that holds the row
  after rows that can be read ends with the parser's exception instead of the rows.\<close>

theorem nul_message_unreadable:
  assumes n: "NUL \<in> set (content m)" and b: "list_all storable before"
  shows "load_rows (map (\<lambda>r. [SqlText (row_text r)]) (before @ toRow m # after)) []
    = Inl (RuntimeError ''unterminated string'')"
proof -
  obtain a where a: "c_str (row_text (toRow m)) =
      CHR ''{'' # serialize_string ''content'' @ CHR '':'' # CHR 0x22 # concat (map escape a)"
    unfolding toRow_eq using cut_first_field [OF _ n, of "''content''"] by (auto simp: NUL_def)
  have app: "load_rows (map (\<lambda>r. [SqlText (row_text r)]) before @ rest) acc = load_rows rest (acc @ before)"
    for rest acc using b
    by (induction before arbitrary: acc)
       (auto simp: column_text_def storable_parse row_text_nonempty is_object_def as_obj_def)
  show ?thesis by (simp add: app column_text_def a parse_cut_row)
qed

theorem nul_message_unreadable_witness:
  "load_rows [[SqlText (row_text (toRow (new_message\<lparr>content := [CHR ''h'', NUL]\<rparr>)))]] []
     = Inl (RuntimeError ''unterminated string'')"
  using nul_message_unreadable [of "new_message\<lparr>content := [CHR ''h'', NUL]\<rparr>" "[]" "[]"] by simp

end
