(* ===== verification/ChannelRepository.thy ===== *)
theory ChannelRepository
  imports MessageRepository
begin

text \<open>
  Groups and their members: \<^verbatim>\<open>src/server/src/db/ChannelRepository.cpp\<close>. Its helpers \<open>asInt\<close> and
  \<open>asString\<close> are the same as those of \<open>MessageRepository.cpp\<close>.

  Shown here, on the interface of the table store: the rows of \<open>group_members\<close> implement a set of
  pairs of a user and a group, and a new group exists, has a number of its own and its host as a
  member.
\<close>

section \<open>Operations\<close>

record ChannelInfo =
  ch_group_id :: int
  ch_host_id :: int
  ch_name :: string

definition channel_fromRow :: "row \<Rightarrow> ChannelInfo" where
  "channel_fromRow row = \<lparr>ch_group_id = asInt row ''group_id'' 0, ch_host_id = asInt row ''host_id'' 0,
     ch_name = asString row ''name'' []\<rparr>"

definition new_channel_repository :: "'db env \<Rightarrow> ('db database, unit) prog" where
  "new_channel_repository E = thenP (ensureTable E ''groups'') (ensureTable E ''group_members'')"

definition is_group :: "int \<Rightarrow> row \<Rightarrow> bool" where
  "is_group groupId row \<longleftrightarrow> asInt row ''group_id'' 0 = groupId"

definition is_membership :: "int \<Rightarrow> int \<Rightarrow> row \<Rightarrow> bool" where
  "is_membership userId groupId row \<longleftrightarrow> asInt row ''user_id'' 0 = userId \<and> asInt row ''group_id'' 0 = groupId"

definition nextGroupId :: "'db env \<Rightarrow> ('db database, int) prog" where
  "nextGroupId E =
     bindP (db_query_all E ''groups'') (\<lambda>rows.
       returnP (to_int32 (fold (\<lambda>row maxId. max maxId (asInt row ''group_id'' 0)) rows 2000 + 1)))"

definition group_exists :: "'db env \<Rightarrow> int \<Rightarrow> ('db database, bool) prog" where
  "group_exists E groupId =
     bindP (db_query E ''groups'' (\<lambda>row. Inr (is_group groupId row))) (\<lambda>rows. returnP (rows \<noteq> []))"

definition member_row :: "int \<Rightarrow> int \<Rightarrow> int \<Rightarrow> row" where
  "member_row userId groupId now = obj_sets []
     [(''user_id'', JInt userId), (''group_id'', JInt groupId), (''joined_at'', JInt now)]"

definition join :: "'db env \<Rightarrow> int \<Rightarrow> int \<Rightarrow> ('db database, bool) prog" where
  "join E userId groupId =
     bindP (group_exists E groupId) (\<lambda>e.
       if \<not> e then returnP False
       else
         bindP (db_query E ''group_members'' (\<lambda>row. Inr (is_membership userId groupId row))) (\<lambda>duplicate.
           if duplicate \<noteq> [] then returnP True
           else
             bindP (nowSeconds E) (\<lambda>now.
             thenP (db_insert E ''group_members'' (member_row userId groupId now)) (returnP True))))"

definition leave :: "'db env \<Rightarrow> int \<Rightarrow> int \<Rightarrow> ('db database, bool) prog" where
  "leave E userId groupId = db_remove E ''group_members'' (is_membership userId groupId)"

definition group_row :: "int \<Rightarrow> int \<Rightarrow> string \<Rightarrow> int \<Rightarrow> row" where
  "group_row groupId hostId name now = obj_sets []
     [(''group_id'', JInt groupId), (''host_id'', JInt hostId), (''name'', JString name),
      (''created_at'', JInt now)]"

definition createGroup :: "'db env \<Rightarrow> int \<Rightarrow> string \<Rightarrow> ('db database, ChannelInfo) prog" where
  "createGroup E hostId name =
     bindP (nextGroupId E) (\<lambda>groupId.
     bindP (nowSeconds E) (\<lambda>now.
     thenP (db_insert E ''groups'' (group_row groupId hostId name now))
    (thenP (join E hostId groupId)
       (returnP \<lparr>ch_group_id = groupId, ch_host_id = hostId, ch_name = name\<rparr>))))"

definition searchGroups :: "'db env \<Rightarrow> string \<Rightarrow> int \<Rightarrow> ('db database, ChannelInfo list) prog" where
  "searchGroups E keyword limit =
     bindP (db_query E ''groups'' (\<lambda>row. Inr (keyword = [] \<or> str_contains keyword (asString row ''name'' [])))) (\<lambda>rows.
       returnP (map channel_fromRow (if limit > 0 then take (nat limit) rows else rows)))"

definition groupsForUser :: "'db env \<Rightarrow> int \<Rightarrow> ('db database, ChannelInfo list) prog" where
  "groupsForUser E userId =
     bindP (db_query E ''group_members'' (\<lambda>row. Inr (asInt row ''user_id'' 0 = userId))) (\<lambda>memberships.
     bindP (mapP (\<lambda>membership.
         bindP (db_query E ''groups'' (\<lambda>row. Inr (is_group (asInt membership ''group_id'' 0) row))) (\<lambda>rows.
           returnP (case rows of [] \<Rightarrow> [] | r # _ \<Rightarrow> [channel_fromRow r]))) memberships) (\<lambda>parts.
       returnP (concat parts)))"

definition members :: "'db env \<Rightarrow> int \<Rightarrow> ('db database, int list) prog" where
  "members E groupId =
     bindP (db_query E ''group_members'' (\<lambda>row. Inr (is_group groupId row))) (\<lambda>rows.
       returnP (map (\<lambda>row. asInt row ''user_id'' 0) rows))"

section \<open>Facts\<close>

definition membership :: "row \<Rightarrow> int \<times> int" where
  "membership r = (asInt r ''user_id'' 0, asInt r ''group_id'' 0)"

definition group_ids :: "row list \<Rightarrow> int list" where
  "group_ids gs = map (\<lambda>r. asInt r ''group_id'' 0) gs"

lemma is_membership_iff: "is_membership u g r \<longleftrightarrow> membership r = (u, g)"
  by (auto simp: is_membership_def membership_def)

lemma membership_member_row: "in_int32 u \<Longrightarrow> in_int32 g \<Longrightarrow> membership (member_row u g t) = (u, g)"
  by (simp add: membership_def member_row_def obj_sets_def asInt_def obj_find_def is_number_def as_int_def)

lemma group_row_fields:
  "in_int32 g \<Longrightarrow> asInt (group_row g h n t) ''group_id'' 0 = g"
  "in_int32 g \<Longrightarrow> in_int32 h \<Longrightarrow>
     channel_fromRow (group_row g h n t) = \<lparr>ch_group_id = g, ch_host_id = h, ch_name = n\<rparr>"
  "asString (group_row g h n t) ''name'' [] = n"
  by (simp_all add: group_row_def channel_fromRow_def obj_sets_def asInt_def asString_def obj_find_def
      is_number_def is_string_def as_int_def as_string_def)

lemma group_exists_run:
  "tables d ''groups'' = Some gs \<Longrightarrow> group_exists E g d = (Inr (g \<in> set (group_ids gs)), d)"
  by (auto simp: group_exists_def bindP_run returnP_run db_store.qry_pure filter_empty_conv is_group_def
      group_ids_def)

lemma nowSeconds_tables: "\<exists>t. in_int64 t \<and> nowSeconds E d = (Inr t, d\<lparr>ticks := Suc (ticks d)\<rparr>)"
  by (simp add: nowSeconds_def)

lemma join_run:
  assumes g: "tables d ''groups'' = Some gs" and m: "tables d ''group_members'' = Some ms"
    and i: "in_int32 u" "in_int32 g"
  shows "\<exists>d' ms'. join E u g d = (Inr (g \<in> set (group_ids gs)), d') \<and>
    tables d' = (tables d)(''group_members'' \<mapsto> ms') \<and>
    map membership ms' = map membership ms @
      (if g \<in> set (group_ids gs) \<and> (u, g) \<notin> set (map membership ms) then [(u, g)] else [])"
proof (cases "g \<in> set (group_ids gs) \<and> (u, g) \<notin> set (map membership ms)")
  case True
  obtain t where t: "nowSeconds E d = (Inr t, d\<lparr>ticks := Suc (ticks d)\<rparr>)"
    using nowSeconds_tables by blast
  have "tables (d\<lparr>ticks := Suc (ticks d)\<rparr>) ''group_members'' = Some ms" using m by simp
  from db_store.ins [OF this] obtain d' where d':
    "db_insert E ''group_members'' (member_row u g t) (d\<lparr>ticks := Suc (ticks d)\<rparr>) = (Inr (), d')"
    "tables d' = (tables d)(''group_members'' \<mapsto> ms @ [member_row u g t])" by fastforce
  have "filter (is_membership u g) ms = []"
    using True by (force simp: filter_empty_conv is_membership_iff)
  with True t d' show ?thesis
    by (intro exI [of _ d'] exI [of _ "ms @ [member_row u g t]"])
       (simp add: join_def bindP_run thenP_run returnP_run group_exists_run [OF g] db_store.qry_pure [OF m]
         membership_member_row i)
next
  case False
  then have "join E u g d = (Inr (g \<in> set (group_ids gs)), d)"
    by (auto simp: join_def bindP_run returnP_run group_exists_run [OF g] db_store.qry_pure [OF m]
        filter_empty_conv is_membership_iff)
  moreover have "tables d = (tables d)(''group_members'' \<mapsto> ms)" using m by (simp add: fun_upd_idem)
  ultimately show ?thesis
    using False by (intro exI [of _ d] exI [of _ ms]) auto
qed

lemma leave_run:
  assumes "tables d ''group_members'' = Some ms"
  shows "\<exists>d' ms'. leave E u g d = (Inr ((u, g) \<in> set (map membership ms)), d') \<and>
    tables d' = (tables d)(''group_members'' \<mapsto> ms') \<and>
    map membership ms' = filter (\<lambda>p. p \<noteq> (u, g)) (map membership ms)"
proof -
  obtain d' where d': "leave E u g d = (Inr (list_ex (is_membership u g) ms), d')"
    "tables d' = (tables d)(''group_members'' \<mapsto> filter (\<lambda>r. \<not> is_membership u g r) ms)"
    using db_store.del [OF assms] unfolding leave_def by blast
  have "list_ex (is_membership u g) ms \<longleftrightarrow> (u, g) \<in> set (map membership ms)"
    by (force simp: list_ex_iff is_membership_iff)
  with d' show ?thesis
    by (intro exI [of _ d'] exI [of _ "filter (\<lambda>r. \<not> is_membership u g r) ms"])
       (simp add: filter_map comp_def is_membership_iff)
qed

lemma members_run:
  "tables d ''group_members'' = Some ms \<Longrightarrow>
     members E g d = (Inr (map fst (filter (\<lambda>p. snd p = g) (map membership ms))), d)"
  by (simp add: members_def bindP_run returnP_run db_store.qry_pure filter_map comp_def is_group_def
      membership_def)

definition next_group_id :: "row list \<Rightarrow> int" where
  "next_group_id gs = fold (\<lambda>row maxId. max maxId (asInt row ''group_id'' 0)) gs 2000 + 1"

interpretation group_nums: id_supply group_ids next_group_id "\<lambda>_. True"
proof unfold_locales
  fix gs i assume "i \<in> set (group_ids gs)"
  then show "i < next_group_id gs"
    using fold_max_above [of 2000 "\<lambda>r. asInt r ''group_id'' 0" gs] by (auto simp: next_group_id_def group_ids_def)
qed

lemma next_group_id_range: "2000 < next_group_id gs"
  using fold_max_above [of 2000 "\<lambda>r. asInt r ''group_id'' 0" gs] by (auto simp: next_group_id_def)

lemma nextGroupId_run:
  "tables d ''groups'' = Some gs \<Longrightarrow> in_int32 (next_group_id gs) \<Longrightarrow>
     nextGroupId E d = (Inr (next_group_id gs), d)"
  by (simp add: nextGroupId_def db_query_all_run bindP_run returnP_run set_rows_id next_group_id_def)

lemma createGroup_run:
  assumes g: "tables d ''groups'' = Some gs" and m: "tables d ''group_members'' = Some ms"
    and i: "in_int32 h" "in_int32 (next_group_id gs)"
  shows "\<exists>d' t ms'. createGroup E h name d =
      (Inr \<lparr>ch_group_id = next_group_id gs, ch_host_id = h, ch_name = name\<rparr>, d') \<and>
    tables d' = (tables d)(''groups'' \<mapsto> gs @ [group_row (next_group_id gs) h name t], ''group_members'' \<mapsto> ms') \<and>
    map membership ms' = map membership ms @
      (if (h, next_group_id gs) \<notin> set (map membership ms) then [(h, next_group_id gs)] else [])"
proof -
  let ?g = "next_group_id gs"
  obtain t where t: "nowSeconds E d = (Inr t, d\<lparr>ticks := Suc (ticks d)\<rparr>)"
    using nowSeconds_tables by blast
  let ?gs = "gs @ [group_row ?g h name t]"
  have "tables (d\<lparr>ticks := Suc (ticks d)\<rparr>) ''groups'' = Some gs" using g by simp
  from db_store.ins [OF this] obtain d1 where d1:
    "db_insert E ''groups'' (group_row ?g h name t) (d\<lparr>ticks := Suc (ticks d)\<rparr>) = (Inr (), d1)"
    "tables d1 = (tables d)(''groups'' \<mapsto> ?gs)" by fastforce
  have "tables d1 ''groups'' = Some ?gs" "tables d1 ''group_members'' = Some ms" using d1 m by simp_all
  from join_run [OF this i] obtain d' ms' where d':
    "join E h ?g d1 = (Inr (?g \<in> set (group_ids ?gs)), d')"
    "tables d' = (tables d1)(''group_members'' \<mapsto> ms')"
    "map membership ms' = map membership ms @
      (if ?g \<in> set (group_ids ?gs) \<and> (h, ?g) \<notin> set (map membership ms) then [(h, ?g)] else [])" by blast
  have "?g \<in> set (group_ids ?gs)" by (simp add: group_ids_def group_row_fields i)
  with t d1 d' show ?thesis
    by (intro exI [of _ d'] exI [of _ t] exI [of _ ms'])
       (simp add: createGroup_def nextGroupId_run [OF g i(2)] bindP_run thenP_run returnP_run)
qed

section \<open>Properties\<close>

text \<open>C22: The rows of the members' table implement a set of pairs of a user and a group. Joining a
  group that exists adds the pair, once, and answers true; joining one that does not exist changes
  nothing and answers false; leaving takes the pair out and answers whether it was there; the
  members of a group are listed in the order in which they joined. No other table changes.\<close>

theorem membership_is_a_set:
  assumes g: "tables d ''groups'' = Some gs" and m: "tables d ''group_members'' = Some ms"
    and i: "in_int32 u" "in_int32 gid" and dist: "distinct (map membership ms)"
  shows "(\<exists>d' ms'. join E u gid d = (Inr (gid \<in> set (group_ids gs)), d') \<and>
      tables d' = (tables d)(''group_members'' \<mapsto> ms') \<and> distinct (map membership ms') \<and>
      membership ` set ms' = membership ` set ms \<union> (if gid \<in> set (group_ids gs) then {(u, gid)} else {})) \<and>
    (\<exists>d' ms'. leave E u gid d = (Inr ((u, gid) \<in> membership ` set ms), d') \<and>
      tables d' = (tables d)(''group_members'' \<mapsto> ms') \<and> distinct (map membership ms') \<and>
      membership ` set ms' = membership ` set ms - {(u, gid)}) \<and>
    members E gid d = (Inr (map fst (filter (\<lambda>p. snd p = gid) (map membership ms))), d)"
proof (intro conjI)
  obtain d' ms' where j: "join E u gid d = (Inr (gid \<in> set (group_ids gs)), d')"
    "tables d' = (tables d)(''group_members'' \<mapsto> ms')"
    "map membership ms' = map membership ms @
      (if gid \<in> set (group_ids gs) \<and> (u, gid) \<notin> set (map membership ms) then [(u, gid)] else [])"
    using join_run [OF g m i] by blast
  have "distinct (map membership ms')" using dist by (auto simp: j(3))
  moreover have "membership ` set ms' = membership ` set ms \<union> (if gid \<in> set (group_ids gs) then {(u, gid)} else {})"
    using arg_cong [OF j(3), of set] by auto
  ultimately show "\<exists>d' ms'. join E u gid d = (Inr (gid \<in> set (group_ids gs)), d') \<and>
      tables d' = (tables d)(''group_members'' \<mapsto> ms') \<and> distinct (map membership ms') \<and>
      membership ` set ms' = membership ` set ms \<union> (if gid \<in> set (group_ids gs) then {(u, gid)} else {})"
    using j by blast
  obtain d2 ms2 where l: "leave E u gid d = (Inr ((u, gid) \<in> set (map membership ms)), d2)"
    "tables d2 = (tables d)(''group_members'' \<mapsto> ms2)"
    "map membership ms2 = filter (\<lambda>p. p \<noteq> (u, gid)) (map membership ms)"
    using leave_run [OF m] by blast
  have "distinct (map membership ms2)" unfolding l(3) by (rule distinct_filter) (rule dist)
  moreover have "membership ` set ms2 = membership ` set ms - {(u, gid)}"
    using arg_cong [OF l(3), of set] by (simp only: set_map set_filter) blast
  ultimately show "\<exists>d' ms'. leave E u gid d = (Inr ((u, gid) \<in> membership ` set ms), d') \<and>
      tables d' = (tables d)(''group_members'' \<mapsto> ms') \<and> distinct (map membership ms') \<and>
      membership ` set ms' = membership ` set ms - {(u, gid)}"
    using l by auto
  show "members E gid d = (Inr (map fst (filter (\<lambda>p. snd p = gid) (map membership ms))), d)"
    by (rule members_run [OF m])
qed

theorem membership_is_a_set_witness:
  "\<exists>d'. join ref_env 7 2001
       \<lparr>data_dir = ''data'', db_handle = None,
        tables = [''groups'' \<mapsto> [group_row 2001 5 ''ops'' 0], ''group_members'' \<mapsto> [member_row 5 2001 0]],
        ticks = 0, rnds = 0\<rparr> = (Inr True, d')"
proof -
  have "distinct (map membership [member_row 5 2001 0])" by simp
  moreover have "2001 \<in> set (group_ids [group_row 2001 5 ''ops'' 0])"
    by (simp add: group_ids_def group_row_fields in_int32_def)
  ultimately show ?thesis
    using membership_is_a_set [of "\<lparr>data_dir = ''data'', db_handle = None,
        tables = [''groups'' \<mapsto> [group_row 2001 5 ''ops'' 0], ''group_members'' \<mapsto> [member_row 5 2001 0]],
        ticks = 0, rnds = 0\<rparr>" "[group_row 2001 5 ''ops'' 0]" "[member_row 5 2001 0]" 7 2001 ref_env]
    by (auto simp: in_int32_def)
qed

text \<open>Creating a group gives it a number above 2000 that no group has, stores it with its host and
  name, and makes the host a member; the group is then found by every part of its name and listed
  among the host's groups, and the groups and members that were there stay.\<close>

theorem created_group:
  assumes g: "tables d ''groups'' = Some gs" and m: "tables d ''group_members'' = Some ms"
    and i: "in_int32 h" "in_int32 (next_group_id gs)" and kw: "str_contains kw name"
  shows "\<exists>c d' gs' ms'. createGroup E h name d = (Inr c, d') \<and>
    ch_host_id c = h \<and> ch_name c = name \<and> 2000 < ch_group_id c \<and> ch_group_id c \<notin> set (group_ids gs) \<and>
    tables d' ''groups'' = Some gs' \<and> map channel_fromRow gs' = map channel_fromRow gs @ [c] \<and>
    tables d' ''group_members'' = Some ms' \<and>
    membership ` set ms' = insert (h, ch_group_id c) (membership ` set ms) \<and>
    (\<exists>found. fst (searchGroups E kw 0 d') = Inr found \<and> c \<in> set found) \<and>
    (\<exists>hs. fst (members E (ch_group_id c) d') = Inr hs \<and> h \<in> set hs)"
proof -
  let ?g = "next_group_id gs" and ?c = "\<lparr>ch_group_id = next_group_id gs, ch_host_id = h, ch_name = name\<rparr>"
  obtain d' t ms' where c: "createGroup E h name d = (Inr ?c, d')"
    "tables d' = (tables d)(''groups'' \<mapsto> gs @ [group_row ?g h name t], ''group_members'' \<mapsto> ms')"
    "map membership ms' = map membership ms @ (if (h, ?g) \<notin> set (map membership ms) then [(h, ?g)] else [])"
    using createGroup_run [OF g m i] by blast
  have t: "tables d' ''groups'' = Some (gs @ [group_row ?g h name t])" "tables d' ''group_members'' = Some ms'"
    by (simp_all add: c(2))
  have mem: "membership ` set ms' = insert (h, ?g) (membership ` set ms)"
    using arg_cong [OF c(3), of set] by auto
  have "fst (searchGroups E kw 0 d') = Inr (map channel_fromRow
      (filter (\<lambda>row. kw = [] \<or> str_contains kw (asString row ''name'' [])) gs) @ [?c])"
    using kw by (simp add: searchGroups_def bindP_run returnP_run db_store.qry_pure [OF t(1)] group_row_fields i)
  moreover have "\<exists>hs. fst (members E ?g d') = Inr hs \<and> h \<in> set hs"
    using mem by (force simp: members_run [OF t(2)])
  ultimately show ?thesis
    using c(1) t mem group_nums.fresh [of gs] next_group_id_range [of gs]
    by (intro exI [of _ ?c] exI [of _ d'] exI [of _ "gs @ [group_row ?g h name t]"] exI [of _ ms'])
       (simp add: group_row_fields i)
qed

theorem created_group_witness:
  "\<exists>c d'. createGroup ref_env 5 ''ops''
       \<lparr>data_dir = ''data'', db_handle = None, tables = [''groups'' \<mapsto> [], ''group_members'' \<mapsto> []],
        ticks = 0, rnds = 0\<rparr> = (Inr c, d') \<and> 2000 < ch_group_id c \<and>
     (\<exists>hs. fst (members ref_env (ch_group_id c) d') = Inr hs \<and> 5 \<in> set hs)"
  using created_group [of "\<lparr>data_dir = ''data'', db_handle = None,
        tables = [''groups'' \<mapsto> [], ''group_members'' \<mapsto> []], ticks = 0, rnds = 0\<rparr>" "[]" "[]" 5 "''op''" "''ops''" ref_env]
  by (auto simp: in_int32_def next_group_id_def)

end
