(* ===== verification/FriendRepository.thy ===== *)
theory FriendRepository
  imports UserRepository
begin

text \<open>
  Friendships: \<^verbatim>\<open>src/server/src/db/FriendRepository.cpp\<close>. The repository runs its own SQL on the
  connection of the database; the statements and what they do are in theory \<open>Sqlite\<close>.

  The abstract specification is a state machine on the status of each ordered pair of users, the
  relation \<open>friend_step\<close>. Shown here: every operation of the repository makes no step or one step
  of that machine, its reachable states satisfy the invariant, and what the queries answer is
  determined by the state.
\<close>

section \<open>Operations\<close>

definition column :: "sqlval list \<Rightarrow> nat \<Rightarrow> sqlval" where
  "column r i = (if i < length r then r ! i else SqlInt 0)"

definition column_int :: "sqlval \<Rightarrow> int" where
  "column_int v = (case v of SqlInt i \<Rightarrow> to_int32 i | SqlText _ \<Rightarrow> 0)"

definition new_friend_repository :: "'db env \<Rightarrow> ('db database, unit) prog" where
  "new_friend_repository E = bindP (migrate E 1) (\<lambda>_. returnP ())"

text \<open>\<open>sqlite3_step(stmt) == SQLITE_DONE && sqlite3_changes(db) > 0\<close>, false if it cannot be prepared\<close>

definition changes_rows :: "'db env \<Rightarrow> string \<Rightarrow> sqlval list \<Rightarrow> ('db database, bool) prog" where
  "changes_rows E sql ps =
     bindP (sqlite3_run E sql ps) (\<lambda>r.
       returnP (case r of None \<Rightarrow> False | Some (done, n) \<Rightarrow> done \<and> n > 0))"

definition sendRequest :: "'db env \<Rightarrow> int \<Rightarrow> int \<Rightarrow> string \<Rightarrow> ('db database, bool) prog" where
  "sendRequest E fromUid toUid requestMsg =
     (if fromUid \<le> 0 \<or> toUid \<le> 0 \<or> fromUid = toUid then returnP False
      else
        bindP (nowSeconds E) (\<lambda>t.
        let now = to_int32 t;
            ins = changes_rows E fs_insert_sql [SqlInt fromUid, SqlInt toUid, SqlText ''pending'',
              SqlText requestMsg, SqlInt now, SqlInt now]
        in bindP (sqlite3_select E fs_find_sql [SqlInt fromUid, SqlInt toUid, SqlInt toUid, SqlInt fromUid]) (\<lambda>r.
          case r of
            None \<Rightarrow> returnP False
          | Some [] \<Rightarrow> ins
          | Some (row # _) \<Rightarrow>
              let existingFrom = column_int (column row 0);
                  existingTo = column_int (column row 1);
                  status = column_text (column row 2)
              in if status = ''accepted'' then returnP False
                 else if status = ''rejected'' \<and> existingFrom = fromUid \<and> existingTo = toUid then returnP False
                 else if status \<noteq> ''rejected'' \<and>
                   (status \<noteq> ''pending'' \<or> existingFrom \<noteq> fromUid \<or> existingTo \<noteq> toUid) then returnP False
                 else if status = ''rejected'' then ins
                 else changes_rows E fs_touch_sql
                   [SqlText requestMsg, SqlInt now, SqlInt fromUid, SqlInt toUid])))"

definition setStatus :: "'db env \<Rightarrow> int \<Rightarrow> int \<Rightarrow> string \<Rightarrow> ('db database, bool) prog" where
  "setStatus E fromUid toUid status =
     bindP (nowSeconds E) (\<lambda>t.
       changes_rows E fs_status_sql [SqlText status, SqlInt (to_int32 t), SqlInt fromUid, SqlInt toUid])"

definition acceptRequest :: "'db env \<Rightarrow> int \<Rightarrow> int \<Rightarrow> ('db database, bool) prog" where
  "acceptRequest E fromUid toUid = setStatus E fromUid toUid ''accepted''"

definition rejectRequest :: "'db env \<Rightarrow> int \<Rightarrow> int \<Rightarrow> ('db database, bool) prog" where
  "rejectRequest E fromUid toUid = setStatus E fromUid toUid ''rejected''"

definition removeFriendship :: "'db env \<Rightarrow> int \<Rightarrow> int \<Rightarrow> ('db database, bool) prog" where
  "removeFriendship E uidA uidB =
     changes_rows E fs_delete_sql [SqlInt uidA, SqlInt uidB, SqlInt uidB, SqlInt uidA]"

definition areFriends :: "'db env \<Rightarrow> int \<Rightarrow> int \<Rightarrow> ('db database, bool) prog" where
  "areFriends E uidA uidB =
     bindP (sqlite3_select E fs_are_sql [SqlInt uidA, SqlInt uidB, SqlInt uidB, SqlInt uidA]) (\<lambda>r.
       returnP (case r of None \<Rightarrow> False | Some rows \<Rightarrow> rows \<noteq> []))"

definition getFriends :: "'db env \<Rightarrow> int \<Rightarrow> ('db database, UserInfo list) prog" where
  "getFriends E uid =
     bindP (sqlite3_select E fs_friends_sql [SqlInt uid, SqlInt uid, SqlInt uid]) (\<lambda>r.
       case r of
         None \<Rightarrow> returnP []
       | Some rows \<Rightarrow>
           bindP (mapP (\<lambda>row. findById E (column_int (column row 0))) rows) (\<lambda>us.
             returnP (concat (map (\<lambda>x. case x of None \<Rightarrow> [] | Some u \<Rightarrow> [u]) us))))"

record FriendRequestRecord =
  fr_from_uid :: int
  fr_to_uid :: int
  fr_status :: string
  fr_request_msg :: string

definition pendingRequests :: "'db env \<Rightarrow> int \<Rightarrow> ('db database, FriendRequestRecord list) prog" where
  "pendingRequests E uid =
     bindP (sqlite3_select E fs_pending_sql [SqlInt uid]) (\<lambda>r.
       returnP (case r of
          None \<Rightarrow> []
        | Some rows \<Rightarrow> map (\<lambda>row. \<lparr>fr_from_uid = column_int (column row 0), fr_to_uid = column_int (column row 1),
            fr_status = column_text (column row 2), fr_request_msg = column_text (column row 3)\<rparr>) rows))"

section \<open>The state machine of a friendship\<close>

type_synonym fstate = "int \<times> int \<Rightarrow> string option"

inductive friend_step :: "fstate \<Rightarrow> fstate \<Rightarrow> bool" where
  request: "0 < a \<Longrightarrow> 0 < b \<Longrightarrow> a \<noteq> b \<Longrightarrow> st (a, b) = None \<Longrightarrow>
     st (b, a) = None \<or> st (b, a) = Some ''rejected'' \<Longrightarrow> friend_step st (st((a, b) \<mapsto> ''pending''))"
| accept: "st (a, b) = Some ''pending'' \<Longrightarrow> friend_step st (st((a, b) \<mapsto> ''accepted''))"
| reject: "st (a, b) = Some ''pending'' \<Longrightarrow> friend_step st (st((a, b) \<mapsto> ''rejected''))"
| remove: "friend_step st (st((a, b) := None, (b, a) := None))"

inductive_cases friend_stepE: "friend_step st st'"

definition friend_inv :: "fstate \<Rightarrow> bool" where
  "friend_inv st \<longleftrightarrow> (\<forall>a b s. st (a, b) = Some s \<longrightarrow>
     0 < a \<and> 0 < b \<and> a \<noteq> b \<and> s \<in> {''pending'', ''accepted'', ''rejected''} \<and>
     (s \<noteq> ''rejected'' \<longrightarrow> st (b, a) = None \<or> st (b, a) = Some ''rejected''))"

lemma friend_invD:
  assumes "friend_inv st" "st (a, b) = Some s"
  shows "0 < a" "0 < b" "a \<noteq> b" "s \<in> {''pending'', ''accepted'', ''rejected''}"
    "s \<noteq> ''rejected'' \<Longrightarrow> st (b, a) = None \<or> st (b, a) = Some ''rejected''"
  using assms unfolding friend_inv_def by blast+

lemma friend_inv_set:
  assumes inv: "friend_inv st" and ab: "0 < a" "0 < b" "a \<noteq> b" "s \<in> {''pending'', ''accepted'', ''rejected''}"
    and ba: "st (b, a) = None \<or> st (b, a) = Some ''rejected''"
  shows "friend_inv (st((a, b) \<mapsto> s))"
  unfolding friend_inv_def
proof (intro allI impI)
  fix x y t assume t: "(st((a, b) \<mapsto> s)) (x, y) = Some t"
  let ?P = "\<lambda>x y t. 0 < x \<and> 0 < y \<and> x \<noteq> y \<and> t \<in> {''pending'', ''accepted'', ''rejected''} \<and>
    (t \<noteq> ''rejected'' \<longrightarrow> (st((a, b) \<mapsto> s)) (y, x) = None \<or> (st((a, b) \<mapsto> s)) (y, x) = Some ''rejected'')"
  show "?P x y t"
  proof (cases "(x, y) = (a, b)")
    case True
    then have "x = a" "y = b" "t = s" using t by auto
    then show ?thesis using ab ba by auto
  next
    case False
    then have st: "st (x, y) = Some t" using t by (auto split: if_splits)
    note inv = friend_invD [OF inv st]
    show ?thesis
    proof (cases "(y, x) = (a, b)")
      case True
      then have "t = ''rejected''" using st ba by auto
      then show ?thesis using inv by simp
    next
      case False
      then have "(st((a, b) \<mapsto> s)) (y, x) = st (y, x)" by (rule fun_upd_other)
      then show ?thesis using inv by simp
    qed
  qed
qed

lemma friend_inv_step: "friend_step st st' \<Longrightarrow> friend_inv st \<Longrightarrow> friend_inv st'"
proof (induction rule: friend_step.induct)
  case (request a b st)
  then show ?case by (intro friend_inv_set) auto
next
  case (accept st a b)
  show ?case using friend_invD [OF accept.prems accept.hyps] by (intro friend_inv_set accept.prems) auto
next
  case (reject st a b)
  show ?case using friend_invD [OF reject.prems reject.hyps] by (intro friend_inv_set reject.prems) auto
next
  case (remove st a b)
  then show ?case unfolding friend_inv_def by (auto split: if_splits)
qed

lemma friend_inv_empty: "friend_inv (\<lambda>_. None)"
  by (simp add: friend_inv_def)

lemma friend_inv_reachable: "friend_step\<^sup>*\<^sup>* (\<lambda>_. None) st \<Longrightarrow> friend_inv st"
  by (induction rule: rtranclp_induct) (auto intro: friend_inv_empty friend_inv_step)

section \<open>The rows as a state\<close>

definition fs_key :: "friendship \<Rightarrow> int \<times> int" where
  "fs_key f = (fs_from f, fs_to f)"

definition fstat :: "friendship list \<Rightarrow> fstate" where
  "fstat fs = map_of (map (\<lambda>f. (fs_key f, fs_status f)) fs)"

definition fs_distinct :: "friendship list \<Rightarrow> bool" where
  "fs_distinct fs \<longleftrightarrow> distinct (map fs_key fs)"

lemma fs_is_key: "fs_is a b f \<longleftrightarrow> fs_key f = (a, b)"
  by (auto simp: fs_is_def fs_key_def)

lemma fs_pair_key: "fs_pair a b f \<longleftrightarrow> fs_key f = (a, b) \<or> fs_key f = (b, a)"
  by (auto simp: fs_pair_def fs_key_def)

lemma fstat_mem: "fs_distinct fs \<Longrightarrow> fstat fs k = Some s \<longleftrightarrow> (\<exists>f \<in> set fs. fs_key f = k \<and> fs_status f = s)"
  unfolding fs_distinct_def fstat_def
  by (subst map_of_eq_Some_iff) (auto simp: comp_def)

lemma fstat_None: "fstat fs k = None \<longleftrightarrow> (\<forall>f \<in> set fs. fs_key f \<noteq> k)"
  by (force simp: fstat_def map_of_eq_None_iff)

lemma fstat_snoc: "fstat fs (fs_key f) = None \<Longrightarrow> fstat (fs @ [f]) = (fstat fs)(fs_key f \<mapsto> fs_status f)"
  by (auto simp: fstat_def map_add_def fun_eq_iff split: option.split)

lemma fstat_filter: "fstat (filter (\<lambda>f. P (fs_key f)) fs) = (\<lambda>k. if P k then fstat fs k else None)"
  by (induction fs) (auto simp: fstat_def fun_eq_iff)

lemma fstat_map_same:
  "(\<And>f. fs_key (u f) = fs_key f \<and> fs_status (u f) = fs_status f) \<Longrightarrow> fstat (map u fs) = fstat fs"
  by (simp add: fstat_def comp_def)

lemma fstat_map_status:
  assumes "fs_distinct fs" "\<And>f. fs_key (u f) = fs_key f"
    "\<And>f. fs_status (u f) = (if fs_key f = k \<and> fs_status f = ''pending'' then s else fs_status f)"
  shows "fstat (map u fs) = (if fstat fs k = Some ''pending'' then (fstat fs)(k \<mapsto> s) else fstat fs)"
  using assms(1)
proof (induction fs)
  case (Cons f fs)
  have "fstat fs (fs_key f) = None" using Cons.prems by (simp add: fs_distinct_def fstat_None) (metis image_eqI)
  moreover have "fs_distinct fs" using Cons.prems by (simp add: fs_distinct_def)
  ultimately show ?case
    using Cons.IH by (auto simp: fstat_def assms(2,3) fun_eq_iff)
qed (simp add: fstat_def)

section \<open>The operations make steps of the machine\<close>

text \<open>An open connection whose table of friendships holds \<open>fs\<close>, one row for each ordered pair.\<close>

definition friends_are :: "('db \<Rightarrow> friendship list option) \<Rightarrow> 'db database \<Rightarrow> friendship list \<Rightarrow> bool" where
  "friends_are fr d fs \<longleftrightarrow> (\<exists>h. db_handle d = Some h \<and> fr h = Some fs) \<and> fs_distinct fs"

lemma changes_run:
  assumes "db_handle d = Some h" "sq_run (sqlite E) sql ps h = Some (b, n, h')"
  shows "changes_rows E sql ps d = (Inr (b \<and> n > 0), d\<lparr>db_handle := Some h'\<rparr>)"
  using assms by (simp add: changes_rows_def sqlite3_run_def bindP_run returnP_run)

lemma pending_count:
  "fs_distinct fs \<Longrightarrow>
     0 < length (filter (\<lambda>f. fs_is a b f \<and> fs_status f = ''pending'') fs) \<longleftrightarrow> fstat fs (a, b) = Some ''pending''"
  by (auto simp: fstat_mem filter_empty_conv fs_is_key)

lemma distinct_map_key: "(\<And>f. fs_key (u f) = fs_key f) \<Longrightarrow> fs_distinct (map u fs) = fs_distinct fs"
  by (simp add: fs_distinct_def comp_def)

lemma setStatus_run:
  assumes S: "sqlite_friendships (sqlite E) fr" and f: "friends_are fr d fs"
    and s: "s \<in> {''pending'', ''accepted'', ''rejected''}"
  shows "\<exists>d' fs'. setStatus E a b s d = (Inr (fstat fs (a, b) = Some ''pending''), d') \<and> friends_are fr d' fs' \<and>
    fstat fs' = (if fstat fs (a, b) = Some ''pending'' then (fstat fs)((a, b) \<mapsto> s) else fstat fs)"
proof -
  obtain h where h: "db_handle d = Some h" "fr h = Some fs" and ds: "fs_distinct fs"
    using f by (auto simp: friends_are_def)
  let ?n = "to_int32 (to_int64 (clock E (ticks d)))"
  let ?u = "\<lambda>f. if fs_is a b f \<and> fs_status f = ''pending'' then f\<lparr>fs_status := s, fs_updated := ?n\<rparr> else f"
  obtain h' where h': "sq_run (sqlite E) fs_status_sql [SqlText s, SqlInt ?n, SqlInt a, SqlInt b] h
      = Some (True, length (filter (\<lambda>f. fs_is a b f \<and> fs_status f = ''pending'') fs), h')"
      "fr h' = Some (map ?u fs)"
    using fs_status [OF S, rule_format, OF h(2) s] by blast
  have key: "fs_key (?u f) = fs_key f" for f by (simp add: fs_key_def)
  have st: "fs_status (?u f) = (if fs_key f = (a, b) \<and> fs_status f = ''pending'' then s else fs_status f)" for f
    by (simp add: fs_is_key)
  let ?d = "d\<lparr>ticks := Suc (ticks d), db_handle := Some h'\<rparr>"
  have "setStatus E a b s d = (Inr (fstat fs (a, b) = Some ''pending''), ?d)"
    using changes_run [of "d\<lparr>ticks := Suc (ticks d)\<rparr>" h E, OF _ h'(1)] h(1) pending_count [OF ds]
    by (simp add: setStatus_def nowSeconds_def bindP_run)
  moreover have "friends_are fr ?d (map ?u fs)"
    using h'(2) ds distinct_map_key [of ?u, OF key] by (simp add: friends_are_def)
  ultimately show ?thesis
    using fstat_map_status [OF ds key st] by blast
qed

lemma remove_run:
  assumes S: "sqlite_friendships (sqlite E) fr" and f: "friends_are fr d fs"
  shows "\<exists>d' fs'. removeFriendship E a b d =
      (Inr (fstat fs (a, b) \<noteq> None \<or> fstat fs (b, a) \<noteq> None), d') \<and> friends_are fr d' fs' \<and>
    fstat fs' = (fstat fs)((a, b) := None, (b, a) := None)"
proof -
  obtain h where h: "db_handle d = Some h" "fr h = Some fs" and ds: "fs_distinct fs"
    using f by (auto simp: friends_are_def)
  let ?fs = "filter (\<lambda>f. \<not> fs_pair a b f) fs"
  obtain h' where h': "sq_run (sqlite E) fs_delete_sql [SqlInt a, SqlInt b, SqlInt b, SqlInt a] h
      = Some (True, length (filter (fs_pair a b) fs), h')" "fr h' = Some ?fs"
    using fs_delete [OF S, rule_format, OF h(2)] by blast
  have "0 < length (filter (fs_pair a b) fs) \<longleftrightarrow> fstat fs (a, b) \<noteq> None \<or> fstat fs (b, a) \<noteq> None"
    by (auto simp: fstat_None filter_empty_conv fs_pair_key)
  then have "removeFriendship E a b d = (Inr (fstat fs (a, b) \<noteq> None \<or> fstat fs (b, a) \<noteq> None),
      d\<lparr>db_handle := Some h'\<rparr>)"
    using changes_run [OF h(1) h'(1)] by (simp add: removeFriendship_def)
  moreover have "fs_distinct ?fs" using ds by (simp add: fs_distinct_def distinct_map_filter)
  moreover have "fstat ?fs = (fstat fs)((a, b) := None, (b, a) := None)"
    using fstat_filter [of "\<lambda>k. k \<noteq> (a, b) \<and> k \<noteq> (b, a)" fs] by (auto simp: fs_pair_key fun_eq_iff)
  ultimately show ?thesis using h'(2) by (auto simp: friends_are_def)
qed

lemma fs_insert_run:
  assumes S: "sqlite_friendships (sqlite E) fr" and f: "friends_are fr d fs"
  shows "\<exists>d' fs'. changes_rows E fs_insert_sql [SqlInt a, SqlInt b, SqlText ''pending'', SqlText m, SqlInt n, SqlInt n'] d
      = (Inr (fstat fs (a, b) = None), d') \<and> friends_are fr d' fs' \<and>
    fstat fs' = (if fstat fs (a, b) = None then (fstat fs)((a, b) \<mapsto> ''pending'') else fstat fs)"
proof -
  obtain h where h: "db_handle d = Some h" "fr h = Some fs" and ds: "fs_distinct fs"
    using f by (auto simp: friends_are_def)
  let ?f = "\<lparr>fs_from = a, fs_to = b, fs_status = ''pending'', fs_msg = m, fs_created = n, fs_updated = n'\<rparr>"
  have ex: "list_ex (fs_is a b) fs \<longleftrightarrow> fstat fs (a, b) \<noteq> None"
    by (auto simp: fstat_None list_ex_iff fs_is_key)
  note ins = fs_insert [OF S, rule_format, OF h(2), of a b m n n']
  show ?thesis
  proof (cases "fstat fs (a, b) = None")
    case True
    obtain h' where h': "sq_run (sqlite E) fs_insert_sql
        [SqlInt a, SqlInt b, SqlText ''pending'', SqlText m, SqlInt n, SqlInt n'] h = Some (True, 1, h')"
        "fr h' = Some (fs @ [?f])"
      using ins ex True by auto
    have "fs_key ?f = (a, b)" by (simp add: fs_key_def)
    then have "fstat (fs @ [?f]) = (fstat fs)((a, b) \<mapsto> ''pending'')" "fs_distinct (fs @ [?f])"
      using fstat_snoc [of fs ?f] True ds by (auto simp: fs_distinct_def fstat_None)
    with changes_run [OF h(1) h'(1)] h'(2) True show ?thesis by (auto simp: friends_are_def)
  next
    case False
    then obtain k h' where h': "sq_run (sqlite E) fs_insert_sql
        [SqlInt a, SqlInt b, SqlText ''pending'', SqlText m, SqlInt n, SqlInt n'] h = Some (False, k, h')"
        "fr h' = Some fs"
      using ins ex by auto
    with changes_run [OF h(1) h'(1)] False ds show ?thesis by (auto simp: friends_are_def)
  qed
qed

lemma touch_run:
  assumes S: "sqlite_friendships (sqlite E) fr" and f: "friends_are fr d fs"
  shows "\<exists>d' fs'. changes_rows E fs_touch_sql [SqlText m, SqlInt n, SqlInt a, SqlInt b] d
      = (Inr (fstat fs (a, b) = Some ''pending''), d') \<and> friends_are fr d' fs' \<and> fstat fs' = fstat fs"
proof -
  obtain h where h: "db_handle d = Some h" "fr h = Some fs" and ds: "fs_distinct fs"
    using f by (auto simp: friends_are_def)
  let ?u = "\<lambda>f. if fs_is a b f \<and> fs_status f = ''pending'' then f\<lparr>fs_msg := m, fs_updated := n\<rparr> else f"
  obtain h' where h': "sq_run (sqlite E) fs_touch_sql [SqlText m, SqlInt n, SqlInt a, SqlInt b] h
      = Some (True, length (filter (\<lambda>f. fs_is a b f \<and> fs_status f = ''pending'') fs), h')"
      "fr h' = Some (map ?u fs)"
    using fs_touch [OF S, rule_format, OF h(2)] by blast
  have u: "fs_key (?u f) = fs_key f \<and> fs_status (?u f) = fs_status f" for f by (simp add: fs_key_def)
  have "fstat (map ?u fs) = fstat fs" by (rule fstat_map_same) (rule u)
  moreover have "fs_distinct (map ?u fs)" using distinct_map_key [of ?u] u ds by blast
  ultimately show ?thesis
    using changes_run [OF h(1) h'(1)] h'(2) pending_count [OF ds] by (auto simp: friends_are_def)
qed

lemma fs_find_run:
  assumes S: "sqlite_friendships (sqlite E) fr" and f: "friends_are fr d fs"
  obtains "fstat fs (a, b) = None" "fstat fs (b, a) = None"
      "sqlite3_select E fs_find_sql [SqlInt a, SqlInt b, SqlInt b, SqlInt a] d = (Inr (Some []), d)"
    | x y s rs where "(x, y) = (a, b) \<or> (x, y) = (b, a)" "fstat fs (x, y) = Some s"
      "sqlite3_select E fs_find_sql [SqlInt a, SqlInt b, SqlInt b, SqlInt a] d
        = (Inr (Some ([SqlInt x, SqlInt y, SqlText s] # rs)), d)"
proof -
  obtain h where h: "db_handle d = Some h" "fr h = Some fs" and ds: "fs_distinct fs"
    using f by (auto simp: friends_are_def)
  obtain rs where rs: "sq_select (sqlite E) fs_find_sql [SqlInt a, SqlInt b, SqlInt b, SqlInt a] h = Some rs"
    "rs = [] \<longleftrightarrow> \<not> list_ex (fs_pair a b) fs"
    "\<forall>r \<in> set rs. \<exists>f \<in> set fs. fs_pair a b f \<and> r = [SqlInt (fs_from f), SqlInt (fs_to f), SqlText (fs_status f)]"
    using fs_find [OF S, THEN spec, of h, THEN spec, of fs, THEN spec, of a, THEN spec, of b, THEN mp, OF h(2)]
    by (elim exE conjE) (rule that)
  have sel: "sqlite3_select E fs_find_sql [SqlInt a, SqlInt b, SqlInt b, SqlInt a] d = (Inr (Some rs), d)"
    using h(1) rs(1) by (simp add: sqlite3_select_def)
  show ?thesis
  proof (cases rs)
    case Nil
    with rs(2) have "fstat fs (a, b) = None" "fstat fs (b, a) = None"
      by (auto simp: fstat_None list_ex_iff fs_pair_key)
    with Nil sel that(1) show ?thesis by blast
  next
    case (Cons r rs')
    then obtain g where g: "g \<in> set fs" "fs_pair a b g" "r = [SqlInt (fs_from g), SqlInt (fs_to g), SqlText (fs_status g)]"
      using rs(3) by auto
    have "fstat fs (fs_from g, fs_to g) = Some (fs_status g)"
      using g(1) by (auto simp: fstat_mem [OF ds] fs_key_def)
    moreover have "(fs_from g, fs_to g) = (a, b) \<or> (fs_from g, fs_to g) = (b, a)"
      using g(2) by (auto simp: fs_pair_def)
    ultimately show ?thesis using that(2) sel Cons g(3) by blast
  qed
qed

lemma sendRequest_run:
  assumes S: "sqlite_friendships (sqlite E) fr" and f: "friends_are fr d fs" and inv: "friend_inv (fstat fs)"
    and i: "in_int32 a" "in_int32 b"
  shows "\<exists>ok d' fs'. sendRequest E a b m d = (Inr ok, d') \<and> friends_are fr d' fs' \<and>
    (fstat fs' = fstat fs \<and> (ok \<longrightarrow> fstat fs (a, b) = Some ''pending'') \<or>
     ok \<and> 0 < a \<and> 0 < b \<and> a \<noteq> b \<and> fstat fs (a, b) = None \<and>
       (fstat fs (b, a) = None \<or> fstat fs (b, a) = Some ''rejected'') \<and>
       fstat fs' = (fstat fs)((a, b) \<mapsto> ''pending'')) \<and>
    (0 < a \<and> 0 < b \<and> a \<noteq> b \<and> fstat fs (a, b) = None \<and>
       (fstat fs (b, a) = None \<or> fstat fs (b, a) = Some ''rejected'') \<longrightarrow> ok)"
proof (cases "a \<le> 0 \<or> b \<le> 0 \<or> a = b")
  case True
  then have "sendRequest E a b m d = (Inr False, d)" by (simp add: sendRequest_def returnP_run)
  then show ?thesis using f True by (intro exI [of _ False] exI [of _ d] exI [of _ fs]) auto
next
  case False
  let ?d = "d\<lparr>ticks := Suc (ticks d)\<rparr>" and ?n = "to_int32 (to_int64 (clock E (ticks d)))"
  have f': "friends_are fr ?d fs" using f by (simp add: friends_are_def)
  obtain di fi where ins: "changes_rows E fs_insert_sql
      [SqlInt a, SqlInt b, SqlText ''pending'', SqlText m, SqlInt ?n, SqlInt ?n] ?d = (Inr (fstat fs (a, b) = None), di)"
      "friends_are fr di fi"
      "fstat fi = (if fstat fs (a, b) = None then (fstat fs)((a, b) \<mapsto> ''pending'') else fstat fs)"
    using fs_insert_run [OF S f'] by blast
  obtain dt ft where tch: "changes_rows E fs_touch_sql [SqlText m, SqlInt ?n, SqlInt a, SqlInt b] ?d
      = (Inr (fstat fs (a, b) = Some ''pending''), dt)" "friends_are fr dt ft" "fstat ft = fstat fs"
    using touch_run [OF S f'] by blast
  note run = sendRequest_def nowSeconds_def bindP_run returnP_run Let_def
  show ?thesis
  proof (rule fs_find_run [OF S f', of a b])
    assume n: "fstat fs (a, b) = None" "fstat fs (b, a) = None"
      and sel: "sqlite3_select E fs_find_sql [SqlInt a, SqlInt b, SqlInt b, SqlInt a] ?d = (Inr (Some []), ?d)"
    have "sendRequest E a b m d = (Inr True, di)" using False sel ins(1) n by (simp add: run)
    then show ?thesis using ins n False by (intro exI [of _ True] exI [of _ di] exI [of _ fi]) auto
  next
    fix x y s rs
    assume xy: "(x, y) = (a, b) \<or> (x, y) = (b, a)" and st: "fstat fs (x, y) = Some s"
      and sel: "sqlite3_select E fs_find_sql [SqlInt a, SqlInt b, SqlInt b, SqlInt a] ?d
        = (Inr (Some ([SqlInt x, SqlInt y, SqlText s] # rs)), ?d)"
    have s: "s \<in> {''pending'', ''accepted'', ''rejected''}" by (rule friend_invD [OF inv st])
    have x: "to_int32 x = x" "to_int32 y = y" using xy i by auto
    have c: "c_str s = s" using s by (auto simp: c_str_def NUL_def)
    have eq: "sendRequest E a b m d =
        (if s = ''accepted'' then (Inr False, ?d)
         else if s = ''rejected'' \<and> x = a \<and> y = b then (Inr False, ?d)
         else if s \<noteq> ''rejected'' \<and> (x \<noteq> a \<or> y \<noteq> b) then (Inr False, ?d)
         else if s = ''rejected'' then (Inr (fstat fs (a, b) = None), di)
         else (Inr (fstat fs (a, b) = Some ''pending''), dt))"
    proof -
      have cols: "column_int (column [SqlInt x, SqlInt y, SqlText s] 0) = x"
          "column_int (column [SqlInt x, SqlInt y, SqlText s] 1) = y"
          "column_text (column [SqlInt x, SqlInt y, SqlText s] 2) = s"
        by (simp_all add: column_def column_int_def column_text_def x c)
      have neg: "\<not> (a \<le> 0 \<or> b \<le> 0 \<or> a = b)" using False .
      have "sendRequest E a b m d =
        (if s = ''accepted'' then (Inr False, ?d)
         else if s = ''rejected'' \<and> x = a \<and> y = b then (Inr False, ?d)
         else if s \<noteq> ''rejected'' \<and> (s \<noteq> ''pending'' \<or> x \<noteq> a \<or> y \<noteq> b) then (Inr False, ?d)
         else if s = ''rejected'' then (Inr (fstat fs (a, b) = None), di)
         else (Inr (fstat fs (a, b) = Some ''pending''), dt))"
        unfolding run if_not_P [OF neg] prod.case sum.case sel option.case list.case cols
        using ins(1) tch(1) by (simp only: if_distrib [of "\<lambda>f. f ?d"] returnP_run)
      then show ?thesis using s by auto
    qed
    have refused: ?thesis if "sendRequest E a b m d = (Inr False, ?d)"
        "\<not> (fstat fs (a, b) = None \<and> (fstat fs (b, a) = None \<or> fstat fs (b, a) = Some ''rejected''))"
      using that f' by (intro exI [of _ False] exI [of _ ?d] exI [of _ fs]) auto
    consider "s = ''accepted''" | "s = ''rejected''" "(x, y) = (a, b)" | "s = ''pending''" "(x, y) \<noteq> (a, b)"
      | "s = ''rejected''" "(x, y) \<noteq> (a, b)" | "s = ''pending''" "(x, y) = (a, b)" using s by blast
    then show ?thesis
    proof cases
      case 1
      have "sendRequest E a b m d = (Inr False, ?d)" using 1 by (simp add: eq)
      moreover have "\<not> (fstat fs (a, b) = None \<and> (fstat fs (b, a) = None \<or> fstat fs (b, a) = Some ''rejected''))"
        using 1 xy st by auto
      ultimately show ?thesis by (rule refused)
    next
      case 2
      have "sendRequest E a b m d = (Inr False, ?d)" using 2 by (simp add: eq)
      moreover have "\<not> (fstat fs (a, b) = None \<and> (fstat fs (b, a) = None \<or> fstat fs (b, a) = Some ''rejected''))"
        using 2 st by auto
      ultimately show ?thesis by (rule refused)
    next
      case 3
      have "sendRequest E a b m d = (Inr False, ?d)" using 3 by (auto simp: eq)
      moreover have "\<not> (fstat fs (a, b) = None \<and> (fstat fs (b, a) = None \<or> fstat fs (b, a) = Some ''rejected''))"
        using 3 xy st by auto
      ultimately show ?thesis by (rule refused)
    next
      case 4
      then have "sendRequest E a b m d = (Inr (fstat fs (a, b) = None), di)" by (auto simp: eq)
      moreover have "fstat fs (b, a) = Some ''rejected''" using 4 xy st by auto
      ultimately show ?thesis using ins False
        by (intro exI [of _ "fstat fs (a, b) = None"] exI [of _ di] exI [of _ fi]) auto
    next
      case 5
      then have "sendRequest E a b m d = (Inr (fstat fs (a, b) = Some ''pending''), dt)" by (auto simp: eq)
      then show ?thesis using tch 5 st
        by (intro exI [of _ "fstat fs (a, b) = Some ''pending''"] exI [of _ dt] exI [of _ ft]) auto
    qed
  qed
qed

lemma friend_inv_maybe: "friend_step\<^sup>=\<^sup>= st st' \<Longrightarrow> friend_inv st \<Longrightarrow> friend_inv st'"
  using friend_inv_step by auto

lemma send_refines:
  assumes S: "sqlite_friendships (sqlite E) fr" and f: "friends_are fr d fs" and inv: "friend_inv (fstat fs)"
    and i: "in_int32 a" "in_int32 b"
  shows "\<exists>ok d' fs'. sendRequest E a b m d = (Inr ok, d') \<and> friends_are fr d' fs' \<and> friend_inv (fstat fs') \<and>
      friend_step\<^sup>=\<^sup>= (fstat fs) (fstat fs') \<and> (ok \<longrightarrow> fstat fs' (a, b) = Some ''pending'') \<and>
      (0 < a \<and> 0 < b \<and> a \<noteq> b \<and> fstat fs (a, b) = None \<and>
       (fstat fs (b, a) = None \<or> fstat fs (b, a) = Some ''rejected'') \<longrightarrow> ok)"
proof -
  obtain ok d' fs' where 1: "sendRequest E a b m d = (Inr ok, d')" "friends_are fr d' fs'"
    "fstat fs' = fstat fs \<and> (ok \<longrightarrow> fstat fs (a, b) = Some ''pending'') \<or>
     ok \<and> 0 < a \<and> 0 < b \<and> a \<noteq> b \<and> fstat fs (a, b) = None \<and>
       (fstat fs (b, a) = None \<or> fstat fs (b, a) = Some ''rejected'') \<and>
       fstat fs' = (fstat fs)((a, b) \<mapsto> ''pending'')"
    "0 < a \<and> 0 < b \<and> a \<noteq> b \<and> fstat fs (a, b) = None \<and>
       (fstat fs (b, a) = None \<or> fstat fs (b, a) = Some ''rejected'') \<longrightarrow> ok"
    using sendRequest_run [OF S f inv i] by blast
  have step: "friend_step\<^sup>=\<^sup>= (fstat fs) (fstat fs')"
    using 1(3) friend_step.request [of a b "fstat fs"] by auto
  have "ok \<longrightarrow> fstat fs' (a, b) = Some ''pending''" using 1(3) by auto
  then show ?thesis using 1(1,2,4) step friend_inv_maybe [OF step inv] by blast
qed

lemma answer_refines:
  assumes S: "sqlite_friendships (sqlite E) fr" and f: "friends_are fr d fs" and inv: "friend_inv (fstat fs)"
    and st: "st = ''accepted'' \<or> st = ''rejected''"
  shows "\<exists>d' fs'. setStatus E a b st d = (Inr (fstat fs (a, b) = Some ''pending''), d') \<and> friends_are fr d' fs' \<and>
      friend_inv (fstat fs') \<and> friend_step\<^sup>=\<^sup>= (fstat fs) (fstat fs') \<and>
      (fstat fs (a, b) = Some ''pending'' \<longrightarrow> fstat fs' (a, b) = Some st)"
proof -
  obtain d' fs' where 2: "setStatus E a b st d = (Inr (fstat fs (a, b) = Some ''pending''), d')" "friends_are fr d' fs'"
      "fstat fs' = (if fstat fs (a, b) = Some ''pending'' then (fstat fs)((a, b) \<mapsto> st) else fstat fs)"
    using setStatus_run [OF S f, of st a b] st by auto
  have step: "friend_step\<^sup>=\<^sup>= (fstat fs) (fstat fs')"
    using 2(3) st friend_step.accept [of "fstat fs" a b] friend_step.reject [of "fstat fs" a b] by auto
  show ?thesis using 2 step friend_inv_maybe [OF step inv] by (intro exI [of _ d'] exI [of _ fs']) simp
qed

lemma remove_refines:
  assumes S: "sqlite_friendships (sqlite E) fr" and f: "friends_are fr d fs" and inv: "friend_inv (fstat fs)"
  shows "\<exists>d' fs'. removeFriendship E a b d = (Inr (fstat fs (a, b) \<noteq> None \<or> fstat fs (b, a) \<noteq> None), d') \<and>
      friends_are fr d' fs' \<and> friend_inv (fstat fs') \<and> friend_step\<^sup>=\<^sup>= (fstat fs) (fstat fs') \<and>
      fstat fs' (a, b) = None \<and> fstat fs' (b, a) = None"
proof -
  obtain d' fs' where 4: "removeFriendship E a b d = (Inr (fstat fs (a, b) \<noteq> None \<or> fstat fs (b, a) \<noteq> None), d')"
      "friends_are fr d' fs'" "fstat fs' = (fstat fs)((a, b) := None, (b, a) := None)"
    using remove_run [OF S f] by blast
  have step: "friend_step\<^sup>=\<^sup>= (fstat fs) (fstat fs')" using 4(3) friend_step.remove by auto
  show ?thesis using 4 step friend_inv_maybe [OF step inv] by (intro exI [of _ d'] exI [of _ fs']) simp
qed

section \<open>Properties\<close>

text \<open>C11: The repository implements the state machine of friendships. Starting from rows whose statuses
  satisfy the invariant (no one is a friend of himself, and of the two directions of a pair at most
  one is pending or accepted), every operation leaves rows that satisfy it and changes the statuses
  by no step or one step of the machine. A request that is answered with success is pending
  afterwards, and it succeeds whenever the pair has no request or only one that the asking user
  had rejected; accepting and rejecting succeed exactly on a pending request; removing succeeds
  exactly when there is a row.\<close>

theorem friendship_refines:
  assumes S: "sqlite_friendships (sqlite E) fr" and f: "friends_are fr d fs" and inv: "friend_inv (fstat fs)"
    and i: "in_int32 a" "in_int32 b"
  shows "(\<exists>ok d' fs'. sendRequest E a b m d = (Inr ok, d') \<and> friends_are fr d' fs' \<and> friend_inv (fstat fs') \<and>
      friend_step\<^sup>=\<^sup>= (fstat fs) (fstat fs') \<and> (ok \<longrightarrow> fstat fs' (a, b) = Some ''pending'') \<and>
      (0 < a \<and> 0 < b \<and> a \<noteq> b \<and> fstat fs (a, b) = None \<and>
       (fstat fs (b, a) = None \<or> fstat fs (b, a) = Some ''rejected'') \<longrightarrow> ok)) \<and>
    (\<exists>d' fs'. acceptRequest E a b d = (Inr (fstat fs (a, b) = Some ''pending''), d') \<and> friends_are fr d' fs' \<and>
      friend_inv (fstat fs') \<and> friend_step\<^sup>=\<^sup>= (fstat fs) (fstat fs') \<and>
      (fstat fs (a, b) = Some ''pending'' \<longrightarrow> fstat fs' (a, b) = Some ''accepted'')) \<and>
    (\<exists>d' fs'. rejectRequest E a b d = (Inr (fstat fs (a, b) = Some ''pending''), d') \<and> friends_are fr d' fs' \<and>
      friend_inv (fstat fs') \<and> friend_step\<^sup>=\<^sup>= (fstat fs) (fstat fs') \<and>
      (fstat fs (a, b) = Some ''pending'' \<longrightarrow> fstat fs' (a, b) = Some ''rejected'')) \<and>
    (\<exists>d' fs'. removeFriendship E a b d = (Inr (fstat fs (a, b) \<noteq> None \<or> fstat fs (b, a) \<noteq> None), d') \<and>
      friends_are fr d' fs' \<and> friend_inv (fstat fs') \<and> friend_step\<^sup>=\<^sup>= (fstat fs) (fstat fs') \<and>
      fstat fs' (a, b) = None \<and> fstat fs' (b, a) = None)"
  using send_refines [OF S f inv i] answer_refines [OF S f inv, of "''accepted''" a b]
    answer_refines [OF S f inv, of "''rejected''" a b] remove_refines [OF S f inv]
  unfolding acceptRequest_def rejectRequest_def by blast

definition ref_friends :: "friendship list \<Rightarrow> ref_db database" where
  "ref_friends fs = \<lparr>data_dir = ''data'', db_handle = Some \<lparr>rtabs = Map.empty, rfr = Some fs\<rparr>,
     tables = Map.empty, ticks = 0, rnds = 0\<rparr>"

theorem friendship_refines_witness:
  "\<exists>d' fs'. sendRequest ref_env 1 2 ''hi'' (ref_friends []) = (Inr True, d') \<and> friends_are rfr d' fs' \<and>
     fstat fs' (1, 2) = Some ''pending''"
proof -
  have "sqlite_friendships (sqlite ref_env) rfr" by (simp add: ref_env_def ref_engine_friendships)
  moreover have "friends_are rfr (ref_friends []) []" by (simp add: friends_are_def ref_friends_def fs_distinct_def)
  moreover have "friend_inv (fstat [])" "fstat [] = Map.empty" by (simp_all add: fstat_def friend_inv_empty)
  ultimately show ?thesis
    using friendship_refines [of ref_env rfr "ref_friends []" "[]" 1 2 "''hi''"] by (auto simp: in_int32_def)
qed

text \<open>Every state of the machine that can be reached from no friendships satisfies the invariant:
  a user is never on both ends of a request, and of two users at most one has a request to the
  other that is pending or accepted, so being friends is one row and symmetric.\<close>

theorem friendship_invariant:
  "\<forall>st. friend_step\<^sup>*\<^sup>* (\<lambda>_. None) st \<longrightarrow> friend_inv st \<and>
     (\<forall>a. st (a, a) = None) \<and>
     (\<forall>a b. st (a, b) = Some ''accepted'' \<longrightarrow> st (b, a) \<notin> {Some ''pending'', Some ''accepted''})"
proof (intro allI impI conjI)
  fix st assume "friend_step\<^sup>*\<^sup>* (\<lambda>_. None) st"
  then show inv: "friend_inv st" by (rule friend_inv_reachable)
  show "st (a, a) = None" for a using friend_invD(3) [OF inv, of a a] by (cases "st (a, a)") auto
  show "st (a, b) = Some ''accepted'' \<Longrightarrow> st (b, a) \<notin> {Some ''pending'', Some ''accepted''}" for a b
    using friend_invD(5) [OF inv, of a b "''accepted''"] by auto
qed

theorem friendship_invariant_witness:
  "friend_inv ((\<lambda>_. None)((1, 2) \<mapsto> ''pending'', (1, 2) \<mapsto> ''accepted''))"
proof -
  have "friend_step (\<lambda>_. None) ((\<lambda>_. None)((1, 2) \<mapsto> ''pending''))" by (rule friend_step.request) auto
  moreover have "friend_step ((\<lambda>_. None)((1, 2) \<mapsto> ''pending''))
      ((\<lambda>_. None)((1, 2) \<mapsto> ''pending'', (1, 2) \<mapsto> ''accepted''))" by (rule friend_step.accept) simp
  ultimately have "friend_step\<^sup>*\<^sup>* (\<lambda>_. None) ((\<lambda>_. None)((1, 2) \<mapsto> ''pending'', (1, 2) \<mapsto> ''accepted''))"
    by (meson converse_rtranclp_into_rtranclp rtranclp.rtrancl_refl)
  then show ?thesis using friendship_invariant by blast
qed

text \<open>What the queries answer is determined by the statuses: two users are friends exactly when
  one of the two directions is accepted, whichever way it is asked, and the pending requests of a
  user are exactly the pending rows addressed to him.\<close>

theorem friendship_queries:
  assumes S: "sqlite_friendships (sqlite E) fr" and f: "friends_are fr d fs"
    and i: "\<forall>g \<in> set fs. in_int32 (fs_from g) \<and> in_int32 (fs_to g)"
  shows "areFriends E a b d = (Inr (fstat fs (a, b) = Some ''accepted'' \<or> fstat fs (b, a) = Some ''accepted''), d) \<and>
    areFriends E b a d = areFriends E a b d \<and>
    (\<exists>ps. pendingRequests E a d = (Inr ps, d) \<and>
      (\<forall>x. (\<exists>p \<in> set ps. fr_from_uid p = x) \<longleftrightarrow> fstat fs (x, a) = Some ''pending'') \<and>
      (\<forall>p \<in> set ps. fr_to_uid p = a \<and> fr_status p = ''pending''))"
proof -
  obtain h where h: "db_handle d = Some h" "fr h = Some fs" and ds: "fs_distinct fs"
    using f by (auto simp: friends_are_def)
  have are: "areFriends E x y d = (Inr (fstat fs (x, y) = Some ''accepted'' \<or> fstat fs (y, x) = Some ''accepted''), d)" for x y
  proof -
    obtain rs where rs: "sq_select (sqlite E) fs_are_sql [SqlInt x, SqlInt y, SqlInt y, SqlInt x] h = Some rs"
      "rs \<noteq> [] \<longleftrightarrow> list_ex (\<lambda>f. fs_status f = ''accepted'' \<and> fs_pair x y f) fs"
      using fs_are [OF S, THEN spec, of h, THEN spec, of fs, THEN spec, of x, THEN spec, of y, THEN mp, OF h(2)]
      by (elim exE conjE) (rule that)
    have "list_ex (\<lambda>f. fs_status f = ''accepted'' \<and> fs_pair x y f) fs \<longleftrightarrow>
        fstat fs (x, y) = Some ''accepted'' \<or> fstat fs (y, x) = Some ''accepted''"
      by (auto simp: fstat_mem [OF ds] list_ex_iff fs_pair_key)
    then show ?thesis using h(1) rs by (simp add: areFriends_def sqlite3_select_def bindP_run returnP_run)
  qed
  obtain fs' where p: "mset fs' = mset (filter (\<lambda>f. fs_to f = a \<and> fs_status f = ''pending'') fs)"
    "sq_select (sqlite E) fs_pending_sql [SqlInt a] h = Some (map (\<lambda>f. [SqlInt (fs_from f), SqlInt (fs_to f),
       SqlText (fs_status f), SqlText (fs_msg f)]) fs')"
    using fs_pending [OF S, rule_format, OF h(2)] by blast
  have set: "set fs' = {f \<in> set fs. fs_to f = a \<and> fs_status f = ''pending''}"
    using mset_eq_setD [OF p(1)] by simp
  let ?ps = "map (\<lambda>f. \<lparr>fr_from_uid = to_int32 (fs_from f), fr_to_uid = to_int32 (fs_to f),
      fr_status = c_str (fs_status f), fr_request_msg = c_str (fs_msg f)\<rparr>) fs'"
  have "pendingRequests E a d = (Inr ?ps, d)"
    using h(1) p(2) by (simp add: pendingRequests_def sqlite3_select_def bindP_run returnP_run column_def
        column_int_def column_text_def comp_def)
  moreover have "\<forall>x. (\<exists>p \<in> set ?ps. fr_from_uid p = x) \<longleftrightarrow> fstat fs (x, a) = Some ''pending''"
    using i by (force simp: set fstat_mem [OF ds] fs_key_def)
  moreover have "\<forall>p \<in> set ?ps. fr_to_uid p = a \<and> fr_status p = ''pending''"
    using i by (auto simp: set c_str_def NUL_def)
  ultimately show ?thesis using are [of a b] are [of b a] by (auto simp: disj_commute)
qed

theorem friendship_queries_witness:
  "areFriends ref_env 2 1 (ref_friends [\<lparr>fs_from = 1, fs_to = 2, fs_status = ''accepted'', fs_msg = ''hi'',
      fs_created = 0, fs_updated = 0\<rparr>]) =
   (Inr True, ref_friends [\<lparr>fs_from = 1, fs_to = 2, fs_status = ''accepted'', fs_msg = ''hi'',
      fs_created = 0, fs_updated = 0\<rparr>])"
proof -
  let ?f = "\<lparr>fs_from = 1, fs_to = 2, fs_status = ''accepted'', fs_msg = ''hi'', fs_created = 0, fs_updated = 0\<rparr>"
  have "sqlite_friendships (sqlite ref_env) rfr" by (simp add: ref_env_def ref_engine_friendships)
  moreover have "friends_are rfr (ref_friends [?f]) [?f]" by (simp add: friends_are_def ref_friends_def fs_distinct_def)
  moreover have "fstat [?f] (1, 2) = Some ''accepted''" by (simp add: fstat_def fs_key_def)
  ultimately show ?thesis
    using friendship_queries [of ref_env rfr "ref_friends [?f]" "[?f]" 2 1] by (simp add: in_int32_def)
qed

end
