(* ===== verification/MessageRouter.thy ===== *)
theory MessageRouter
  imports Sessions ProtocolJson UserRepository ChannelRepository FriendRepository
begin

text \<open>
  The dispatch of requests: \<^verbatim>\<open>src/server/src/MessageRouter.cpp\<close>. Every handler is one definition,
  with the calls of its C++ body in their order. A handler works on the state of the whole server:
  the sessions and their pool, the presence map, and the table store behind the four repositories.

  The interface between the handlers and what they call is the locale \<open>router_services\<close>: a relation
  on states that every service call keeps, the calls being restricted to those the handlers make for
  the user of the session. Inside it, every handler and \<open>route\<close> are shown to keep the relation.
\<close>

section \<open>The state of the server\<close>

text \<open>
  \<open>next_session_id\<close> is the static counter \<open>AsyncSession::next_id_\<close>, \<open>accepting\<close> the session that the
  outstanding \<open>async_accept\<close> was started with.
\<close>

record 'db server = net +
  store :: "'db database"
  presence :: presence_map
  next_session_id :: nat
  accepting :: "nat option"

definition onDb :: "('db database, 'a) prog \<Rightarrow> ('db server, 'a) prog" where
  "onDb m = zoomP store store_update m"

section \<open>Messages as JSON\<close>

definition userToJson :: "UserInfo \<Rightarrow> string \<Rightarrow> object" where
  "userToJson user st = obj_sets []
     [(''id'', JInt (u_id user)), (''nickname'', JString (u_nickname user)),
      (''headId'', JInt (u_avatar_id user)), (''status'', JString st)]"

definition groupToJson :: "ChannelInfo \<Rightarrow> object" where
  "groupToJson g = obj_sets []
     [(''groupId'', JInt (ch_group_id g)), (''name'', JString (ch_name g)),
      (''hostId'', JInt (ch_host_id g))]"

definition friendToJson :: "UserInfo \<Rightarrow> string \<Rightarrow> object" where
  "friendToJson user st = userToJson user st"

definition messageToJson :: "MsgType \<Rightarrow> StoredMessage \<Rightarrow> object" where
  "messageToJson t m = obj_sets []
     ([(''type'', JInt (toInt t)), (''msg_id'', JInt (msg_id m)), (''fromId'', JInt (from_id m))] @
      (if to_id m > 0 then [(''toId'', JInt (to_id m))] else []) @
      (if group_id m > 0 then [(''groupId'', JInt (group_id m))] else []) @
      [(''msg'', JString (content m)), (''content_type'', JString (content_type m)),
       (''timestamp'', JInt (timestamp m)), (''read'', JBool (msg_read m)),
       (''edited'', JBool (edited m)), (''deleted'', JBool (deleted m)),
       (''edited_at'', JInt (edited_at m)), (''deleted_at'', JInt (deleted_at m))] @
      (if reactions m \<noteq> [] then [(''reactions'', JString (reactions m))] else []))"

definition messagesToArray :: "StoredMessage list \<Rightarrow> array" where
  "messagesToArray ms = map (\<lambda>m.
     JObj (messageToJson (if group_id m > 0 then ReceiveGroupMsg else ReceiveMsg) m)) ms"

definition newline :: string where
  "newline = [CHR 0x0A]"

definition summarizeMessages :: "StoredMessage list \<Rightarrow> string" where
  "summarizeMessages ms =
     (if ms = [] then ''No recent messages are available for this conversation.''
      else
        ''Summary based on '' @ to_string (int (length ms)) @ '' recent messages.'' @ newline @
        ''- Time span: '' @ to_string (timestamp (hd ms)) @ '' to '' @ to_string (timestamp (last ms)) @
          ''.'' @ newline @
        ''- Latest topic: '' @ take 180 (content (last ms)) @ newline @
        (if length ms > 1 then ''- Earlier context: '' @ take 160 (content (hd ms)) @ newline else []) @
        ''- Suggested follow-up: review unresolved asks and confirm owners in chat.'')"

text \<open>The loop over the summary: \<open>rest\<close> is what follows the offset, \<open>k\<close> the index of the chunk.\<close>

definition chunkSize :: nat where
  "chunkSize = 80"

function summary_chunks :: "nat \<Rightarrow> string \<Rightarrow> string \<Rightarrow> int \<Rightarrow> ('db server, unit) prog" where
  "summary_chunks i requestId rest k =
     (if rest = [] then returnP ()
      else
        thenP (deliver i (serialize_object (obj_sets []
           [(''type'', JInt (toInt AIStreamChunk)), (''request_id'', JString requestId),
            (''chunk_index'', JInt k), (''is_final'', JBool (chunkSize \<ge> length rest)),
            (''msg'', JString (take chunkSize rest))])))
          (summary_chunks i requestId (drop chunkSize rest) (to_int32 (k + 1))))"
  by pat_completeness auto
termination by (relation "measure (\<lambda>(_, _, rest, _). length rest)") (auto simp: chunkSize_def)

declare summary_chunks.simps [simp del]

definition deliverSummaryChunks :: "nat \<Rightarrow> string \<Rightarrow> string \<Rightarrow> ('db server, unit) prog" where
  "deliverSummaryChunks i requestId summary =
     thenP (deliver i (serialize_object (obj_sets []
        [(''type'', JInt (toInt AIResponse)), (''request_id'', JString requestId),
         (''status'', JString ''start'')])))
       (summary_chunks i requestId summary 0)"

section \<open>Delivery\<close>

definition authenticatedUserId :: "nat \<Rightarrow> ('db server, int) prog" where
  "authenticatedUserId i =
     getP (\<lambda>s. if authenticated (sess s i) then user_id (sess s i) else 0)"

text \<open>\<open>auto target = sessions_.findByUserId(u); if (target) target->deliver(payload);\<close>\<close>

definition deliver_to_user :: "int \<Rightarrow> string \<Rightarrow> ('db server, unit) prog" where
  "deliver_to_user u payload =
     bindP (getP (findByUserId u)) (\<lambda>target.
       case target of None \<Rightarrow> returnP () | Some j \<Rightarrow> deliver j payload)"

definition deliverToConversation :: "'db env \<Rightarrow> string \<Rightarrow> int \<Rightarrow> int \<Rightarrow> int \<Rightarrow> ('db server, unit) prog" where
  "deliverToConversation E payload senderId toId groupId =
     (if groupId > 0 then
        bindP (onDb (members E groupId)) (\<lambda>ms. forP ms (\<lambda>m. deliver_to_user m payload))
      else
        thenP (deliver_to_user senderId payload)
          (whenP (toId > 0 \<and> toId \<noteq> senderId) (deliver_to_user toId payload)))"

definition deliverOffline :: "'db env \<Rightarrow> nat \<Rightarrow> int \<Rightarrow> ('db server, unit) prog" where
  "deliverOffline E i userId =
     bindP (onDb (offlineForUser E userId 100)) (\<lambda>offline.
       if offline = [] then returnP ()
       else deliver i (serialize_object (obj_sets []
         [(''type'', JInt (toInt OfflineMessages)), (''messages'', JArr (messagesToArray offline))])))"

definition broadcastPresence :: "'db env \<Rightarrow> MsgType \<Rightarrow> int \<Rightarrow> ('db server, unit) prog" where
  "broadcastPresence E t userId =
     bindP (onDb (findById E userId)) (\<lambda>found.
       case found of
         None \<Rightarrow> returnP ()
       | Some user \<Rightarrow>
           let json = serialize_object (obj_sets []
             [(''type'', JInt (toInt FriendOnline)), (''friendId'', JInt userId),
              (''status'', JString (if t = UserOnline then ''ok'' else ''failed'')),
              (''nickname'', JString (u_nickname user)), (''headId'', JInt (u_avatar_id user))])
           in bindP (onDb (getFriends E userId)) (\<lambda>fs.
                forP fs (\<lambda>f. deliver_to_user (u_id f) json)))"

section \<open>The handlers\<close>

definition handleRegister :: "'db env \<Rightarrow> nat \<Rightarrow> object \<Rightarrow> ('db server, unit) prog" where
  "handleRegister E i request =
     (let nickname = stringField request ''nickname'' (stringField request ''name'' []);
          password = stringField request ''password'' [];
          avatarId = intField request ''headId'' 0
      in if nickname = [] \<or> length password < 1
         then deliver i (error_reply RegisterUserReturn 400 ''nickname and password required'')
         else
           bindP (onDb (create E password nickname avatarId)) (\<lambda>uid.
             if uid \<le> 0 then deliver i (error_reply RegisterUserReturn 409 ''nickname taken or invalid'')
             else deliver i (serialize_object (obj_sets []
               [(''type'', JInt (toInt RegisterUserReturn)), (''status'', JString ''ok''),
                (''id'', JInt uid), (''msg'', JString ''registered'')]))))"

text \<open>The lists of users, friends and groups in the reply to a login.\<close>

definition login_reply :: "'db env \<Rightarrow> int \<Rightarrow> UserInfo \<Rightarrow> ('db server, string) prog" where
  "login_reply E uid user =
     bindP (onDb (getAllUsers E)) (\<lambda>known.
     bindP (getP (\<lambda>s. map (\<lambda>u. JObj (userToJson u (presence_status (u_id u) (presence s)))) known)) (\<lambda>users.
     bindP (onDb (getFriends E uid)) (\<lambda>fs.
     bindP (getP (\<lambda>s. map (\<lambda>u. JObj (friendToJson u (presence_status (u_id u) (presence s)))) fs)) (\<lambda>friends.
     bindP (onDb (groupsForUser E uid)) (\<lambda>gs.
       returnP (serialize_object (obj_sets []
         [(''type'', JInt (toInt LoginSuccessReturn)), (''id'', JInt uid),
          (''nickname'', JString (u_nickname user)), (''headId'', JInt (u_avatar_id user)),
          (''friends'', JArr friends), (''users'', JArr users),
          (''groups'', JArr (map (\<lambda>g. JObj (groupToJson g)) gs))])))))))"

definition handleLogin :: "'db env \<Rightarrow> nat \<Rightarrow> object \<Rightarrow> ('db server, unit) prog" where
  "handleLogin E i request =
     (let uid = intField request ''id'' 0; password = stringField request ''password'' [] in
      bindP (if uid \<le> 0 then returnP False else onDb (verifyPassword E uid password)) (\<lambda>verified.
        if \<not> verified then deliver i (error_reply LoginFailedReturn 401 ''invalid credentials'')
        else
          bindP (onDb (findById E uid)) (\<lambda>found.
            case found of
              None \<Rightarrow> deliver i (error_reply LoginFailedReturn 404 ''user not found'')
            | Some user \<Rightarrow>
                thenP (bindUser i uid)
                (thenP (modifyP (presence_update (setOnline uid ''online'')))
                (thenP (onDb (setOnlineStatus E uid True))
                (bindP (login_reply E uid user) (\<lambda>response.
                 thenP (deliver i response)
                (thenP (deliverOffline E i uid)
                  (broadcastPresence E UserOnline uid)))))))))"

definition handleLogout :: "'db env \<Rightarrow> nat \<Rightarrow> object \<Rightarrow> ('db server, unit) prog" where
  "handleLogout E i request =
     bindP (authenticatedUserId i) (\<lambda>uid.
       thenP (whenP (uid > 0)
           (thenP (modifyP (presence_update (setOffline uid)))
           (thenP (onDb (setOnlineStatus E uid False))
           (thenP (unbindUser uid)
             (broadcastPresence E UserOffline uid)))))
         (deliver i (ok_reply SystemBroadcast ''logged out'')))"

definition handlePrivateMessage :: "'db env \<Rightarrow> nat \<Rightarrow> object \<Rightarrow> ('db server, unit) prog" where
  "handlePrivateMessage E i request =
     bindP (authenticatedUserId i) (\<lambda>fromId.
       let toId = intField request ''toId'' 0; txt = stringField request ''msg'' [];
           contentType = stringField request ''content_type'' ''text''
       in if fromId \<le> 0 \<or> toId \<le> 0 \<or> txt = []
          then deliver i (error_reply SystemBroadcast 400 ''fromId, toId and msg required'')
          else
            bindP (getP (findByUserId toId)) (\<lambda>target.
            bindP (onDb (savePrivate E fromId toId txt contentType (target \<noteq> None))) (\<lambda>message.
              let payload = serialize_object (messageToJson ReceiveMsg message)
              in thenP (case target of None \<Rightarrow> returnP () | Some j \<Rightarrow> deliver j payload)
                   (deliver i payload))))"

definition handleGroupMessage :: "'db env \<Rightarrow> nat \<Rightarrow> object \<Rightarrow> ('db server, unit) prog" where
  "handleGroupMessage E i request =
     bindP (authenticatedUserId i) (\<lambda>fromId.
       let groupId = intField request ''groupId'' 0; txt = stringField request ''msg'' [];
           contentType = stringField request ''content_type'' ''text''
       in if fromId \<le> 0 \<or> groupId \<le> 0 \<or> txt = []
          then deliver i (error_reply SystemBroadcast 400 ''fromId, groupId and msg required'')
          else
            bindP (onDb (saveGroup E fromId groupId txt contentType)) (\<lambda>message.
              let payload = serialize_object (messageToJson ReceiveGroupMsg message)
              in bindP (onDb (members E groupId)) (\<lambda>ms. forP ms (\<lambda>m. deliver_to_user m payload))))"

definition handleCreateGroup :: "'db env \<Rightarrow> nat \<Rightarrow> object \<Rightarrow> ('db server, unit) prog" where
  "handleCreateGroup E i request =
     bindP (authenticatedUserId i) (\<lambda>hostId.
       let name = stringField request ''name'' [] in
       if hostId \<le> 0 \<or> name = []
       then deliver i (error_reply CreateGroupReturn 400 ''hostId and name required'')
       else
         bindP (onDb (createGroup E hostId name)) (\<lambda>g.
           deliver i (serialize_object (obj_sets (groupToJson g)
             [(''type'', JInt (toInt CreateGroupReturn)), (''status'', JString ''ok'')]))))"

definition handleSearchGroup :: "'db env \<Rightarrow> nat \<Rightarrow> object \<Rightarrow> ('db server, unit) prog" where
  "handleSearchGroup E i request =
     (let keyword = stringField request ''name'' []; limit = intField request ''limit'' 20 in
      bindP (onDb (searchGroups E keyword limit)) (\<lambda>gs.
        deliver i (serialize_object (obj_sets []
          [(''type'', JInt (toInt SearchGroupReturn)), (''status'', JString ''ok''),
           (''groups'', JArr (map (\<lambda>g. JObj (groupToJson g)) gs))]))))"

text \<open>The loop that looks up the members of a group: those without an account are left out.\<close>

definition member_users :: "'db env \<Rightarrow> int list \<Rightarrow> ('db server, array) prog" where
  "member_users E ms =
     bindP (mapP (\<lambda>m. bindP (onDb (findById E m)) (\<lambda>found.
         case found of
           None \<Rightarrow> returnP []
         | Some user \<Rightarrow> getP (\<lambda>s. [JObj (userToJson user (presence_status m (presence s)))]))) ms)
       (\<lambda>us. returnP (concat us))"

definition handleJoinGroup :: "'db env \<Rightarrow> nat \<Rightarrow> object \<Rightarrow> ('db server, unit) prog" where
  "handleJoinGroup E i request =
     bindP (authenticatedUserId i) (\<lambda>userId.
       let groupId = intField request ''groupId'' 0 in
       bindP (onDb (join E userId groupId)) (\<lambda>joined.
         if \<not> joined then deliver i (error_reply JoinGroupReturn 404 ''group not found'')
         else
           bindP (onDb (members E groupId)) (\<lambda>ms.
           bindP (member_users E ms) (\<lambda>users.
             deliver i (serialize_object (obj_sets []
               [(''type'', JInt (toInt JoinGroupReturn)), (''status'', JString ''ok''),
                (''groupId'', JInt groupId), (''users'', JArr users)]))))))"

definition handleLeaveGroup :: "'db env \<Rightarrow> nat \<Rightarrow> object \<Rightarrow> ('db server, unit) prog" where
  "handleLeaveGroup E i request =
     bindP (authenticatedUserId i) (\<lambda>userId.
       let groupId = intField request ''groupId'' 0 in
       thenP (onDb (leave E userId groupId))
         (deliver i (ok_reply SystemBroadcast ''left group'')))"

definition handleHistory :: "'db env \<Rightarrow> nat \<Rightarrow> object \<Rightarrow> ('db server, unit) prog" where
  "handleHistory E i request =
     bindP (authenticatedUserId i) (\<lambda>userId.
       let toId = intField request ''toId'' 0; groupId = intField request ''groupId'' 0;
           limit = max 1 (intField request ''limit'' 100); readMsgId = int64Field request ''msg_id'' 0
       in thenP (whenP (readMsgId > 0) (thenP (onDb (markRead E readMsgId 0)) (returnP ())))
           (bindP (if groupId > 0 then onDb (groupHistory E groupId limit)
                   else if userId > 0 \<and> toId > 0 then onDb (privateHistory E userId toId limit)
                   else returnP []) (\<lambda>history.
             deliver i (serialize_object (obj_sets []
               [(''type'', JInt (toInt HistoryResponse)), (''messages'', JArr (messagesToArray history)),
                (''has_more'', JBool False)])))))"

definition handleFileTransfer :: "'db env \<Rightarrow> nat \<Rightarrow> object \<Rightarrow> ('db server, unit) prog" where
  "handleFileTransfer E i request =
     bindP (authenticatedUserId i) (\<lambda>fromId.
       let toId = intField request ''toId'' 0; groupId = intField request ''groupId'' 0;
           fileName = stringField request ''file_name'' []; fileHash = stringField request ''file_hash'' []
       in if fromId \<le> 0 \<or> fileName = [] \<or> fileHash = [] \<or> toId \<le> 0 \<and> groupId \<le> 0
          then deliver i (error_reply FileTransferDone 400 ''fromId, target and file metadata required'')
          else
            let payload = serialize_object (obj_set ''type'' (JInt (toInt ReceiveFile)) request)
            in thenP (deliverToConversation E payload fromId toId groupId)
                 (deliver i (serialize_object (obj_sets []
                   [(''type'', JInt (toInt FileTransferDone)), (''status'', JString ''ok''),
                    (''file_hash'', JString fileHash), (''msg'', JString ''file metadata delivered'')]))))"

text \<open>
  The end of the handlers of edits, deletions and reactions: the optional fields of the reply, and
  the reply to the whole conversation or, on failure, to the session alone.
\<close>

definition conversation_fields :: "int \<Rightarrow> int \<Rightarrow> (string \<times> json) list" where
  "conversation_fields toId groupId =
     (if toId > 0 then [(''toId'', JInt toId)] else []) @
     (if groupId > 0 then [(''groupId'', JInt groupId)] else [])"

definition reply_conversation ::
  "'db env \<Rightarrow> nat \<Rightarrow> bool \<Rightarrow> string \<Rightarrow> int \<Rightarrow> int \<Rightarrow> int \<Rightarrow> ('db server, unit) prog" where
  "reply_conversation E i ok payload fromId toId groupId =
     (if ok then deliverToConversation E payload fromId toId groupId else deliver i payload)"

definition handleMessageEdit :: "'db env \<Rightarrow> nat \<Rightarrow> object \<Rightarrow> ('db server, unit) prog" where
  "handleMessageEdit E i request =
     bindP (authenticatedUserId i) (\<lambda>fromId.
       let msgId = int64Field request ''msg_id'' 0; txt = stringField request ''msg'' [];
           toId = intField request ''toId'' 0; groupId = intField request ''groupId'' 0
       in bindP (if fromId > 0 \<and> msgId > 0 then onDb (edit E msgId fromId txt) else returnP False) (\<lambda>ok.
          bindP (onDb (nowSeconds E)) (\<lambda>now.
            reply_conversation E i ok (serialize_object (obj_sets []
              ([(''type'', JInt (toInt MessageEditReturn)),
                (''status'', JString (if ok then ''ok'' else ''error'')),
                (''msg_id'', JInt msgId), (''fromId'', JInt fromId),
                (''msg'', JString (if ok then txt else ''message edit failed'')),
                (''edited_at'', JInt now)] @ conversation_fields toId groupId)))
              fromId toId groupId)))"

definition handleMessageDelete :: "'db env \<Rightarrow> nat \<Rightarrow> object \<Rightarrow> ('db server, unit) prog" where
  "handleMessageDelete E i request =
     bindP (authenticatedUserId i) (\<lambda>fromId.
       let msgId = int64Field request ''msg_id'' 0;
           toId = intField request ''toId'' 0; groupId = intField request ''groupId'' 0
       in bindP (if fromId > 0 \<and> msgId > 0 then onDb (softDelete E msgId fromId) else returnP False) (\<lambda>ok.
          bindP (onDb (nowSeconds E)) (\<lambda>now.
            reply_conversation E i ok (serialize_object (obj_sets []
              ([(''type'', JInt (toInt MessageDeleteReturn)),
                (''status'', JString (if ok then ''ok'' else ''error'')),
                (''msg_id'', JInt msgId), (''fromId'', JInt fromId),
                (''msg'', JString (if ok then ''deleted'' else ''message delete failed'')),
                (''deleted_at'', JInt now)] @ conversation_fields toId groupId)))
              fromId toId groupId)))"

definition handleMessageReaction :: "'db env \<Rightarrow> nat \<Rightarrow> object \<Rightarrow> ('db server, unit) prog" where
  "handleMessageReaction E i request =
     bindP (authenticatedUserId i) (\<lambda>fromId.
       let msgId = int64Field request ''msg_id'' 0; reaction = stringField request ''reaction'' [];
           toId = intField request ''toId'' 0; groupId = intField request ''groupId'' 0
       in bindP (if fromId > 0 \<and> msgId > 0 then onDb (addReaction E msgId fromId reaction)
                 else returnP False) (\<lambda>ok.
            reply_conversation E i ok (serialize_object (obj_sets []
              ([(''type'', JInt (toInt MessageReactionReturn)),
                (''status'', JString (if ok then ''ok'' else ''error'')),
                (''msg_id'', JInt msgId), (''fromId'', JInt fromId), (''reaction'', JString reaction),
                (''msg'', JString (if ok then ''reaction added'' else ''reaction failed''))] @
               conversation_fields toId groupId)))
              fromId toId groupId))"

definition handleReadReceipt :: "'db env \<Rightarrow> nat \<Rightarrow> object \<Rightarrow> ('db server, unit) prog" where
  "handleReadReceipt E i request =
     bindP (authenticatedUserId i) (\<lambda>fromId.
       let msgId = int64Field request ''msg_id'' 0;
           toId = intField request ''toId'' 0; groupId = intField request ''groupId'' 0
       in bindP (if fromId \<le> 0 \<or> msgId \<le> 0 then returnP False else onDb (markRead E msgId fromId)) (\<lambda>ok.
            if \<not> ok then deliver i (error_reply SystemBroadcast 400 ''read receipt failed'')
            else
              bindP (onDb (nowSeconds E)) (\<lambda>now.
                deliverToConversation E (serialize_object (obj_sets request
                  [(''type'', JInt (toInt ReadReceipt)), (''read_by'', JInt fromId),
                   (''read_at'', JInt now)])) fromId toId groupId)))"

definition hello_features :: "string list" where
  "hello_features = [''message_edit'', ''message_delete'', ''message_reaction'', ''read_receipt'',
     ''file_metadata'', ''profile_update'']"

definition serverVersion :: int where "serverVersion = 2"
definition serverMinVersion :: int where "serverMinVersion = 1"

definition handleProtocolHello :: "nat \<Rightarrow> object \<Rightarrow> ('db server, unit) prog" where
  "handleProtocolHello i request =
     (let clientVersion = intField request ''version'' serverMinVersion;
          clientMinVersion = intField request ''min_version'' clientVersion;
          compatible = (clientVersion \<ge> serverMinVersion \<and> clientMinVersion \<le> serverVersion)
      in deliver i (serialize_object (obj_sets []
           ([(''type'', JInt (toInt ProtocolHello)), (''version'', JInt serverVersion),
             (''min_version'', JInt serverMinVersion),
             (''status'', JString (if compatible then ''ok'' else ''error''))] @
            (if compatible then [] else [(''msg'', JString ''incompatible protocol version'')]) @
            [(''features'', JArr (map JString hello_features))]))))"

text \<open>\<open>std::stoi\<close> on a text: white space, a sign, digits; what follows the digits is ignored.\<close>

definition is_space :: "char \<Rightarrow> bool" where
  "is_space c \<longleftrightarrow> c = CHR '' '' \<or> 9 \<le> (of_char c :: int) \<and> (of_char c :: int) \<le> 13"

definition strtol_digits :: "string \<Rightarrow> bool \<times> string" where
  "strtol_digits txt =
     (let t = dropWhile is_space txt;
          signed = (t \<noteq> [] \<and> (hd t = CHR ''-'' \<or> hd t = CHR ''+''))
      in (signed \<and> hd t = CHR ''-'', takeWhile isdigit (if signed then tl t else t)))"

definition stoi :: "string \<Rightarrow> exn + int" where
  "stoi txt =
     (case strtol_digits txt of (neg, ds) \<Rightarrow>
        let v = (if neg then - digits_value ds else digits_value ds)
        in if ds = [] then Inl (InvalidArgument ''stoi'')
           else if in_int32 v then Inr v else Inl (OutOfRange ''stoi''))"

text \<open>The history that a summary is about, inside the \<open>try\<close> block.\<close>

definition summary_history :: "'db env \<Rightarrow> int \<Rightarrow> string \<Rightarrow> ('db server, StoredMessage list) prog" where
  "summary_history E userId query =
     (if is_prefix ''group:'' query then
        bindP (liftP (stoi (drop 6 query))) (\<lambda>g. onDb (groupHistory E g 50))
      else if is_prefix ''direct:'' query \<and> userId > 0 then
        bindP (liftP (stoi (drop 7 query))) (\<lambda>u. onDb (privateHistory E userId u 50))
      else returnP [])"

definition handleAIRequest :: "'db env \<Rightarrow> nat \<Rightarrow> object \<Rightarrow> ('db server, unit) prog" where
  "handleAIRequest E i request =
     (let requestId = stringField request ''request_id'' ''search'';
          aiType = stringField request ''ai_type'' []; query = stringField request ''msg'' []
      in if aiType = ''summarize'' then
           bindP (authenticatedUserId i) (\<lambda>userId.
           bindP (catchP (bindP (summary_history E userId query) (\<lambda>h. returnP (Some h))) (returnP None)) (\<lambda>history.
             case history of
               None \<Rightarrow> deliver i (error_reply AIResponse 400 ''invalid summarize target'')
             | Some h \<Rightarrow> deliverSummaryChunks i requestId (summarizeMessages h)))
         else if aiType \<noteq> ''search'' then
           deliver i (error_reply AIResponse 501 ''unsupported AI request type'')
         else
           bindP (onDb (search E query (intField request ''limit'' 50))) (\<lambda>ms.
             deliver i (serialize_object (obj_sets []
               [(''type'', JInt (toInt AIResponse)), (''request_id'', JString requestId),
                (''status'', JString ''done''),
                (''msg'', JString (serialize_object (obj_sets []
                   [(''query'', JString query), (''messages'', JArr (messagesToArray ms))])))]))))"

definition handleFriendRequest :: "'db env \<Rightarrow> nat \<Rightarrow> object \<Rightarrow> ('db server, unit) prog" where
  "handleFriendRequest E i request =
     bindP (authenticatedUserId i) (\<lambda>fromId.
       let toId = intField request ''toId'' 0; msg = stringField request ''msg'' [];
           ack = obj_sets [] [(''type'', JInt (toInt FriendRequestAck)),
                   (''requestId'', JString (to_string fromId @ '':'' @ to_string toId))]
       in bindP (if fromId \<le> 0 \<or> toId \<le> 0 then returnP False
                 else onDb (sendRequest E fromId toId msg)) (\<lambda>sent.
            if \<not> sent then
              deliver i (serialize_object (obj_sets ack
                [(''status'', JString ''error''), (''msg'', JString ''friend request failed''),
                 (''code'', JInt 400)]))
            else
              thenP (deliver i (serialize_object (obj_sets ack
                  [(''status'', JString ''ok''), (''msg'', JString ''request sent'')])))
                (deliver_to_user toId (serialize_object (obj_sets []
                  [(''type'', JInt (toInt FriendRequest)), (''fromId'', JInt fromId),
                   (''toId'', JInt toId), (''msg'', JString msg)])))))"

text \<open>The lambda \<open>deliverAccepted\<close> for a target that is not null.\<close>

definition accepted_reply :: "bool \<Rightarrow> int \<Rightarrow> UserInfo option \<Rightarrow> string" where
  "accepted_reply ok friendId friendUser = serialize_object (obj_sets []
     ([(''type'', JInt (toInt FriendAcceptReturn)), (''status'', JString (if ok then ''ok'' else ''error'')),
       (''friendId'', JInt friendId)] @
      (case friendUser of
         None \<Rightarrow> []
       | Some u \<Rightarrow> [(''nickname'', JString (u_nickname u)), (''headId'', JInt (u_avatar_id u))]) @
      (if ok then [] else [(''msg'', JString ''accept failed''), (''code'', JInt 400)])))"

definition handleFriendAccept :: "'db env \<Rightarrow> nat \<Rightarrow> object \<Rightarrow> ('db server, unit) prog" where
  "handleFriendAccept E i request =
     bindP (authenticatedUserId i) (\<lambda>toId.
       let fromId = intField request ''fromId'' 0 in
       bindP (if fromId > 0 \<and> toId > 0 then onDb (acceptRequest E fromId toId) else returnP False) (\<lambda>ok.
       bindP (onDb (findById E fromId)) (\<lambda>fromUser.
       bindP (onDb (findById E toId)) (\<lambda>toUser.
         thenP (deliver i (accepted_reply ok fromId fromUser))
           (deliver_to_user fromId (accepted_reply ok toId toUser))))))"

text \<open>The lambda \<open>deliverRemoved\<close> for a target that is not null.\<close>

definition removed_reply :: "bool \<Rightarrow> bool \<Rightarrow> int \<Rightarrow> bool \<Rightarrow> string" where
  "removed_reply ok rejectedPending removedId notifyReject = serialize_object (obj_sets []
     ([(''type'', JInt (toInt FriendRemoveReturn)), (''status'', JString (if ok then ''ok'' else ''error'')),
       (''friendId'', JInt removedId)] @
      (if notifyReject \<and> rejectedPending then [(''msg'', JString ''request rejected'')] else []) @
      (if ok then [] else [(''msg'', JString ''remove failed''), (''code'', JInt 400)])))"

definition handleFriendRemove :: "'db env \<Rightarrow> nat \<Rightarrow> object \<Rightarrow> ('db server, unit) prog" where
  "handleFriendRemove E i request =
     bindP (getP (\<lambda>s. if authenticated (sess s i) then user_id (sess s i) else 0)) (\<lambda>uid.
       let fromId = intField request ''fromId'' 0; toId = intField request ''toId'' 0;
           friendId = (if uid = fromId then toId else fromId)
       in bindP (if uid > 0 \<and> fromId > 0 \<and> toId > 0 \<and> uid = toId
                 then onDb (rejectRequest E fromId toId) else returnP False) (\<lambda>rejectedPending.
          bindP (if uid > 0 \<and> fromId > 0 \<and> toId > 0
                 then if rejectedPending then returnP True else onDb (removeFriendship E fromId toId)
                 else returnP False) (\<lambda>ok.
            thenP (deliver i (removed_reply ok rejectedPending friendId True))
              (deliver_to_user friendId (removed_reply ok rejectedPending uid rejectedPending)))))"

definition handleFriendList :: "'db env \<Rightarrow> nat \<Rightarrow> object \<Rightarrow> ('db server, unit) prog" where
  "handleFriendList E i request =
     bindP (authenticatedUserId i) (\<lambda>uid.
     bindP (onDb (getFriends E uid)) (\<lambda>fs.
     bindP (getP (\<lambda>s. map (\<lambda>u. JObj (friendToJson u (presence_status (u_id u) (presence s)))) fs)) (\<lambda>friends.
       deliver i (serialize_object (obj_sets []
         [(''type'', JInt (toInt FriendListReturn)), (''friends'', JArr friends)])))))"

definition handleSystemBroadcast :: "'db env \<Rightarrow> nat \<Rightarrow> object \<Rightarrow> ('db server, unit) prog" where
  "handleSystemBroadcast E i request =
     (if stringField request ''event'' [] \<noteq> ''typing''
      then deliver i (ok_reply SystemBroadcast ''broadcast ignored'')
      else
        bindP (authenticatedUserId i) (\<lambda>fromId.
          if fromId \<le> 0
          then deliver i (error_reply SystemBroadcast 401 ''typing requires authenticated sender'')
          else
            let payload = serialize_object request; toId = intField request ''toId'' 0;
                groupId = intField request ''groupId'' 0
            in if toId > 0 then deliver_to_user toId payload
               else if groupId > 0 then
                 bindP (onDb (members E groupId)) (\<lambda>ms.
                   forP ms (\<lambda>m. if m = fromId then returnP () else deliver_to_user m payload))
               else returnP ()))"

definition handleProfileUpdate :: "'db env \<Rightarrow> nat \<Rightarrow> object \<Rightarrow> ('db server, unit) prog" where
  "handleProfileUpdate E i request =
     bindP (authenticatedUserId i) (\<lambda>userId.
       let nickname = stringField request ''nickname'' []; avatarId = intField request ''headId'' 0
       in if userId \<le> 0 \<or> nickname = []
          then deliver i (error_reply SystemBroadcast 400 ''id and nickname required'')
          else
            bindP (onDb (updateProfile E userId nickname avatarId)) (\<lambda>found.
              if \<not> found then deliver i (error_reply SystemBroadcast 404 ''user not found'')
              else deliver i (ok_reply SystemBroadcast ''profile updated'')))"

section \<open>Dispatch\<close>

definition dispatch :: "'db env \<Rightarrow> nat \<Rightarrow> MsgType \<Rightarrow> object \<Rightarrow> ('db server, unit) prog" where
  "dispatch E i t request =
     (case t of
        RegisterUser \<Rightarrow> handleRegister E i request
      | Login \<Rightarrow> handleLogin E i request
      | Logout \<Rightarrow> handleLogout E i request
      | SendMsg \<Rightarrow> handlePrivateMessage E i request
      | SendGroupMsg \<Rightarrow> handleGroupMessage E i request
      | SendFile \<Rightarrow> handleFileTransfer E i request
      | CreateGroup \<Rightarrow> handleCreateGroup E i request
      | SearchGroup \<Rightarrow> handleSearchGroup E i request
      | JoinGroup \<Rightarrow> handleJoinGroup E i request
      | LeaveGroup \<Rightarrow> handleLeaveGroup E i request
      | RequestHistory \<Rightarrow> handleHistory E i request
      | AIRequest \<Rightarrow> handleAIRequest E i request
      | UserProfileUpdate \<Rightarrow> handleProfileUpdate E i request
      | FriendRequest \<Rightarrow> handleFriendRequest E i request
      | FriendAccept \<Rightarrow> handleFriendAccept E i request
      | FriendRemove \<Rightarrow> handleFriendRemove E i request
      | FriendList \<Rightarrow> handleFriendList E i request
      | SystemBroadcast \<Rightarrow> handleSystemBroadcast E i request
      | MessageEdit \<Rightarrow> handleMessageEdit E i request
      | MessageDelete \<Rightarrow> handleMessageDelete E i request
      | MessageReaction \<Rightarrow> handleMessageReaction E i request
      | ReadReceipt \<Rightarrow> handleReadReceipt E i request
      | ProtocolHello \<Rightarrow> handleProtocolHello i request
      | _ \<Rightarrow> deliver i (ok_reply SystemBroadcast ''server-next v1.2.0 routed frame''))"

definition route :: "'db env \<Rightarrow> nat \<Rightarrow> string \<Rightarrow> ('db server, unit) prog" where
  "route E i json =
     (case parseObject json of
        None \<Rightarrow> deliver i (error_reply SystemBroadcast 400 ''invalid json'')
      | Some request \<Rightarrow> dispatch E i (typeField request) request)"

section \<open>What the handlers rely on\<close>

text \<open>
  Sending replies and notifications only looks things up and delivers: the calls it makes, and a
  relation between states that each of them keeps.
\<close>

locale delivery_services = step_relation R for R :: "'db server \<Rightarrow> 'db server \<Rightarrow> bool" +
  fixes E :: "'db env"
  assumes deliver: "keeps R (deliver i json)"
    and findById: "keeps R (onDb (findById E u))"
    and getAllUsers: "keeps R (onDb (getAllUsers E))"
    and getFriends: "keeps R (onDb (getFriends E u))"
    and groupsForUser: "keeps R (onDb (groupsForUser E u))"
    and members: "keeps R (onDb (members E g))"
    and offlineForUser: "keeps R (onDb (offlineForUser E u limit))"
begin

lemmas lookups = deliver findById getAllUsers getFriends groupsForUser members offlineForUser

lemma keeps_to_user: "keeps R (deliver_to_user u payload)"
  unfolding deliver_to_user_def by (intro keeps_rules lookups)

lemma keeps_conversation: "keeps R (deliverToConversation E payload u v g)"
  unfolding deliverToConversation_def by (intro keeps_rules lookups keeps_to_user)

lemma keeps_offline: "keeps R (deliverOffline E i u)"
  unfolding deliverOffline_def by (intro keeps_rules lookups)

lemma keeps_presence: "keeps R (broadcastPresence E t u)"
  unfolding broadcastPresence_def Let_def by (intro keeps_rules lookups keeps_to_user)

lemma keeps_chunks: "keeps R (summary_chunks i req rest k)"
  by (induction i req rest k rule: summary_chunks.induct)
     (subst summary_chunks.simps, auto intro!: keeps_rules lookups)

lemma keeps_summary: "keeps R (deliverSummaryChunks i req txt)"
  unfolding deliverSummaryChunks_def by (intro keeps_rules lookups keeps_chunks)

lemma keeps_auth: "keeps R (authenticatedUserId i)"
  unfolding authenticatedUserId_def by (rule keeps_get)

lemma keeps_reply: "keeps R (reply_conversation E i ok payload u v g)"
  unfolding reply_conversation_def by (intro keeps_rules lookups keeps_conversation)

lemma keeps_login_reply: "keeps R (login_reply E u user)"
  unfolding login_reply_def by (intro keeps_rules lookups)

lemmas deliveries = lookups keeps_to_user keeps_conversation keeps_offline keeps_presence keeps_summary
  keeps_auth keeps_reply keeps_login_reply

end

text \<open>
  The services that the handlers call on behalf of a session whose user is \<open>actor\<close>. Calls that
  change data in the name of a user are promised for \<open>actor\<close> only; the others for all arguments.
\<close>

locale router_services = delivery_services R E for R :: "'db server \<Rightarrow> 'db server \<Rightarrow> bool" and E +
  fixes actor :: int
  assumes bindUser: "keeps R (bindUser i u)"
    and unbindUser: "keeps R (unbindUser u)"
    and presence: "keeps R (modifyP (presence_update f))"
    and now: "keeps R (onDb (nowSeconds E))"
    and create: "keeps R (onDb (create E pw nick avatar))"
    and verifyPassword: "keeps R (onDb (verifyPassword E u pw))"
    and setOnlineStatus: "keeps R (onDb (setOnlineStatus E u b))"
    and updateProfile: "0 < actor \<Longrightarrow> keeps R (onDb (updateProfile E actor nick avatar))"
    and sendRequest: "0 < actor \<Longrightarrow> keeps R (onDb (sendRequest E actor u msg))"
    and acceptRequest: "0 < actor \<Longrightarrow> keeps R (onDb (acceptRequest E u actor))"
    and rejectRequest: "0 < actor \<Longrightarrow> keeps R (onDb (rejectRequest E u actor))"
    and removeFriendship: "0 < actor \<Longrightarrow> keeps R (onDb (removeFriendship E u v))"
    and createGroup: "0 < actor \<Longrightarrow> keeps R (onDb (createGroup E actor name))"
    and searchGroups: "keeps R (onDb (searchGroups E name limit))"
    and join: "keeps R (onDb (join E actor g))"
    and leave: "keeps R (onDb (leave E actor g))"
    and savePrivate: "0 < actor \<Longrightarrow> keeps R (onDb (savePrivate E actor u txt ct dl))"
    and saveGroup: "0 < actor \<Longrightarrow> keeps R (onDb (saveGroup E actor g txt ct))"
    and privateHistory: "keeps R (onDb (privateHistory E u v limit))"
    and groupHistory: "keeps R (onDb (groupHistory E g limit))"
    and search: "keeps R (onDb (search E query limit))"
    and edit: "0 < actor \<Longrightarrow> keeps R (onDb (edit E m actor txt))"
    and softDelete: "0 < actor \<Longrightarrow> keeps R (onDb (softDelete E m actor))"
    and addReaction: "0 < actor \<Longrightarrow> keeps R (onDb (addReaction E m actor reaction))"
    and markRead: "keeps R (onDb (markRead E m u))"
begin

lemmas delivery = deliveries bindUser unbindUser presence now create verifyPassword setOnlineStatus
  searchGroups privateHistory groupHistory search markRead join leave

lemmas own_services = updateProfile sendRequest acceptRequest rejectRequest removeFriendship
  createGroup savePrivate saveGroup edit softDelete addReaction

text \<open>A handler that starts by asking for the user of its session.\<close>

lemma at_actor:
  "user_id (sess s i) = actor \<Longrightarrow> keeps R (k actor) \<Longrightarrow> R s (snd (bindP (authenticatedUserId i) k s))"
  by (auto simp: authenticatedUserId_def authenticated_def prog_simps keeps_def)

lemma register: "keeps R (handleRegister E i request)"
  unfolding handleRegister_def Let_def by (intro keeps_rules delivery)

lemma login: "keeps R (handleLogin E i request)"
  unfolding handleLogin_def Let_def by (intro keeps_rules delivery)

lemma logout: "keeps R (handleLogout E i request)"
  unfolding handleLogout_def by (intro keeps_rules delivery)

lemma search_group: "keeps R (handleSearchGroup E i request)"
  unfolding handleSearchGroup_def Let_def by (intro keeps_rules delivery)

lemma history: "keeps R (handleHistory E i request)"
  unfolding handleHistory_def Let_def by (intro keeps_rules delivery)

lemma file_transfer: "keeps R (handleFileTransfer E i request)"
  unfolding handleFileTransfer_def Let_def by (intro keeps_rules delivery)

lemma read_receipt: "keeps R (handleReadReceipt E i request)"
  unfolding handleReadReceipt_def Let_def by (intro keeps_rules delivery)

lemma hello: "keeps R (handleProtocolHello i request)"
  unfolding handleProtocolHello_def Let_def by (intro keeps_rules delivery)

lemma ai_request: "keeps R (handleAIRequest E i request)"
  unfolding handleAIRequest_def summary_history_def Let_def by (intro keeps_rules delivery)

lemma friend_list: "keeps R (handleFriendList E i request)"
  unfolding handleFriendList_def by (intro keeps_rules delivery)

lemma system_broadcast: "keeps R (handleSystemBroadcast E i request)"
  unfolding handleSystemBroadcast_def Let_def by (intro keeps_rules delivery)

lemmas open_handlers = register login logout search_group history file_transfer read_receipt hello
  ai_request friend_list system_broadcast

end

context router_services
begin

lemma private_message: "user_id (sess s i) = actor \<Longrightarrow> R s (snd (handlePrivateMessage E i request s))"
  unfolding handlePrivateMessage_def
  by (erule at_actor) (auto simp: Let_def intro!: keeps_rules delivery own_services)

lemma group_message: "user_id (sess s i) = actor \<Longrightarrow> R s (snd (handleGroupMessage E i request s))"
  unfolding handleGroupMessage_def
  by (erule at_actor) (auto simp: Let_def intro!: keeps_rules delivery own_services)

lemma create_group: "user_id (sess s i) = actor \<Longrightarrow> R s (snd (handleCreateGroup E i request s))"
  unfolding handleCreateGroup_def
  by (erule at_actor) (auto simp: Let_def intro!: keeps_rules delivery own_services)

lemma join_group: "user_id (sess s i) = actor \<Longrightarrow> R s (snd (handleJoinGroup E i request s))"
  unfolding handleJoinGroup_def member_users_def
  by (erule at_actor) (auto simp: Let_def intro!: keeps_rules delivery own_services)

lemma leave_group: "user_id (sess s i) = actor \<Longrightarrow> R s (snd (handleLeaveGroup E i request s))"
  unfolding handleLeaveGroup_def
  by (erule at_actor) (auto simp: Let_def intro!: keeps_rules delivery own_services)

lemma message_edit: "user_id (sess s i) = actor \<Longrightarrow> R s (snd (handleMessageEdit E i request s))"
  unfolding handleMessageEdit_def
  by (erule at_actor) (simp only: Let_def, intro keeps_rules delivery own_services, simp_all)

lemma message_delete: "user_id (sess s i) = actor \<Longrightarrow> R s (snd (handleMessageDelete E i request s))"
  unfolding handleMessageDelete_def
  by (erule at_actor) (simp only: Let_def, intro keeps_rules delivery own_services, simp_all)

lemma message_reaction: "user_id (sess s i) = actor \<Longrightarrow> R s (snd (handleMessageReaction E i request s))"
  unfolding handleMessageReaction_def
  by (erule at_actor) (simp only: Let_def, intro keeps_rules delivery own_services, simp_all)

lemma friend_request: "user_id (sess s i) = actor \<Longrightarrow> R s (snd (handleFriendRequest E i request s))"
  unfolding handleFriendRequest_def
  by (erule at_actor) (simp only: Let_def, intro keeps_rules delivery own_services, simp_all)

lemma friend_accept: "user_id (sess s i) = actor \<Longrightarrow> R s (snd (handleFriendAccept E i request s))"
  unfolding handleFriendAccept_def
  by (erule at_actor) (simp only: Let_def, intro keeps_rules delivery own_services, simp_all)

lemma reject_own: "actor = v \<Longrightarrow> 0 < v \<Longrightarrow> keeps R (onDb (rejectRequest E u v))"
  using rejectRequest by simp

lemma friend_remove: "user_id (sess s i) = actor \<Longrightarrow> R s (snd (handleFriendRemove E i request s))"
  unfolding handleFriendRemove_def authenticatedUserId_def [symmetric]
  by (erule at_actor) (auto simp: Let_def intro!: keeps_rules delivery own_services reject_own)

lemma profile_change: "user_id (sess s i) = actor \<Longrightarrow> R s (snd (handleProfileUpdate E i request s))"
  unfolding handleProfileUpdate_def
  by (erule at_actor) (auto simp: Let_def intro!: keeps_rules delivery own_services)

lemmas own_handlers = private_message group_message create_group join_group leave_group message_edit
  message_delete message_reaction friend_request friend_accept friend_remove profile_change

lemma dispatch_keeps: "user_id (sess s i) = actor \<Longrightarrow> R s (snd (dispatch E i t request s))"
  by (cases t) (simp_all add: dispatch_def own_handlers open_handlers [THEN keepsD] deliver [THEN keepsD])

lemma route_keeps: "user_id (sess s i) = actor \<Longrightarrow> R s (snd (route E i json s))"
  by (cases "parseObject json") (simp_all add: route_def dispatch_keeps deliver [THEN keepsD])

end

section \<open>The handlers and the network\<close>

lemma keeps_onDb: "keeps net_keeps (onDb m)"
  by (rule keepsI) (auto simp: onDb_def prog_simps split: prod.split intro: net_keeps_same)

lemma keeps_presence_update: "keeps net_keeps (modifyP (presence_update f))"
  by (rule keepsI) (simp add: prog_simps net_keeps_same)

interpretation net_router: router_services net_keeps E actor for E actor
  by unfold_locales (intro keeps_deliver keeps_bindUser keeps_unbindUser keeps_onDb keeps_presence_update)+

lemma route_net: "keeps net_keeps (route E i json)"
  by (rule keepsI) (rule net_router.route_keeps [OF refl])

end
