(* ===== verification/Authorship.thy ===== *)
theory Authorship
  imports MessageRouter
begin

text \<open>
  Who may change what. Every request is handled for the user of its session; a policy says which
  rows and fields of the tables the handling of a request may change for that user. The policy is
  the contract of locale \<open>table_policy\<close>, from which it follows what an operation on the table store
  may do, and the repositories' operations are shown to follow it. With the interpretation of
  \<open>router_services\<close> at the end it holds for every request.
\<close>

section \<open>Policies on tables\<close>

text \<open>\<open>allowed n rows rows'\<close>: the rows of table \<open>n\<close> may change from \<open>rows\<close> to \<open>rows'\<close>.\<close>

definition db_follows :: "(string \<Rightarrow> row list \<Rightarrow> row list \<Rightarrow> bool) \<Rightarrow> 'db database \<Rightarrow> 'db database \<Rightarrow> bool" where
  "db_follows allowed d d' \<longleftrightarrow> (\<forall>n rows. tables d n = Some rows \<longrightarrow>
     (\<exists>rows'. tables d' n = Some rows' \<and> allowed n rows rows'))"

locale table_policy =
  fixes allowed :: "string \<Rightarrow> row list \<Rightarrow> row list \<Rightarrow> bool"
  assumes allowed_refl: "allowed n rows rows"
    and allowed_trans: "allowed n rows rows' \<Longrightarrow> allowed n rows' rows'' \<Longrightarrow> allowed n rows rows''"

sublocale table_policy \<subseteq> db_step: step_relation "db_follows allowed"
proof
  fix d d' d'' :: "'c database"
  show "db_follows allowed d d" using allowed_refl by (auto simp: db_follows_def)
  assume "db_follows allowed d d'" "db_follows allowed d' d''"
  then show "db_follows allowed d d''" unfolding db_follows_def using allowed_trans by meson
qed

context table_policy
begin

lemma follows_same: "tables d' = tables d \<Longrightarrow> db_follows allowed d d'"
  using allowed_refl by (auto simp: db_follows_def)

lemma keeps_same_tables: "(\<And>d. tables (snd (m d)) = tables d) \<Longrightarrow> keeps (db_follows allowed) m"
  by (rule keepsI) (simp add: follows_same)

lemma keeps_now: "keeps (db_follows allowed) (nowSeconds E)"
  by (rule keeps_same_tables) (simp add: nowSeconds_def)

lemma keeps_random: "keeps (db_follows allowed) (random_block E)"
  by (rule keeps_same_tables) (simp add: random_block_def)

lemma keeps_select: "keeps (db_follows allowed) (sqlite3_select E q ps)"
  by (rule keeps_same_tables) (simp add: sqlite3_select_def split: option.split)

lemma keeps_run: "keeps (db_follows allowed) (sqlite3_run E q ps)"
  by (rule keeps_same_tables) (simp add: sqlite3_run_def split: option.split prod.split)

lemma keeps_load: "keeps (db_follows allowed) (loadTable E n)"
  using allowed_refl
  by (intro keepsI) (auto simp: loadTable_def sqlite3_select_def prog_simps db_follows_def
      split: option.splits sum.splits)

lemma keeps_save: "keeps (db_follows allowed) (saveTable E n)"
  using keeps_handle_save [of E n] by (auto simp: keeps_def handle_only_iff intro: follows_same)

lemma keeps_query: "keeps (db_follows allowed) (db_query E n p)"
  unfolding db_query_def by (intro db_step.keeps_rules keeps_load)

lemma keeps_query_all: "keeps (db_follows allowed) (db_query_all E n)"
  unfolding db_query_all_def by (intro db_step.keeps_rules keeps_load)

text \<open>After loading a table, changing its cached rows as allowed.\<close>

lemma keeps_set_rows:
  assumes "\<And>rows. allowed n rows (f rows)"
  shows "keeps (db_follows allowed) (modifyP (\<lambda>d. d\<lparr>tables := (tables d)(n \<mapsto> f (cached n d))\<rparr>))"
  using assms allowed_refl by (auto simp: keeps_def prog_simps db_follows_def cached_def)

lemma keeps_insert:
  "(\<And>rows. allowed n rows (rows @ [r])) \<Longrightarrow> keeps (db_follows allowed) (db_insert E n r)"
  unfolding db_insert_def
  by (intro db_step.keeps_rules keeps_load keeps_save keeps_set_rows [of n "\<lambda>rows. rows @ [r]"])

lemma keeps_delete:
  "(\<And>rows. allowed n rows (filter (\<lambda>r. \<not> p r) rows)) \<Longrightarrow> keeps (db_follows allowed) (db_remove E n p)"
  unfolding db_remove_def by (intro db_step.keeps_rules keeps_load keeps_save keeps_set_rows)

lemma keeps_update:
  fixes E :: "'db env"
  assumes "\<And>rows k. allowed n rows (fst (snd (update_rows p u rows k)))"
  shows "keeps (db_follows allowed) (db_update E n p u)"
  unfolding db_update_def
proof (intro db_step.keeps_then keeps_load, rule keepsI)
  fix d :: "'db database"
  obtain e rows k b where u: "update_rows p u (cached n d) (ticks d) = (e, rows, k, b)"
    by (metis prod_cases4)
  let ?d = "d\<lparr>tables := (tables d)(n \<mapsto> rows), ticks := k\<rparr>"
  have d: "db_follows allowed d ?d"
    using assms [of "cached n d" "ticks d"] u allowed_refl by (auto simp: db_follows_def cached_def)
  have "db_follows allowed ?d (snd (thenP (saveTable E n) (returnP b) ?d))"
    by (rule keepsD, intro db_step.keeps_rules keeps_save)
  with d have "db_follows allowed d (snd (thenP (saveTable E n) (returnP b) ?d))"
    by (rule db_step.trans)
  with d show "db_follows allowed d (snd (case update_rows p u (cached n d) (ticks d) of
      (None, rows, k, called) \<Rightarrow> thenP (saveTable E n) (returnP called) (d\<lparr>tables := (tables d)(n \<mapsto> rows), ticks := k\<rparr>)
    | (Some e, rows, k, uu) \<Rightarrow> (Inl e, d\<lparr>tables := (tables d)(n \<mapsto> rows), ticks := k\<rparr>)))"
    by (simp add: u split: option.split)
qed

lemmas db_rules = db_step.keeps_rules keeps_now keeps_random keeps_select keeps_run keeps_query
  keeps_query_all

end

section \<open>The policy of the server\<close>

text \<open>
  The fields of a stored row that handling a request may set, for the acting user \<open>a\<close>: anybody may
  mark messages as delivered and read; the author of a message may edit and delete it, and users
  who are logged in may react; a login sets the online state of an account and may renew its hash,
  and the profile is its owner's.
\<close>

definition may_write :: "int \<Rightarrow> string \<Rightarrow> row \<Rightarrow> string \<Rightarrow> bool" where
  "may_write a n r k \<longleftrightarrow>
     n = ''messages'' \<and>
       (k \<in> {''delivered'', ''read'', ''read_by''} \<or> k = ''reactions'' \<and> 0 < a \<or>
        k \<in> {''content'', ''edited'', ''edited_at'', ''deleted'', ''deleted_at''} \<and>
          asInt r ''from_id'' 0 = a \<and> 0 < a) \<or>
     n = ''users'' \<and>
       (k \<in> {''is_online'', ''last_seen_at'', ''password_hash'', ''password_version''} \<or>
        k \<in> {''nickname'', ''avatar_id''} \<and> asInt r ''id'' 0 = a \<and> 0 < a)"

text \<open>The rows that may be added: accounts by anybody, messages and groups in the user's own name.\<close>

definition may_add :: "int \<Rightarrow> string \<Rightarrow> row \<Rightarrow> bool" where
  "may_add a n r \<longleftrightarrow>
     n = ''users'' \<or>
     n = ''messages'' \<and> asInt r ''from_id'' 0 = a \<and> 0 < a \<or>
     n = ''groups'' \<and> asInt r ''host_id'' 0 = a \<and> 0 < a"

definition row_follows :: "int \<Rightarrow> string \<Rightarrow> row \<Rightarrow> row \<Rightarrow> bool" where
  "row_follows a n r r' \<longleftrightarrow> (\<forall>k. may_write a n r k \<or> obj_find r' k = obj_find r k)"

text \<open>In the table of members, only the user's own memberships come and go.\<close>

definition own_data :: "int \<Rightarrow> string \<Rightarrow> row list \<Rightarrow> row list \<Rightarrow> bool" where
  "own_data a n rows rows' \<longleftrightarrow>
     (if n = ''group_members''
      then filter (\<lambda>r. asInt r ''user_id'' 0 \<noteq> a) rows' = filter (\<lambda>r. asInt r ''user_id'' 0 \<noteq> a) rows
      else \<exists>old new. rows' = old @ new \<and> list_all2 (row_follows a n) rows old \<and> (\<forall>r \<in> set new. may_add a n r))"

lemma asInt_cong: "obj_find r' k = obj_find r k \<Longrightarrow> asInt r' k v = asInt r k v"
  by (simp add: asInt_def)

lemma owner_fields_kept:
  "row_follows a n r r' \<Longrightarrow> k \<in> {''from_id'', ''id'', ''host_id''} \<Longrightarrow> obj_find r' k = obj_find r k"
  unfolding row_follows_def by (drule spec [of _ k]) (auto simp: may_write_def)

lemma may_write_kept: "row_follows a n r r' \<Longrightarrow> may_write a n r' k = may_write a n r k"
  using owner_fields_kept [of a n r r' "''from_id''"] owner_fields_kept [of a n r r' "''id''"]
  by (simp add: may_write_def asInt_def)

lemma may_add_kept: "row_follows a n r r' \<Longrightarrow> may_add a n r' = may_add a n r"
  using owner_fields_kept [of a n r r' "''from_id''"] owner_fields_kept [of a n r r' "''host_id''"]
  by (simp add: may_add_def asInt_def)

lemma row_follows_refl [simp]: "row_follows a n r r"
  by (simp add: row_follows_def)

lemma row_follows_trans: "row_follows a n r r' \<Longrightarrow> row_follows a n r' r'' \<Longrightarrow> row_follows a n r r''"
  using may_write_kept [of a n r r'] by (auto simp: row_follows_def) metis

lemma rows_follow_refl [simp]: "list_all2 (row_follows a n) rows rows"
  by (rule list.rel_refl) simp

lemma own_dataI:
  "n \<noteq> ''group_members'' \<Longrightarrow> list_all2 (row_follows a n) rows old \<Longrightarrow> \<forall>r \<in> set new. may_add a n r \<Longrightarrow>
     own_data a n rows (old @ new)"
  unfolding own_data_def by auto

lemma own_data_same: "n \<noteq> ''group_members'' \<Longrightarrow> list_all2 (row_follows a n) rows old \<Longrightarrow> own_data a n rows old"
  using own_dataI [of n a rows old "[]"] by simp

interpretation own: table_policy "own_data a" for a
proof
  fix n and rows rows' rows'' :: "row list"
  show "own_data a n rows rows"
    by (cases "n = ''group_members''") (simp add: own_data_def, simp add: own_data_same)
  assume 1: "own_data a n rows rows'" and 2: "own_data a n rows' rows''"
  show "own_data a n rows rows''"
  proof (cases "n = ''group_members''")
    case True
    then show ?thesis using 1 2 by (simp add: own_data_def)
  next
    case False
    obtain old new where r': "rows' = old @ new" "list_all2 (row_follows a n) rows old" "\<forall>r \<in> set new. may_add a n r"
      using 1 False by (auto simp: own_data_def)
    obtain old2 new2 where r'': "rows'' = old2 @ new2" "list_all2 (row_follows a n) (old @ new) old2"
        "\<forall>r \<in> set new2. may_add a n r"
      using 2 False r'(1) by (auto simp: own_data_def)
    obtain o1 o2 where o: "old2 = o1 @ o2" "list_all2 (row_follows a n) old o1" "list_all2 (row_follows a n) new o2"
      using r''(2) by (auto simp: list_all2_append1)
    have "list_all2 (row_follows a n) rows o1"
      by (rule list_all2_trans [OF row_follows_trans r'(2) o(2)])
    moreover have "\<forall>r \<in> set o2. may_add a n r"
      using o(3) r'(3) may_add_kept by (fastforce simp: list_all2_conv_all_nth in_set_conv_nth)
    ultimately show ?thesis
      using r'' o(1) False own_dataI [of n a rows o1 "o2 @ new2"] by auto
  qed
qed

lemma own_add: "n \<noteq> ''group_members'' \<Longrightarrow> may_add a n r \<Longrightarrow> own_data a n rows (rows @ [r])"
  using own_dataI [of n a rows rows "[r]"] by simp

text \<open>An update follows the policy when the updater does on the rows that the predicate selects.\<close>

lemma update_rows_follow:
  assumes "\<And>r k. p r = Inr True \<Longrightarrow> row_follows a n r (fst (u r k))"
  shows "list_all2 (row_follows a n) rows (fst (snd (update_rows p u rows k)))"
proof (induction rows arbitrary: k)
  case (Cons r rows)
  show ?case
    using assms [of r] Cons.IH
    by (auto simp: Let_def split: sum.split prod.splits if_splits) (metis fst_conv snd_conv)+
qed simp

lemma own_update:
  assumes "n \<noteq> ''group_members''" "\<And>r k. p r = Inr True \<Longrightarrow> row_follows a n r (fst (u r k))"
  shows "keeps (db_follows (own_data a)) (db_update E n p u)"
  using assms by (intro own.keeps_update own_data_same update_rows_follow)

section \<open>The repositories follow the policy\<close>

lemma follows_set: "may_write a n r k \<Longrightarrow> row_follows a n r (obj_set k v r)"
  by (simp add: row_follows_def)

lemma follows_sets:
  "\<forall>(k, v) \<in> set kvs. may_write a n r k \<Longrightarrow> row_follows a n r (obj_sets r kvs)"
proof -
  assume kvs: "\<forall>(k, v) \<in> set kvs. may_write a n r k"
  have "row_follows a n r r' \<Longrightarrow> row_follows a n r (obj_sets r' kvs)" for r'
    using kvs
  proof (induction kvs arbitrary: r')
    case (Cons kv kvs)
    obtain k v where kv: "kv = (k, v)" by (cases kv)
    have "row_follows a n r (obj_set k v r')"
      using Cons.prems kv by (auto simp: row_follows_def)
    then show ?case using Cons.IH [of "obj_set k v r'"] Cons.prems(2) kv by (simp add: obj_sets_def)
  qed (simp add: obj_sets_def)
  then show ?thesis by simp
qed

lemma id_is_owner: "id_is a r = Inr True \<Longrightarrow> 0 < a \<Longrightarrow> in_int32 a \<Longrightarrow> asInt r ''id'' 0 = a"
  by (auto simp: id_is_def asInt_def obj_at_def is_number_def as_int_def bindE_def
      split: option.splits json.splits)

lemma own_set_online: "keeps (db_follows (own_data a)) (setOnlineStatus E u b)"
  unfolding setOnlineStatus_def
  by (intro own.db_rules own_update) (auto simp: set_online_def may_write_def intro!: follows_set follows_sets)

lemma own_profile: "0 < a \<Longrightarrow> in_int32 a \<Longrightarrow> keeps (db_follows (own_data a)) (updateProfile E a nick avatar)"
  unfolding updateProfile_def
  by (intro own_update)
     (auto simp: set_profile_def may_write_def id_is_owner intro!: follows_sets)

lemma own_find: "keeps (db_follows (own_data a)) (findById E u)"
  "keeps (db_follows (own_data a)) (findByNickname E nick)"
  unfolding findById_def findByNickname_def
  by (intro own.db_rules; simp split: list.split; intro conjI impI allI own.db_rules)+

lemma own_bcrypt: "keeps (db_follows (own_data a)) (bcrypt_hash_password E pw cost)"
  unfolding bcrypt_hash_password_def by (intro own.db_rules)

lemma own_verify: "keeps (db_follows (own_data a)) (verifyPassword E u pw)"
proof -
  have "keeps (db_follows (own_data a)) (db_update E ''users'' (id_is u) (\<lambda>r k. (upgrade_hash h r, k)))" for h
    by (rule own_update) (auto simp: upgrade_hash_def may_write_def intro!: follows_sets)
  then show ?thesis
    unfolding verifyPassword_def Let_def
    by (intro own.db_rules; simp split: list.split; intro conjI impI allI own.db_rules own_bcrypt)
qed

lemma own_create: "keeps (db_follows (own_data a)) (create E pw nick avatar)"
  unfolding create_def
  by (intro own.db_rules own_find own_bcrypt own.keeps_insert own_add) (simp_all add: may_add_def)

lemma own_users: "keeps (db_follows (own_data a)) (getAllUsers E)"
  unfolding getAllUsers_def by (intro own.db_rules)

lemma own_friends: "keeps (db_follows (own_data a)) (getFriends E u)"
  unfolding getFriends_def by (intro own.db_rules own_find)

lemma own_changes: "keeps (db_follows (own_data a)) (changes_rows E q ps)"
  unfolding changes_rows_def by (intro own.db_rules)

lemma own_friendships:
  "keeps (db_follows (own_data a)) (sendRequest E u v msg)"
  "keeps (db_follows (own_data a)) (acceptRequest E u v)"
  "keeps (db_follows (own_data a)) (rejectRequest E u v)"
  "keeps (db_follows (own_data a)) (removeFriendship E u v)"
  unfolding sendRequest_def acceptRequest_def rejectRequest_def setStatus_def removeFriendship_def Let_def
  by (intro own.db_rules own_changes; simp split: list.split; intro conjI impI allI own.db_rules own_changes)+

lemma own_message:
  "0 < a \<Longrightarrow> in_int32 a \<Longrightarrow> from_id m = a \<Longrightarrow> keeps (db_follows (own_data a)) (db_insert E ''messages'' (toRow m))"
  by (intro own.keeps_insert own_add) (simp_all add: may_add_def asInt_def is_number_def as_int_def)

lemma own_save:
  "0 < a \<Longrightarrow> in_int32 a \<Longrightarrow> keeps (db_follows (own_data a)) (savePrivate E a u txt ct dl)"
  "0 < a \<Longrightarrow> in_int32 a \<Longrightarrow> keeps (db_follows (own_data a)) (saveGroup E a g txt ct)"
  unfolding savePrivate_def saveGroup_def nextMessageId_def Let_def
  by (intro own.db_rules own_message; simp)+

lemma own_read:
  "keeps (db_follows (own_data a)) (privateHistory E u v limit)"
  "keeps (db_follows (own_data a)) (groupHistory E g limit)"
  "keeps (db_follows (own_data a)) (search E query limit)"
  "keeps (db_follows (own_data a)) (members E g)"
  "keeps (db_follows (own_data a)) (groupsForUser E u)"
  "keeps (db_follows (own_data a)) (searchGroups E name limit)"
  unfolding privateHistory_def groupHistory_def search_def members_def groupsForUser_def searchGroups_def
  by (intro own.db_rules)+

lemma own_marks:
  "keeps (db_follows (own_data a)) (markDelivered E m)"
  "keeps (db_follows (own_data a)) (markRead E m u)"
  unfolding markDelivered_def markRead_def
  by (intro own.db_rules own_update;
      auto simp: may_write_def read_row_def intro!: follows_set follows_sets)+

lemma own_offline: "keeps (db_follows (own_data a)) (offlineForUser E u limit)"
  unfolding offlineForUser_def Let_def by (intro own.db_rules own_marks)

lemma own_edit: "0 < a \<Longrightarrow> keeps (db_follows (own_data a)) (edit E m a txt)"
  unfolding edit_def
  by (rule own_update) (auto simp: may_write_def can_edit_def edit_row_def intro!: follows_sets)

lemma own_delete: "0 < a \<Longrightarrow> keeps (db_follows (own_data a)) (softDelete E m a)"
  unfolding softDelete_def
  by (rule own_update) (auto simp: may_write_def can_delete_def delete_row_def intro!: follows_sets)

lemma own_react: "0 < a \<Longrightarrow> keeps (db_follows (own_data a)) (addReaction E m a reaction)"
  unfolding addReaction_def Let_def
  by (intro own.db_rules own_update) (auto simp: may_write_def react_row_def Let_def intro!: follows_set)

lemma own_membership:
  assumes "in_int32 a"
  shows "keeps (db_follows (own_data a)) (join E a g)" "keeps (db_follows (own_data a)) (leave E a g)"
proof -
  have "asInt (member_row a g t) ''user_id'' 0 = a" for t
    using assms by (simp add: member_row_def asInt_def is_number_def as_int_def obj_find_def obj_sets_def)
  then have "own_data a ''group_members'' rows (rows @ [member_row a g t])" for rows t
    by (simp add: own_data_def)
  then show "keeps (db_follows (own_data a)) (join E a g)"
    unfolding join_def group_exists_def by (intro own.db_rules own.keeps_insert)
  have "own_data a ''group_members'' rows (filter (\<lambda>r. \<not> is_membership a g r) rows)" for rows
    by (auto simp: own_data_def is_membership_def intro!: filter_cong)
  then show "keeps (db_follows (own_data a)) (leave E a g)"
    unfolding leave_def by (intro own.keeps_delete)
qed

lemma own_group: "0 < a \<Longrightarrow> in_int32 a \<Longrightarrow> keeps (db_follows (own_data a)) (createGroup E a name)"
  unfolding createGroup_def nextGroupId_def
  by (intro own.db_rules own_membership own.keeps_insert own_add)
     (simp_all add: may_add_def group_row_def asInt_def is_number_def as_int_def obj_find_def obj_sets_def)

section \<open>Requests follow the policy\<close>

definition own_keeps :: "int \<Rightarrow> 'db server \<Rightarrow> 'db server \<Rightarrow> bool" where
  "own_keeps a s t \<longleftrightarrow> db_follows (own_data a) (store s) (store t)"

interpretation own_step: step_relation "own_keeps a" for a
  by unfold_locales (auto simp: own_keeps_def own.db_step.refl intro: own.db_step.trans)

lemma own_onDb: "keeps (db_follows (own_data a)) m \<Longrightarrow> keeps (own_keeps a) (onDb m)"
  by (auto simp: keeps_def own_keeps_def onDb_def prog_simps split: prod.split) (metis snd_conv)

lemma own_same_store: "(\<And>s. store (snd (m s)) = store s) \<Longrightarrow> keeps (own_keeps a) m"
  by (simp add: keeps_def own_keeps_def own.db_step.refl)

lemma same_store:
  "store (snd (deliver i json s)) = store s" "store (snd (bindUser i u s)) = store s"
  "store (snd (unbindUser u s)) = store s" "store (snd (modifyP (presence_update f) s)) = store s"
  by (auto simp: deliver_def bindUser_def unbindUser_def upd_sess_def prog_simps Let_def
      split: sum.split option.split)

lemmas own_services = own_set_online own_profile own_find own_verify own_create own_users own_friends
  own_friendships own_save own_read own_marks own_offline own_edit own_delete own_react own_membership
  own_group own.keeps_now

interpretation own_router: router_services "own_keeps (to_int32 a)" E "to_int32 a" for E a
  by unfold_locales (intro own_same_store same_store own_onDb own_services in_int32_to_int32; assumption)+

text \<open>A server with nothing but a connection, for the examples.\<close>

definition ref_server :: "(string \<Rightarrow> row list option) \<Rightarrow> ref_db server" where
  "ref_server t = \<lparr>sess = (\<lambda>_. new_session 0), max_connections = 500, pool = [1], user_to_session = Map.empty,
     steadies = 0, store = (new_database [])\<lparr>tables := t\<rparr>, presence = Map.empty, next_session_id = 2,
     accepting = None\<rparr>"

section \<open>Properties\<close>

text \<open>C2: Handling a request changes only what the user of the session may change, whatever the request
  says about its sender, and also if an exception ends the handling. In every table that is loaded:
  no message is added or changed in another user's name and none is taken away; a session without a
  user adds and edits no message at all; profiles of other users stay, groups are only added, by
  their host, and the memberships of other users stay.\<close>

theorem requests_change_own_data:
  assumes a: "a = user_id (sess s i)" "in_int32 a"
    and t: "tables (store s) n = Some rows" and r: "route E i json s = (r, s')"
  shows "\<exists>rows'. tables (store s') n = Some rows' \<and> own_data a n rows rows'"
  using own_router.route_keeps [of s i a E json] a t r
  by (auto simp: own_keeps_def db_follows_def)

theorem requests_change_own_data_witness:
  "tables (store (snd (route ref_env 1 ''hello'' (ref_server [''messages'' \<mapsto> []])))) ''messages'' = Some []"
proof -
  let ?s = "ref_server [''messages'' \<mapsto> []]"
  have u: "0 = user_id (sess ?s 1)" by (simp add: ref_server_def new_session_def)
  have t: "tables (store ?s) ''messages'' = Some []" by (simp add: ref_server_def)
  obtain r s' where "route ref_env 1 ''hello'' ?s = (r, s')" by (cases "route ref_env 1 ''hello'' ?s")
  then show ?thesis
    using requests_change_own_data [OF u _ t, of ref_env "''hello''" r s']
    by (auto simp: in_int32_def own_data_def may_add_def)
qed

end
