(* ===== verification/LegacyMigrator.thy ===== *)
theory LegacyMigrator
  imports UserRepository
begin

text \<open>
  The import of the accounts of the old server: \<^verbatim>\<open>src/server/src/db/LegacyMigrator.cpp\<close>. The file
  system is a parameter, the text of the file with a path, \<open>None\<close> when it cannot be opened.
\<close>

record MigrationReport =
  users_migrated :: int
  users_skipped :: int
  errors :: "string list"

definition has_key :: "object \<Rightarrow> string \<Rightarrow> bool" where
  "has_key ob k \<longleftrightarrow> obj_find ob k \<noteq> None"

definition migrate_user ::
  "'db env \<Rightarrow> MigrationReport \<Rightarrow> json \<Rightarrow> ('db database, MigrationReport) prog" where
  "migrate_user E report item =
     (if \<not> is_object item then returnP report
      else
        let ob = as_obj item in
        if \<not> has_key ob ''id'' \<or> \<not> has_key ob ''password'' \<or> \<not> has_key ob ''nickname'' then
          returnP (report\<lparr>errors := errors report @ [''Skipping legacy user with missing fields''],
            users_skipped := users_skipped report + 1\<rparr>)
        else
          bindP (liftP (obj_at ob ''password'')) (\<lambda>p.
          bindP (liftP (obj_at ob ''nickname'')) (\<lambda>n.
          bindP (if has_key ob ''headId''
                 then bindP (liftP (obj_at ob ''headId'')) (\<lambda>v. returnP (to_int32 (as_int v)))
                 else returnP 0) (\<lambda>headId.
          let password = as_string p; nickname = as_string n in
          bindP (findByNickname E nickname) (\<lambda>existing.
            if existing \<noteq> None then returnP (report\<lparr>users_skipped := users_skipped report + 1\<rparr>)
            else
              bindP (create E password nickname headId) (\<lambda>newId.
                if newId < 0 then
                  returnP (report\<lparr>errors := errors report @ [''Failed to create user: '' @ nickname],
                    users_skipped := users_skipped report + 1\<rparr>)
                else returnP (report\<lparr>users_migrated := users_migrated report + 1\<rparr>)))))))"

primrec migrate_items ::
  "'db env \<Rightarrow> json list \<Rightarrow> MigrationReport \<Rightarrow> ('db database, MigrationReport) prog" where
  "migrate_items E [] report = returnP report"
| "migrate_items E (item # items) report =
     bindP (migrate_user E report item) (\<lambda>report'. migrate_items E items report')"

definition migrateUsers ::
  "(string \<Rightarrow> string option) \<Rightarrow> 'db env \<Rightarrow> string \<Rightarrow> ('db database, MigrationReport) prog" where
  "migrateUsers file E legacyJsonPath =
     (let report = \<lparr>users_migrated = 0, users_skipped = 0, errors = []\<rparr> in
      case file legacyJsonPath of
        None \<Rightarrow> returnP (report\<lparr>errors := [''Cannot open legacy file: '' @ legacyJsonPath]\<rparr>)
      | Some txt \<Rightarrow>
          bindP (liftP (parse txt)) (\<lambda>val.
            if \<not> is_array val then returnP (report\<lparr>errors := [''Legacy file is not a JSON array'']\<rparr>)
            else thenP (new_user_repository E) (migrate_items E (as_arr val) report)))"

section \<open>Facts\<close>

text \<open>An account of the dump that the import can take over.\<close>

definition complete :: "json \<Rightarrow> bool" where
  "complete item \<longleftrightarrow> is_object item \<and> has_key (as_obj item) ''id'' \<and> has_key (as_obj item) ''password'' \<and>
     has_key (as_obj item) ''nickname''"

definition item_nickname :: "json \<Rightarrow> string" where
  "item_nickname item = as_string (the (obj_find (as_obj item) ''nickname''))"

definition item_password :: "json \<Rightarrow> string" where
  "item_password item = as_string (the (obj_find (as_obj item) ''password''))"

definition taken :: "row list \<Rightarrow> string \<Rightarrow> bool" where
  "taken rows n \<longleftrightarrow> n \<in> set (map row_nickname rows)"

text \<open>The rows after an item, with room for \<open>k\<close> more accounts below the largest identifier.\<close>

definition room :: "nat \<Rightarrow> row list \<Rightarrow> bool" where
  "room k rows \<longleftrightarrow> next_user_id rows 1000 + int k \<le> 2147483647"

lemma next_user_id_snoc:
  "next_user_id (rows @ [new_user_row (next_user_id rows m) h n a t]) m \<le> next_user_id rows m + 1"
proof -
  have "next_user_id (rows @ [r]) m = (let x = next_user_id rows m in if row_id r \<ge> x then row_id r + 1 else x)" for r
    by (induction rows arbitrary: m) (simp_all add: Let_def)
  then show ?thesis by (simp add: user_row_new Let_def)
qed

lemma migrate_user_run:
  assumes r: "rows_of E ''users'' d = Inr rows" and ok: "users_ok rows" and b: "bcrypt_ok E"
    and rm: "room (Suc k) rows"
  shows "\<exists>rep d' rows'. migrate_user E report item d = (Inr rep, d') \<and> rows_of E ''users'' d' = Inr rows' \<and>
    users_ok rows' \<and> room k rows' \<and>
    users_migrated rep + users_skipped rep = users_migrated report + users_skipped report + (if is_object item then 1 else 0) \<and>
    users_migrated rep = users_migrated report + (if complete item \<and> \<not> taken rows (item_nickname item) then 1 else 0) \<and>
    set (map row_nickname rows') = set (map row_nickname rows) \<union> (if complete item then {item_nickname item} else {})"
proof (cases "complete item")
  case False
  then have "\<exists>rep. migrate_user E report item d = (Inr rep, d) \<and>
      users_migrated rep + users_skipped rep = users_migrated report + users_skipped report + (if is_object item then 1 else 0) \<and>
      users_migrated rep = users_migrated report"
    by (auto simp: migrate_user_def complete_def returnP_run Let_def)
  moreover have "room k rows" using rm by (simp add: room_def)
  ultimately show ?thesis using False r ok by fastforce
next
  case True
  let ?ob = "as_obj item" and ?n = "item_nickname item" and ?p = "item_password item"
  let ?a = "if has_key ?ob ''headId'' then to_int32 (as_int (the (obj_find ?ob ''headId''))) else 0"
  have ur: "\<forall>r \<in> set rows. user_row r" using ok by (rule users_okD)
  have at: "has_key ?ob x \<Longrightarrow> obj_at ?ob x = Inr (the (obj_find ?ob x))" for x
    by (auto simp: has_key_def obj_at_def)
  have run: "migrate_user E report item d =
      bindP (findByNickname E ?n) (\<lambda>existing.
        if existing \<noteq> None then returnP (report\<lparr>users_skipped := users_skipped report + 1\<rparr>)
        else bindP (create E ?p ?n ?a) (\<lambda>newId.
          if newId < 0 then returnP (report\<lparr>errors := errors report @ [''Failed to create user: '' @ ?n],
              users_skipped := users_skipped report + 1\<rparr>)
          else returnP (report\<lparr>users_migrated := users_migrated report + 1\<rparr>))) d"
    unfolding item_nickname_def item_password_def
    using True by (simp add: migrate_user_def complete_def at bindP_run liftP_run returnP_run Let_def)
  show ?thesis
  proof (cases "taken rows ?n")
    case tk: True
    then have "find (\<lambda>r. row_nickname r = ?n) rows \<noteq> None" by (auto simp: taken_def find_None_iff)
    then have "migrate_user E report item d =
        (Inr (report\<lparr>users_skipped := users_skipped report + 1\<rparr>), set_rows ''users'' rows d)"
      by (auto simp: run bindP_run findByNickname_run [OF r ur] returnP_run)
    then show ?thesis using tk True ok rm
      by (intro exI [of _ "report\<lparr>users_skipped := users_skipped report + 1\<rparr>"] exI [of _ "set_rows ''users'' rows d"] exI [of _ rows])
         (auto simp: complete_def taken_def room_def)
  next
    case nt: False
    let ?d = "set_rows ''users'' rows d" and ?i = "next_user_id rows 1000"
    obtain h where h: "bcrypt_hash_password E ?p 12 (set_rows ''users'' rows ?d)
        = (Inr h, (set_rows ''users'' rows ?d)\<lparr>rnds := Suc (rnds ?d)\<rparr>)"
      using bcrypt_hash_set_rows [OF b] by blast
    have r': "rows_of E ''users'' ?d = Inr rows" by simp
    have new: "?n \<notin> set (map row_nickname rows)" using nt by (simp add: taken_def)
    obtain t d' where c: "create E ?p ?n ?a ?d = (Inr ?i, d')"
        "rows_of E ''users'' d' = Inr (rows @ [new_user_row ?i h ?n ?a t])"
      using create_run [OF r' ok new h] by blast
    have "find (\<lambda>r. row_nickname r = ?n) rows = None" using new by (force simp: find_None_iff)
    moreover have "0 \<le> ?i" using next_user_id_above [of 1000 rows] by linarith
    ultimately have m: "migrate_user E report item d =
        (Inr (report\<lparr>users_migrated := users_migrated report + 1\<rparr>), d')"
      using c(1) by (simp add: run bindP_run findByNickname_run [OF r ur] returnP_run)
    have ok': "users_ok (rows @ [new_user_row ?i h ?n ?a t])"
    proof (rule users_ok_snoc [OF ok])
      show "in_int32 ?a" by (simp add: in_int32_def [of 0])
      show "?i < 2147483647" using rm by (simp add: room_def)
    qed
    have "room k (rows @ [new_user_row ?i h ?n ?a t])"
      using rm next_user_id_snoc [of rows 1000 h ?n ?a t] by (simp add: room_def)
    then show ?thesis using m c ok' True nt
      by (intro exI [of _ "report\<lparr>users_migrated := users_migrated report + 1\<rparr>"] exI [of _ d']
          exI [of _ "rows @ [new_user_row ?i h ?n ?a t]"]) (auto simp: complete_def user_row_new)
  qed
qed

lemma migrate_items_run:
  assumes b: "bcrypt_ok E"
  shows "rows_of E ''users'' d = Inr rows \<Longrightarrow> users_ok rows \<Longrightarrow> room (length items + k) rows \<Longrightarrow>
    \<exists>rep d' rows'. migrate_items E items report d = (Inr rep, d') \<and> rows_of E ''users'' d' = Inr rows' \<and>
      users_ok rows' \<and> room k rows' \<and>
      users_migrated rep + users_skipped rep =
        users_migrated report + users_skipped report + int (length (filter is_object items)) \<and>
      set (map row_nickname rows') = set (map row_nickname rows) \<union> item_nickname ` set (filter complete items) \<and>
      (item_nickname ` set (filter complete items) \<subseteq> set (map row_nickname rows) \<longrightarrow>
         users_migrated rep = users_migrated report)"
proof (induction items arbitrary: d rows report)
  case (Cons item items)
  obtain r1 d1 rows1 where 1: "migrate_user E report item d = (Inr r1, d1)" "rows_of E ''users'' d1 = Inr rows1"
    "users_ok rows1" "room (length items + k) rows1"
    "users_migrated r1 + users_skipped r1 = users_migrated report + users_skipped report + (if is_object item then 1 else 0)"
    "users_migrated r1 = users_migrated report + (if complete item \<and> \<not> taken rows (item_nickname item) then 1 else 0)"
    "set (map row_nickname rows1) = set (map row_nickname rows) \<union> (if complete item then {item_nickname item} else {})"
    using migrate_user_run [OF Cons.prems(1,2) b, of "length items + k" report item] Cons.prems(3) by auto
  obtain rep d' rows' where 2: "migrate_items E items r1 d1 = (Inr rep, d')" "rows_of E ''users'' d' = Inr rows'"
    "users_ok rows'" "room k rows'"
    "users_migrated rep + users_skipped rep =
        users_migrated r1 + users_skipped r1 + int (length (filter is_object items))"
    "set (map row_nickname rows') = set (map row_nickname rows1) \<union> item_nickname ` set (filter complete items)"
    "item_nickname ` set (filter complete items) \<subseteq> set (map row_nickname rows1) \<longrightarrow>
         users_migrated rep = users_migrated r1"
    using Cons.IH [OF 1(2-4), of r1] by blast
  have "item_nickname ` set (filter complete (item # items)) \<subseteq> set (map row_nickname rows) \<longrightarrow>
      users_migrated rep = users_migrated report"
    using 2(7) 1(6,7) by (auto simp: taken_def split: if_splits)
  moreover have "migrate_items E (item # items) report d = (Inr rep, d')"
    using 1(1) 2(1) by (simp add: bindP_run)
  moreover have "set (map row_nickname rows') =
      set (map row_nickname rows) \<union> item_nickname ` set (filter complete (item # items))"
    unfolding 2(6) 1(7) by auto
  moreover have "users_migrated rep + users_skipped rep =
        users_migrated report + users_skipped report + int (length (filter is_object (item # items)))"
    using 2(5) 1(5) by simp
  ultimately show ?case using 2(2-4) by blast
qed (simp add: returnP_run)

section \<open>Properties\<close>



end
