(* ===== verification/TcpServer.thy ===== *)
theory TcpServer
  imports Authorship LegacyMigrator
begin

text \<open>
  The server process: the read loop of a session (\<^verbatim>\<open>AsyncSession.cpp\<close>), the acceptor and the
  heartbeat timer (\<^verbatim>\<open>TcpServer.cpp\<close>), the composition of the parts (\<^verbatim>\<open>LanChatServer.cpp\<close>) and the
  command line (\<^verbatim>\<open>main.cpp\<close>), under \<^verbatim>\<open>src/server/src\<close>.

  One thread runs the completion handlers of asio one after the other. An \<open>event\<close> is the completion of
  an outstanding operation with its result; \<open>handle\<close> runs the handler, and \<open>srv_run\<close> is a run of
  the process: at each step any event that is possible in the state. An exception that leaves a handler leaves
  \<open>ctx_.run()\<close> and ends the server.
\<close>

section \<open>Removing a session\<close>

definition broadcast :: "'db env \<Rightarrow> string \<Rightarrow> nat \<Rightarrow> ('db server, unit) prog" where
  "broadcast E json excludeSessionId =
     bindP (getP (pool_all E)) (\<lambda>ids.
       forP ids (\<lambda>j. if j \<noteq> excludeSessionId then deliver j json else returnP ()))"

definition markOfflineAndBroadcast :: "'db env \<Rightarrow> int \<Rightarrow> ('db server, unit) prog" where
  "markOfflineAndBroadcast E userId =
     thenP (modifyP (presence_update (setOffline userId)))
    (thenP (onDb (setOnlineStatus E userId False))
    (bindP (onDb (findById E userId)) (\<lambda>found.
       case found of
         None \<Rightarrow> returnP ()
       | Some user \<Rightarrow>
           broadcast E (serialize (JObj (obj_sets []
             [(''type'', JInt (toInt UserOffline)), (''id'', JInt userId),
              (''nickname'', JString (u_nickname user))]))) 0)))"

definition removeSession :: "'db env \<Rightarrow> nat \<Rightarrow> ('db server, unit) prog" where
  "removeSession E i =
     bindP (getP (\<lambda>s. case findSession i s of None \<Rightarrow> 0 | Some j \<Rightarrow> user_id (sess s j))) (\<lambda>userId.
       thenP (pool_remove i)
         (whenP (userId > 0) (markOfflineAndBroadcast E userId)))"

definition connectionCount :: "'db server \<Rightarrow> nat" where
  "connectionCount s = length (pool s)"

section \<open>Receiving\<close>

definition onMessage :: "'db env \<Rightarrow> nat \<Rightarrow> string \<Rightarrow> ('db server, unit) prog" where
  "onMessage E i json = route E i json"

definition take_token :: "'db env \<Rightarrow> nat \<Rightarrow> ('db server, bool) prog" where
  "take_token E i =
     bindP (steadyNow E) (\<lambda>now.
     bindP (getP (\<lambda>s. consumeRateLimitToken now (sess s i))) (\<lambda>(ok, x).
       thenP (modifyP (upd_sess i (\<lambda>_. x))) (returnP ok)))"

definition session_onMessage :: "'db env \<Rightarrow> nat \<Rightarrow> string \<Rightarrow> ('db server, unit) prog" where
  "session_onMessage E i json =
     bindP (take_token E i) (\<lambda>ok.
       if \<not> ok then thenP (removeSession E i) (modifyP (upd_sess i close))
       else if (case parseObject json of None \<Rightarrow> False | Some request \<Rightarrow> typeField request = Heartbeat)
       then
         bindP (steadyNow E) (\<lambda>now.
         thenP (modifyP (upd_sess i (heartbeatReceived now)))
           (deliver i (ok_reply HeartbeatAck ''ok'')))
       else onMessage E i json)"

definition set_accumulator :: "u8 list \<Rightarrow> session \<Rightarrow> session" where
  "set_accumulator b x = x\<lparr>read_accumulator := b\<rparr>"

text \<open>
  The completion handler of \<open>async_read_some\<close>. The loop \<open>while (tryDecode(...)) onMessage(...)\<close> takes
  the frames off the accumulator one by one, which no handler touches, so they are those of
  \<open>decode_frames\<close>, each with what the accumulator holds behind it.
\<close>

definition on_read :: "'db env \<Rightarrow> nat \<Rightarrow> u8 list \<Rightarrow> ('db server, unit) prog" where
  "on_read E i bytes =
     thenP (modifyP (upd_sess i (\<lambda>x. x\<lparr>reading := False, read_accumulator := read_accumulator x @ bytes\<rparr>)))
    (bindP (getP (\<lambda>s. decode_frames (read_accumulator (sess s i)) [])) (\<lambda>(fs, rest).
     thenP (forP fs (\<lambda>(m, left). thenP (modifyP (upd_sess i (set_accumulator left))) (session_onMessage E i m)))
    (thenP (modifyP (upd_sess i (set_accumulator (cap_buffer rest))))
           (modifyP (upd_sess i (\<lambda>x. x\<lparr>reading := True\<rparr>))))))"

definition on_read_error :: "'db env \<Rightarrow> nat \<Rightarrow> ('db server, unit) prog" where
  "on_read_error E i =
     thenP (modifyP (upd_sess i (\<lambda>x. x\<lparr>reading := False\<rparr>))) (removeSession E i)"

section \<open>Accepting and the heartbeat sweep\<close>

definition startAccept :: "'db env \<Rightarrow> ('db server, unit) prog" where
  "startAccept E =
     bindP (steadyNow E) (\<lambda>now. modifyP (\<lambda>s.
       s\<lparr>sess := (sess s)(next_session_id s := new_session now),
         next_session_id := next_session_id s + 1, accepting := Some (next_session_id s)\<rparr>))"

text \<open>The completion handler of \<open>async_accept\<close> for the session \<open>i\<close>.\<close>

definition on_accept :: "'db env \<Rightarrow> nat \<Rightarrow> bool \<Rightarrow> ('db server, unit) prog" where
  "on_accept E i failed =
     (if failed then startAccept E
      else
        bindP (pool_add i) (\<lambda>added.
          if \<not> added then thenP (modifyP (upd_sess i close)) (startAccept E)
          else
            bindP (steadyNow E) (\<lambda>now.
            thenP (modifyP (upd_sess i (start now))) (startAccept E))))"

definition sweepHeartbeatTimeouts :: "'db env \<Rightarrow> ('db server, unit) prog" where
  "sweepHeartbeatTimeouts E =
     bindP (timedOut E) (\<lambda>ids.
       forP ids (\<lambda>i. thenP (modifyP (upd_sess i close)) (removeSession E i)))"

text \<open>The completion handler of the timer, which is started again unless it was cancelled.\<close>

definition on_heartbeat_timer :: "'db env \<Rightarrow> bool \<Rightarrow> ('db server, unit) prog" where
  "on_heartbeat_timer E failed = (if failed then returnP () else sweepHeartbeatTimeouts E)"

section \<open>Events\<close>

datatype event =
    Accepted
  | AcceptFailed
  | Received nat "u8 list"
  | ReadFailed nat
  | Written nat nat
  | WriteFailed nat
  | HeartbeatTimer

text \<open>
  The events that asio can report in a state: results of outstanding operations. A read returns
  between one byte and the size of the buffer, a write at most the bytes it was given. The
  heartbeat timer is started again whenever it has fired.
\<close>

definition possible :: "event \<Rightarrow> 'db server \<Rightarrow> bool" where
  "possible ev s =
     (case ev of
        Accepted \<Rightarrow> accepting s \<noteq> None
      | AcceptFailed \<Rightarrow> accepting s \<noteq> None
      | Received i bytes \<Rightarrow> reading (sess s i) \<and> 0 < length bytes \<and> length bytes \<le> 65536
      | ReadFailed i \<Rightarrow> reading (sess s i)
      | Written i n \<Rightarrow> writing (sess s i) \<and>
          write_offset (sess s i) + n \<le> length (hd (write_queue (sess s i)))
      | WriteFailed i \<Rightarrow> writing (sess s i)
      | HeartbeatTimer \<Rightarrow> True)"

definition handle :: "'db env \<Rightarrow> event \<Rightarrow> ('db server, unit) prog" where
  "handle E ev =
     (case ev of
        Accepted \<Rightarrow> bindP (getP (\<lambda>s. the (accepting s))) (\<lambda>i. on_accept E i False)
      | AcceptFailed \<Rightarrow> bindP (getP (\<lambda>s. the (accepting s))) (\<lambda>i. on_accept E i True)
      | Received i bytes \<Rightarrow> on_read E i bytes
      | ReadFailed i \<Rightarrow> on_read_error E i
      | Written i n \<Rightarrow> modifyP (upd_sess i (write_done n))
      | WriteFailed i \<Rightarrow> modifyP (upd_sess i write_failed)
      | HeartbeatTimer \<Rightarrow> on_heartbeat_timer E False)"

definition new_server :: "nat \<Rightarrow> 'db database \<Rightarrow> 'db server" where
  "new_server maxConnections d =
     \<lparr>sess = (\<lambda>_. new_session 0), max_connections = maxConnections, pool = [], user_to_session = Map.empty,
      steadies = 0, store = d, presence = Map.empty, next_session_id = 1, accepting = None\<rparr>"

text \<open>
  A run of the process: the events it has handled and the state they left. \<open>Crashed\<close> is a run that
  an exception has ended.
\<close>

inductive srv_run :: "'db env \<Rightarrow> 'db server \<Rightarrow> event list \<Rightarrow> 'db server \<Rightarrow> bool" for E s0 where
  init: "srv_run E s0 [] s0"
| step: "srv_run E s0 evs s \<Longrightarrow> possible ev s \<Longrightarrow> handle E ev s = (Inr (), s') \<Longrightarrow> srv_run E s0 (evs @ [ev]) s'"

inductive crashes :: "'db env \<Rightarrow> 'db server \<Rightarrow> event list \<Rightarrow> 'db server \<Rightarrow> bool" for E s0 where
  crash: "srv_run E s0 evs s \<Longrightarrow> possible ev s \<Longrightarrow> handle E ev s = (Inl e, s') \<Longrightarrow> crashes E s0 (evs @ [ev]) s'"

inductive_cases srv_run_snocE: "srv_run E s0 (evs @ [ev]) s"

text \<open>
  \<open>TcpServer::run\<close> on a given sequence of completions: \<open>listen\<close> says whether the acceptor can be
  opened, and the result is the exit code.
\<close>

definition run :: "'db env \<Rightarrow> (nat \<Rightarrow> exn option) \<Rightarrow> nat \<Rightarrow> event list \<Rightarrow> 'db server \<Rightarrow> int \<times> 'db server" where
  "run E listen port evs s =
     (case thenP (liftP (case listen port of None \<Rightarrow> Inr () | Some e \<Rightarrow> Inl e))
             (thenP (startAccept E) (forP evs (handle E))) s of
        (Inl e, s') \<Rightarrow> (1, s')
      | (Inr _, s') \<Rightarrow> (0, s'))"

section \<open>The process\<close>

text \<open>The constructor of \<open>LanChatServer\<close> ignores whether opening and migrating succeed.\<close>

definition new_LanChatServer :: "'db env \<Rightarrow> ('db database, unit) prog" where
  "new_LanChatServer E =
     thenP (db_open E)
    (thenP (migrate E 1)
    (thenP (new_user_repository E)
    (thenP (new_message_repository E)
    (thenP (new_channel_repository E)
           (new_friend_repository E)))))"

definition run_LanChatServer ::
  "'db env \<Rightarrow> (nat \<Rightarrow> exn option) \<Rightarrow> nat \<Rightarrow> event list \<Rightarrow> 'db database \<Rightarrow> int \<times> 'db server" where
  "run_LanChatServer E listen port evs d = run E listen port evs (new_server 500 d)"

text \<open>
  The command line: what \<open>main\<close> goes on to do. \<open>atoi\<close> of a number beyond \<open>int\<close> is undefined in C;
  \<open>wide\<close> says what it gives.
\<close>

datatype start_action = RunMigration string string | RunServer int string | BadPort int

definition atoi :: "(int \<Rightarrow> int) \<Rightarrow> string \<Rightarrow> int" where
  "atoi wide txt =
     (case strtol_digits txt of (neg, ds) \<Rightarrow>
        let v = (if neg then - digits_value ds else digits_value ds)
        in if in_int32 v then v else wide v)"

fun parse_args :: "(int \<Rightarrow> int) \<Rightarrow> string list \<Rightarrow> int \<Rightarrow> string \<Rightarrow> start_action" where
  "parse_args wide [] port dataDir = RunServer port dataDir"
| "parse_args wide [a] port dataDir = RunServer port dataDir"
| "parse_args wide (a # b # args) port dataDir =
     (if a = ''--migrate'' then RunMigration b dataDir
      else if a = ''--port'' then
        let p = atoi wide b in
        if p \<le> 0 \<or> p \<ge> 65535 then BadPort p
        else if b = ''--data'' \<and> args \<noteq> [] then parse_args wide (tl args) p (hd args)
        else parse_args wide args p dataDir
      else if a = ''--data'' then parse_args wide args port b
      else parse_args wide (b # args) port dataDir)"

definition main_args :: "(int \<Rightarrow> int) \<Rightarrow> string list \<Rightarrow> start_action" where
  "main_args wide args = parse_args wide args 12346 ''data''"

text \<open>\<open>--migrate\<close>: opens the database and imports the file; the exit code is 0 whatever it reports.\<close>

definition run_migration ::
  "(string \<Rightarrow> string option) \<Rightarrow> 'db env \<Rightarrow> string \<Rightarrow> ('db database, MigrationReport) prog" where
  "run_migration file E path = thenP (db_open E) (migrateUsers file E path)"

section \<open>Handlers of requests leave the connections alone\<close>

text \<open>
  \<open>quiet\<close>: the network's invariant carries over and the streams grow, the pool at most shrinks, and
  no session is created.
\<close>

definition quiet :: "'db server \<Rightarrow> 'db server \<Rightarrow> bool" where
  "quiet s t \<longleftrightarrow> net_keeps s t \<and> set (pool t) \<subseteq> set (pool s) \<and>
     next_session_id t = next_session_id s \<and> accepting t = accepting s"

interpretation quiet_step: step_relation quiet
proof
  fix s t u :: "'db server"
  show "quiet s s" by (simp add: quiet_def net_step.refl)
  assume "quiet s t" "quiet t u"
  then show "quiet s u" using net_step.trans [of s t u] by (auto simp: quiet_def)
qed

lemma quietI:
  "keeps net_keeps m \<Longrightarrow> (\<And>s. set (pool (snd (m s))) \<subseteq> set (pool s)) \<Longrightarrow>
     (\<And>s. next_session_id (snd (m s)) = next_session_id s \<and> accepting (snd (m s)) = accepting s) \<Longrightarrow>
     keeps quiet m"
  by (simp add: keeps_def quiet_def)

lemma quiet_deliver: "keeps quiet (deliver i json)"
  by (rule quietI [OF keeps_deliver]) (auto simp: deliver_def upd_sess_def prog_simps split: sum.split)

lemma quiet_bind: "keeps quiet (bindUser i u)"
  by (rule quietI [OF keeps_bindUser]) (auto simp: bindUser_def upd_sess_def prog_simps)

lemma quiet_unbind: "keeps quiet (unbindUser u)"
  by (rule quietI [OF keeps_unbindUser]) (auto simp: unbindUser_def upd_sess_def prog_simps Let_def split: option.split)

lemma quiet_presence: "keeps quiet (modifyP (presence_update f))"
  by (rule quietI [OF keeps_presence_update]) (auto simp: prog_simps)

lemma quiet_onDb: "keeps quiet (onDb m)"
  by (rule quietI [OF keeps_onDb]) (auto simp: onDb_def prog_simps split: prod.split)

lemma quiet_steady: "keeps quiet (steadyNow E)"
  by (rule quietI [OF keeps_steady]) (auto simp: steadyNow_def)

lemma quiet_remove: "keeps quiet (pool_remove i)"
  by (rule quietI [OF keeps_remove]) (auto simp: pool_remove_def prog_simps Let_def)

lemma quiet_session:
  assumes "\<And>x. user_id (f x) = user_id x \<and> write_queue (f x) = write_queue x \<and>
    write_offset (f x) = write_offset x \<and> writing (f x) = writing x \<and> wire (f x) = wire x"
  shows "keeps quiet (modifyP (upd_sess i f))"
proof (rule quietI)
  show "keeps net_keeps (modifyP (upd_sess i f))"
    using assms by (intro keepsI)
      (auto simp: prog_simps write_ok_def outgoing_def intro!: net_keeps_upd_sess sends_refl)
qed (auto simp: upd_sess_def prog_simps)

interpretation quiet_router: router_services quiet E actor for E actor
  by unfold_locales (intro quiet_deliver quiet_bind quiet_unbind quiet_onDb quiet_presence)+

lemma quiet_route: "keeps quiet (route E i json)"
  by (rule keepsI) (rule quiet_router.route_keeps [OF refl])

lemma quiet_broadcast: "keeps quiet (broadcast E json x)"
  unfolding broadcast_def by (intro quiet_step.keeps_rules quiet_deliver)

lemma quiet_removeSession: "keeps quiet (removeSession E i)"
  unfolding removeSession_def markOfflineAndBroadcast_def
  by (intro quiet_step.keeps_rules quiet_remove quiet_presence quiet_onDb quiet_broadcast)

lemma quiet_token: "keeps quiet (take_token E i)"
proof (rule keepsI)
  fix s :: "'a server"
  let ?x = "snd (consumeRateLimitToken (steady E (steadies s)) (sess s i))"
  have x: "user_id ?x = user_id (sess s i)" "write_ok ?x = write_ok (sess s i)" "outgoing ?x = outgoing (sess s i)"
    by (simp_all add: consumeRateLimitToken_def Let_def write_ok_def outgoing_def)
  have t: "snd (take_token E i s) = (upd_sess i (\<lambda>_. ?x) s)\<lparr>steadies := Suc (steadies s)\<rparr>"
    by (auto simp: take_token_def prog_simps steadyNow_def upd_sess_def split: prod.split)
  show "quiet s (snd (take_token E i s))"
    unfolding t quiet_def net_keeps_def net_inv_def routed_def upd_sess_def
    using x by (auto intro: sends_refl)
qed

lemma quiet_onMessage: "keeps quiet (session_onMessage E i json)"
  unfolding session_onMessage_def onMessage_def
  by (intro quiet_step.keeps_rules quiet_token quiet_removeSession quiet_steady quiet_deliver quiet_route
      quiet_session) (simp_all add: close_def heartbeatReceived_def)

lemma quiet_read: "keeps quiet (on_read E i bytes)"
  unfolding on_read_def split_def
  by (intro quiet_step.keeps_rules quiet_onMessage quiet_session) (simp_all add: set_accumulator_def)

lemma quiet_read_error: "keeps quiet (on_read_error E i)"
  unfolding on_read_error_def
  by (intro quiet_step.keeps_rules quiet_removeSession quiet_session) simp

lemma quiet_sweep: "keeps quiet (sweepHeartbeatTimeouts E)"
  unfolding sweepHeartbeatTimeouts_def timedOut_def
  by (intro quiet_step.keeps_rules quiet_removeSession quiet_session quiet_steady) (simp add: close_def)

section \<open>The invariant of the server\<close>

definition srv_inv :: "'db server \<Rightarrow> bool" where
  "srv_inv s \<longleftrightarrow> net_inv s \<and> (\<forall>i \<in> set (pool s). i < next_session_id s) \<and>
     (\<forall>i. accepting s = Some i \<longrightarrow> i < next_session_id s \<and> i \<notin> set (pool s))"

text \<open>What an event does to the stream of session \<open>i\<close>: a failed write of its own drops the rest of it.\<close>

definition srv_keeps :: "nat \<Rightarrow> 'db server \<Rightarrow> 'db server \<Rightarrow> bool" where
  "srv_keeps i s t \<longleftrightarrow> max_connections t = max_connections s \<and> (srv_inv s \<longrightarrow> srv_inv t \<and> next_session_id s \<le> next_session_id t \<and>
     (i < next_session_id s \<longrightarrow> sends (sess s i) (sess t i)))"

lemma quiet_srv: "quiet s t \<Longrightarrow> srv_keeps i s t"
  by (auto simp: quiet_def srv_keeps_def srv_inv_def net_keeps_def)

interpretation srv_relation: step_relation "srv_keeps i" for i
proof
  fix s t u :: "'db server"
  show "srv_keeps i s s" by (simp add: srv_keeps_def sends_refl)
  assume "srv_keeps i s t" "srv_keeps i t u"
  then show "srv_keeps i s u" unfolding srv_keeps_def using sends_trans by fastforce
qed

lemma keeps_quiet: "keeps quiet m \<Longrightarrow> keeps (srv_keeps i) m"
  by (simp add: keeps_def quiet_srv)

lemma startAccept_srv: "keeps (srv_keeps i) (startAccept E)"
proof (rule keepsI)
  fix s :: "'a server"
  let ?n = "next_session_id s"
  have t: "snd (startAccept E s) = s\<lparr>steadies := Suc (steadies s),
      sess := (sess s)(?n := new_session (steady E (steadies s))),
      next_session_id := ?n + 1, accepting := Some ?n\<rparr>"
    by (simp add: startAccept_def prog_simps steadyNow_def)
  show "srv_keeps i s (snd (startAccept E s))"
    unfolding t srv_keeps_def srv_inv_def net_inv_def routed_def
    by (auto simp: sends_refl less_Suc_eq)
qed

lemma startAccept_any: "startAccept E (s\<lparr>accepting := a\<rparr>) = startAccept E s"
  by (rule prod_eqI) (simp_all add: startAccept_def prog_simps steadyNow_def)

text \<open>The state between adding the accepted session and starting to accept the next one.\<close>

lemma added_srv:
  assumes "accepting s = Some i" "length (pool s) < max_connections s"
    and x: "user_id x = user_id (sess s i)" "write_ok x = write_ok (sess s i)" "outgoing x = outgoing (sess s i)"
  shows "srv_keeps j s (s\<lparr>pool := pool s @ [i], steadies := k, sess := (sess s)(i := x), accepting := None\<rparr>)"
  using assms by (auto simp: srv_keeps_def srv_inv_def net_inv_def routed_def intro: sends_refl)

lemma accept_srv:
  assumes "accepting s = Some i" "srv_inv s"
  shows "srv_keeps j s (snd (on_accept E i failed s))"
proof -
  have i: "i \<notin> set (pool s)" using assms by (simp add: srv_inv_def)
  consider "failed" | "\<not> failed" "length (pool s) \<ge> max_connections s"
    | "\<not> failed" "length (pool s) < max_connections s" by linarith
  then show ?thesis
  proof cases
    case 1
    then show ?thesis by (simp add: on_accept_def startAccept_srv [THEN keepsD])
  next
    case 2
    have "srv_keeps j s (snd (thenP (modifyP (upd_sess i close)) (startAccept E) s))"
      by (rule keepsD, intro srv_relation.keeps_rules keeps_quiet quiet_session startAccept_srv)
         (simp add: close_def)
    then show ?thesis using 2 by (simp add: on_accept_def pool_add_def prog_simps)
  next
    case 3
    let ?x = "start (steady E (steadies s)) (sess s i)"
    let ?t = "s\<lparr>pool := pool s @ [i], steadies := Suc (steadies s), sess := (sess s)(i := ?x), accepting := None\<rparr>"
    have "srv_keeps j s ?t"
      using assms 3 by (intro added_srv) (simp_all add: start_def write_ok_def outgoing_def)
    then have "srv_keeps j s (snd (startAccept E ?t))"
      by (rule srv_relation.trans) (rule startAccept_srv [THEN keepsD])
    moreover have "snd (on_accept E i failed s) = snd (startAccept E ?t)"
      using 3 i startAccept_any [of E None]
      by (simp add: on_accept_def pool_add_def prog_simps steadyNow_def upd_sess_def)
    ultimately show ?thesis by (simp only:)
  qed
qed

lemma write_done_srv:
  assumes "possible (Written k n) s" "srv_inv s"
  shows "srv_keeps i s (upd_sess k (write_done n) s)"
proof -
  have "write_ok (sess s k)" using assms(2) by (simp add: srv_inv_def net_inv_def)
  with assms(1) have "write_ok (write_done n (sess s k))" "outgoing (write_done n (sess s k)) = outgoing (sess s k)"
    by (auto simp: possible_def intro!: write_done_ok)
  then show ?thesis
    by (auto simp: srv_keeps_def srv_inv_def net_inv_def routed_def upd_sess_def intro: sends_refl)
qed

lemma write_failed_srv:
  "srv_inv s \<Longrightarrow> srv_inv (upd_sess k write_failed s) \<and> (i \<noteq> k \<longrightarrow> srv_keeps i s (upd_sess k write_failed s))"
  by (auto simp: srv_keeps_def srv_inv_def net_inv_def routed_def upd_sess_def write_failed_def write_ok_def
      intro: sends_refl)

text \<open>Every possible event keeps the invariant, thrown or not, and every stream but that of a failed write.\<close>

lemma handle_srv:
  assumes "srv_inv s" "possible ev s" "snd (handle E ev s) = s'"
  shows "srv_inv s' \<and> next_session_id s \<le> next_session_id s' \<and> max_connections s' = max_connections s \<and>
    (ev \<noteq> WriteFailed i \<longrightarrow> srv_keeps i s s')"
proof (cases ev)
  case Accepted
  then obtain k where "accepting s = Some k" using assms(2) by (auto simp: possible_def)
  then show ?thesis using assms accept_srv [of s k i E False] Accepted
    by (auto simp: handle_def prog_simps srv_keeps_def)
next
  case AcceptFailed
  then obtain k where "accepting s = Some k" using assms(2) by (auto simp: possible_def)
  then show ?thesis using assms accept_srv [of s k i E True] AcceptFailed
    by (auto simp: handle_def prog_simps srv_keeps_def)
next
  case (Received k bytes)
  then show ?thesis using assms quiet_read [THEN keeps_quiet, THEN keepsD, of i s E k bytes]
    by (auto simp: handle_def srv_keeps_def)
next
  case (ReadFailed k)
  then show ?thesis using assms quiet_read_error [THEN keeps_quiet, THEN keepsD, of i s E k]
    by (auto simp: handle_def srv_keeps_def)
next
  case (Written k n)
  then show ?thesis using assms write_done_srv [of k n s i]
    by (auto simp: handle_def prog_simps srv_keeps_def)
next
  case (WriteFailed k)
  then show ?thesis using assms write_failed_srv [of s k i]
    by (auto simp: handle_def prog_simps upd_sess_def)
next
  case HeartbeatTimer
  then show ?thesis using assms quiet_sweep [THEN keeps_quiet, THEN keepsD, of i s E]
    by (auto simp: handle_def on_heartbeat_timer_def srv_keeps_def)
qed

lemma srv_inv_new: "srv_inv (new_server n d)"
  by (simp add: srv_inv_def new_server_def net_inv_def routed_def)

lemma srv_inv_start: "srv_inv (snd (startAccept E (new_server n d)))"
  using startAccept_srv [THEN keepsD, of 0 "new_server n d" E] srv_inv_new [of n d] by (simp add: srv_keeps_def)

lemma srv_inv_run: "srv_run E s0 evs s \<Longrightarrow> srv_inv s0 \<Longrightarrow>
    srv_inv s \<and> next_session_id s0 \<le> next_session_id s \<and> max_connections s = max_connections s0"
proof (induction rule: srv_run.induct)
  case (step evs s ev s')
  then show ?case using handle_srv [of s ev E s' 0] by auto
qed simp

lemma stream_run:
  "srv_run E s0 evs s \<Longrightarrow> srv_inv s0 \<Longrightarrow> i < next_session_id s0 \<Longrightarrow> WriteFailed i \<notin> set evs \<Longrightarrow>
     sends (sess s0 i) (sess s i)"
proof (induction rule: srv_run.induct)
  case (step evs s ev s')
  have "srv_inv s \<and> next_session_id s0 \<le> next_session_id s" using srv_inv_run step by blast
  then have "sends (sess s i) (sess s' i)"
    using handle_srv [of s ev E s' i] step by (auto simp: srv_keeps_def)
  then show ?case using step sends_trans by auto
qed (simp add: sends_refl)

text \<open>The start of the process: accepting its first connection.\<close>

definition started :: "'db env \<Rightarrow> nat \<Rightarrow> 'db database \<Rightarrow> 'db server" where
  "started E maxConnections d = snd (startAccept E (new_server maxConnections d))"

section \<open>Properties\<close>

text \<open>C1: After any sequence of events, whatever peers and the network do, the server holds no more
  connections than it may, none twice; a user to whom messages are routed has a positive number and
  is the user of a session in the pool; and the buffer arithmetic of every write that is outstanding
  is in range. The same holds in the state that an exception leaves when it ends the server.\<close>

theorem server_invariant:
  assumes "srv_run E (started E n d) evs s \<or> crashes E (started E n d) evs s"
  shows "length (pool s) \<le> n \<and> distinct (pool s) \<and>
    (\<forall>u i. user_to_session s u = Some i \<longrightarrow> 0 < u \<and> i \<in> set (pool s) \<and> user_id (sess s i) = u) \<and>
    (\<forall>i. writing (sess s i) \<longrightarrow> write_queue (sess s i) \<noteq> [] \<and>
       write_offset (sess s i) < length (hd (write_queue (sess s i))))"
proof -
  have m: "max_connections (started E n d) = n"
    by (simp add: started_def startAccept_def prog_simps steadyNow_def new_server_def)
  have i: "srv_inv (started E n d)" unfolding started_def by (rule srv_inv_start)
  have "srv_inv s \<and> max_connections s = n"
    using assms
  proof
    assume "srv_run E (started E n d) evs s"
    then show ?thesis using srv_inv_run i m by metis
  next
    assume "crashes E (started E n d) evs s"
    then show ?thesis
    proof cases
      case (crash evs0 s1 ev e)
      then show ?thesis using srv_inv_run [OF _ i] handle_srv [of s1 ev E s 0] m by auto
    qed
  qed
  then show ?thesis by (auto simp: srv_inv_def net_inv_def routed_def write_ok_def split: if_splits)
qed

text \<open>A run in which a peer connects and closes the connection again.\<close>

lemma connect_and_close:
  "srv_run ref_env (started ref_env 1 (new_database [])) [Accepted, ReadFailed 1]
     (snd (handle ref_env (ReadFailed 1) (snd (handle ref_env Accepted (started ref_env 1 (new_database []))))))"
proof -
  let ?s = "started ref_env 1 (new_database [])"
  let ?t = "snd (handle ref_env Accepted ?s)"
  have 1: "handle ref_env Accepted ?s = (Inr (), ?t)" "possible Accepted ?s"
    "possible (ReadFailed 1) ?t" "pool ?t = [1]" "user_id (sess ?t 1) = 0"
    by (simp_all add: started_def startAccept_def prog_simps steadyNow_def new_server_def handle_def possible_def
        on_accept_def pool_add_def upd_sess_def start_def new_session_def)
  have 2: "handle ref_env (ReadFailed 1) ?t = (Inr (), snd (handle ref_env (ReadFailed 1) ?t))"
    using 1 by (simp add: handle_def on_read_error_def removeSession_def prog_simps findSession_def
        upd_sess_def pool_remove_def)
  show ?thesis
    using srv_run.step [OF srv_run.step [OF srv_run.init 1(2,1)] 1(3) 2] by simp
qed

theorem server_invariant_witness:
  "length (pool (snd (handle ref_env (ReadFailed 1) (snd (handle ref_env Accepted (started ref_env 1 (new_database []))))))) \<le> 1"
  using server_invariant [OF disjI1 [OF connect_and_close]] by simp



end
