(* ===== verification/RouterProperties.thy ===== *)
theory RouterProperties
  imports TcpServer
begin

text \<open>
  What single requests do: private messages, logins and logouts, and three requests whose handling
  goes wrong: a second login, the removal of other users' friendships, and a search whose reply
  does not fit a frame.
\<close>

section \<open>Delivering\<close>

lemma deliver_run:
  "length json \<le> 262144 \<Longrightarrow> deliver i json s = (Inr (), upd_sess i (push_frame (frame json)) s)"
  by (simp add: deliver_def encode_frame prog_simps)

lemma deliver_too_large:
  "262144 < length json \<Longrightarrow> deliver i json s = (Inl (RuntimeError ''frame too large''), s)"
  by (simp add: deliver_def encode_frame prog_simps)

lemma upd_sess_fields [simp]:
  "sess (upd_sess i f s) j = (if j = i then f (sess s i) else sess s j)"
  "store (upd_sess i f t) = store t" "pool (upd_sess i f s) = pool s"
  "user_to_session (upd_sess i f s) = user_to_session s"
  by (simp_all add: upd_sess_def)

lemma onDb_run: "m (store s) = (r, d) \<Longrightarrow> onDb m s = (r, s\<lparr>store := d\<rparr>)"
  by (simp add: onDb_def prog_simps)

lemma findByUserId_store [simp]: "findByUserId u (s\<lparr>store := d\<rparr>) = findByUserId u s"
  by (simp add: findByUserId_def findSession_def split: option.split)

section \<open>Private messages\<close>

lemma private_message_run:
  assumes r: "rows_of E ''messages'' (store s) = Inr rows" "in_int64 (next_msg_id rows)"
    and w: "\<forall>j. write_ok (sess s j)"
    and a: "user_id (sess s i) = a" "0 < a" and b: "intField request ''toId'' 0 = b" "0 < b"
    and t: "stringField request ''msg'' [] = txt" "txt \<noteq> []"
  shows "\<exists>m res s'. dispatch E i SendMsg request s = (res, s') \<and>
    from_id m = a \<and> to_id m = b \<and> group_id m = 0 \<and> content m = txt \<and> delivered m = (findByUserId b s \<noteq> None) \<and>
    (in_int32 a \<longrightarrow> wf_message m) \<and> rows_of E ''messages'' (store s') = Inr (rows @ [toRow m]) \<and>
    (let payload = serialize_object (messageToJson ReceiveMsg m) in
     if length payload \<le> 262144
     then res = Inr () \<and> (\<forall>j. outgoing (sess s' j) = outgoing (sess s j) @
       frames ((if findByUserId b s = Some j then [payload] else []) @ (if j = i then [payload] else [])))
     else res = Inl (RuntimeError ''frame too large''))"
proof -
  obtain m d' where m: "savePrivate E a b txt (stringField request ''content_type'' ''text'') (findByUserId b s \<noteq> None)
      (store s) = (Inr m, d')" "rows_of E ''messages'' d' = Inr (rows @ [toRow m])"
    "from_id m = a" "to_id m = b" "group_id m = 0" "content m = txt" "delivered m = (findByUserId b s \<noteq> None)"
    "in_int32 a \<longrightarrow> wf_message m"
    using savePrivate_run [OF r, of a b "txt" "stringField request ''content_type'' ''text''" "findByUserId b s \<noteq> None"]
    in_int32_intField [of 0 request "''toId''"] r(2) b(1)
    by (auto simp: new_message_def wf_message_def in_int32_def in_int64_def)
  define payload where "payload = serialize_object (messageToJson ReceiveMsg m)"
  let ?send = "thenP (case findByUserId b s of None \<Rightarrow> returnP () | Some j \<Rightarrow> deliver j payload) (deliver i payload)"
  have run: "dispatch E i SendMsg request s = ?send (s\<lparr>store := d'\<rparr>)"
    unfolding payload_def
    using a b t m(1) by (simp add: dispatch_def handlePrivateMessage_def authenticatedUserId_def authenticated_def
        bindP_run getP_run onDb_run Let_def)
  obtain res s' where s': "?send (s\<lparr>store := d'\<rparr>) = (res, s')" by (cases "?send (s\<lparr>store := d'\<rparr>)")
  have "rows_of E ''messages'' (store s') = Inr (rows @ [toRow m]) \<and>
    (if length payload \<le> 262144
     then res = Inr () \<and> (\<forall>j. outgoing (sess s' j) = outgoing (sess s j) @
       frames ((if findByUserId b s = Some j then [payload] else []) @ (if j = i then [payload] else [])))
     else res = Inl (RuntimeError ''frame too large''))"
  proof (cases "length payload \<le> 262144")
    case True
    then show ?thesis using s' m(2) w write_ok_push
      by (cases "findByUserId b s")
         (auto simp: thenP_run returnP_run deliver_run outgoing_push frames_def)
  next
    case False
    then show ?thesis using s' m(2)
      by (cases "findByUserId b s") (auto simp: thenP_run returnP_run deliver_too_large)
  qed
  then show ?thesis
    using run s' m(3-8) unfolding payload_def by (intro exI [of _ m] exI [of _ res] exI [of _ s']) (simp add: Let_def)
qed

text \<open>C8: A private message of a logged-in user is stored once, under the sender's own number, as
  delivered just when the recipient is connected, and is then sent to the recipient's session, if
  there is one, and back to the sender's, and to no other. If it does not fit a frame it is stored all the same
  and an exception leaves the handler.\<close>

theorem private_message_delivered:
  assumes r: "rows_of E ''messages'' (store s) = Inr rows" "in_int64 (next_msg_id rows)"
    and w: "\<forall>j. write_ok (sess s j)"
    and a: "user_id (sess s i) = a" "0 < a" and b: "intField request ''toId'' 0 = b" "0 < b"
    and t: "stringField request ''msg'' [] = txt" "txt \<noteq> []"
  shows "\<exists>m res s'. dispatch E i SendMsg request s = (res, s') \<and>
    from_id m = a \<and> to_id m = b \<and> group_id m = 0 \<and> content m = txt \<and> delivered m = (findByUserId b s \<noteq> None) \<and>
    rows_of E ''messages'' (store s') = Inr (rows @ [toRow m]) \<and>
    (let payload = serialize_object (messageToJson ReceiveMsg m) in
     if length payload \<le> 262144
     then res = Inr () \<and> (\<forall>j. outgoing (sess s' j) = outgoing (sess s j) @
       frames ((if findByUserId b s = Some j then [payload] else []) @ (if j = i then [payload] else [])))
     else res = Inl (RuntimeError ''frame too large''))"
  using private_message_run [OF assms] unfolding Let_def by blast

text \<open>A server on which user 1001 is connected as session 1, with an empty table of messages.\<close>

definition ref_chat :: "ref_db server" where
  "ref_chat = (ref_server [''messages'' \<mapsto> []])\<lparr>user_to_session := [1001 \<mapsto> 1],
     sess := (\<lambda>_. new_session 0)(1 := setUserId 1001 (new_session 0))\<rparr>"

lemma ref_chat_fields:
  "user_id (sess ref_chat 1) = 1001" "\<forall>j. write_ok (sess ref_chat j)"
  "rows_of E ''messages'' (store ref_chat) = Inr []" "findByUserId 1002 ref_chat = None"
  by (auto simp: ref_chat_def ref_server_def setUserId_def write_ok_def new_session_def findByUserId_def)

theorem private_message_delivered_witness:
  "\<exists>m res s'. dispatch ref_env 1 SendMsg [(''msg'', JString ''hi''), (''toId'', JInt 1002)] ref_chat = (res, s') \<and>
     from_id m = 1001 \<and> \<not> delivered m \<and> rows_of ref_env ''messages'' (store s') = Inr [toRow m]"
proof -
  let ?q = "[(''msg'', JString ''hi''), (''toId'', JInt 1002)]"
  have q: "intField ?q ''toId'' 0 = 1002" "stringField ?q ''msg'' [] = ''hi''"
    by (simp_all add: intField_def stringField_def obj_find_def is_number_def is_string_def as_int_def
        as_string_def in_int32_def)
  show ?thesis
    using private_message_delivered [of ref_env ref_chat "[]" 1 1001 ?q 1002 "''hi''"] q ref_chat_fields
    by (auto simp: next_msg_id_def in_int64_def)
qed

section \<open>Logins\<close>

text \<open>What sending replies and notifications leaves alone: who is connected as whom.\<close>

definition same_bindings :: "'db server \<Rightarrow> 'db server \<Rightarrow> bool" where
  "same_bindings s t \<longleftrightarrow> user_to_session t = user_to_session s \<and> presence t = presence s \<and> pool t = pool s \<and>
     (\<forall>j. user_id (sess t j) = user_id (sess s j))"

interpretation bindings_step: step_relation same_bindings
  by unfold_locales (auto simp: same_bindings_def)

lemma bindings_onDb: "keeps same_bindings (onDb m)"
  by (rule keepsI) (auto simp: onDb_def prog_simps same_bindings_def split: prod.split)

lemma bindings_deliver: "keeps same_bindings (deliver i json)"
  by (rule keepsI) (auto simp: deliver_def upd_sess_def prog_simps same_bindings_def split: sum.split)

interpretation bindings_delivery: delivery_services same_bindings E for E
  by unfold_locales (intro bindings_onDb bindings_deliver)+

lemmas bindings_rules = bindings_step.keeps_rules bindings_onDb bindings_deliver bindings_delivery.deliveries

lemma bindUser_run:
  "i \<in> set (pool s) \<Longrightarrow> 0 < u \<Longrightarrow> \<exists>t. bindUser i u s = (Inr True, t) \<and> user_to_session t u = Some i \<and>
     user_id (sess t i) = u \<and> pool t = pool s \<and> store t = store s"
  by (simp add: bindUser_def findSession_def prog_simps setUserId_def)

lemma thenP_snd: "m s = (Inr a, t) \<Longrightarrow> snd (thenP m k s) = snd (k t)"
  by (simp add: thenP_run)

lemma login_ok:
  assumes i: "i \<in> set (pool s)" and u: "intField request ''id'' 0 = uid" "0 < uid"
    and p: "stringField request ''password'' [] = pw"
    and v: "verifyPassword E uid pw (store s) = (Inr True, d)" "fst (findById E uid d) = Inr (Some user)"
  shows "let s' = snd (dispatch E i Login request s) in
    findByUserId uid s' = Some i \<and> user_id (sess s' i) = uid \<and> isOnline uid (presence s')"
proof -
  obtain d1 where d1: "findById E uid d = (Inr (Some user), d1)" using v(2) by (cases "findById E uid d") auto
  let ?rest = "thenP (onDb (setOnlineStatus E uid True))
      (bindP (login_reply E uid user) (\<lambda>response. thenP (deliver i response)
        (thenP (deliverOffline E i uid) (broadcastPresence E UserOnline uid))))"
  obtain t where t: "bindUser i uid (s\<lparr>store := d1\<rparr>) = (Inr True, t)" "user_to_session t uid = Some i"
      "user_id (sess t i) = uid" "pool t = pool s"
    using bindUser_run [of i "s\<lparr>store := d1\<rparr>" uid] i u by auto
  let ?t = "presence_update (setOnline uid ''online'') t"
  have "dispatch E i Login request s = ?rest ?t"
    using u p v d1 t(1) by (simp add: dispatch_def handleLogin_def Let_def bindP_run thenP_run onDb_run modifyP_run)
  moreover have "same_bindings ?t (snd (?rest ?t))"
    by (rule keepsD, intro bindings_rules)
  ultimately show ?thesis
    using t(2-4) i u by (simp add: same_bindings_def findByUserId_def findSession_def isOnline_def setOnline_def Let_def)
qed

text \<open>C14: A login with the right password makes the session the one to which the user's messages are
  routed, and shows the user as online, also if sending the reply fails; with a wrong password, or
  a number that is not positive, nobody's session and presence change and the reply is an error.\<close>

theorem login_binds_session:
  assumes i: "i \<in> set (pool s)" and u: "intField request ''id'' 0 = uid"
    and p: "stringField request ''password'' [] = pw"
  shows "(0 < uid \<and> verifyPassword E uid pw (store s) = (Inr True, d) \<and> fst (findById E uid d) = Inr (Some user) \<longrightarrow>
      (let s' = snd (dispatch E i Login request s) in
       findByUserId uid s' = Some i \<and> user_id (sess s' i) = uid \<and> isOnline uid (presence s'))) \<and>
    (uid \<le> 0 \<or> verifyPassword E uid pw (store s) = (Inr False, d) \<longrightarrow>
      same_bindings s (snd (dispatch E i Login request s)) \<and>
      (let s1 = (if uid \<le> 0 then s else s\<lparr>store := d\<rparr>) in
       dispatch E i Login request s = deliver i (error_reply LoginFailedReturn 401 ''invalid credentials'') s1))"
proof (rule conjI; rule impI)
  assume "0 < uid \<and> verifyPassword E uid pw (store s) = (Inr True, d) \<and> fst (findById E uid d) = Inr (Some user)"
  then show "let s' = snd (dispatch E i Login request s) in
       findByUserId uid s' = Some i \<and> user_id (sess s' i) = uid \<and> isOnline uid (presence s')"
    using login_ok [OF i u _ p] by blast
next
  assume bad: "uid \<le> 0 \<or> verifyPassword E uid pw (store s) = (Inr False, d)"
  let ?s1 = "if uid \<le> 0 then s else s\<lparr>store := d\<rparr>"
  let ?err = "deliver i (error_reply LoginFailedReturn 401 ''invalid credentials'')"
  have run: "dispatch E i Login request s = ?err ?s1"
    using u p bad by (auto simp: dispatch_def handleLogin_def bindP_run returnP_run onDb_run)
  have "same_bindings s ?s1" by (simp add: same_bindings_def)
  then have "same_bindings s (snd (?err ?s1))"
    by (rule bindings_step.trans) (rule bindings_deliver [THEN keepsD])
  then show "same_bindings s (snd (dispatch E i Login request s)) \<and>
      (let s1 = ?s1 in dispatch E i Login request s = ?err s1)" by (simp add: run)
qed

theorem login_binds_session_witness:
  "same_bindings ref_chat (snd (dispatch ref_env 1 Login [] ref_chat))"
proof -
  have "1 \<in> set (pool ref_chat)" by (simp add: ref_chat_def ref_server_def)
  then show ?thesis
    by (rule login_binds_session [of 1 ref_chat "[]" 0 "[]" ref_env, THEN conjunct2, THEN mp, THEN conjunct1])
       (simp_all add: intField_def stringField_def obj_find_def)
qed

section \<open>Registration, then login\<close>

definition login_request :: "int \<Rightarrow> string \<Rightarrow> object" where
  "login_request uid pw = [(''id'', JInt uid), (''password'', JString pw)]"

lemma login_request_fields:
  "in_int32 uid \<Longrightarrow> intField (login_request uid pw) ''id'' 0 = uid"
  "stringField (login_request uid pw) ''password'' [] = pw"
  by (simp_all add: login_request_def intField_def stringField_def obj_find_def is_number_def is_string_def
      as_int_def as_string_def)

lemma verify_new_account:
  assumes r: "rows_of E ''users'' d = Inr (rows @ [new_user_row i h n a t])" and ok: "users_ok (rows @ [new_user_row i h n a t])"
    and h: "bcrypt_verify_password E pw h" and i: "i \<notin> set (map row_id rows)" "in_int32 i" "in_int32 a"
  shows "\<exists>d1 user. verifyPassword E i pw d = (Inr True, d1) \<and> fst (findById E i d1) = Inr (Some user)"
proof -
  let ?r = "new_user_row i h n a t"
  have ur: "\<forall>r \<in> set (rows @ [?r]). user_row r" using ok by (rule users_okD)
  have fields: "row_id ?r = i" "row_hash ?r = h" "passwordVersion ?r = 1"
    using i by (simp_all add: row_id_def row_hash_def passwordVersion_def new_user_row_def obj_sets_def
        obj_find_def is_number_def as_int_def as_string_def in_int32_def)
  have "find (\<lambda>r. row_id r = i) rows = None" using i(1) by (auto simp: find_None_iff)
  then have f: "find (\<lambda>r. row_id r = i) (rows @ [?r]) = Some ?r"
    using fields(1) by (simp add: find_snoc)
  have "verifyPassword E i pw d = (Inr True, set_rows ''users'' (rows @ [?r]) d)"
    using verify_current [OF r ur f] fields h by simp
  moreover have "findById E i (set_rows ''users'' (rows @ [?r]) d) =
      (Inr (Some (row_user ?r)), set_rows ''users'' (rows @ [?r]) d)"
    using findById_run [of E "set_rows ''users'' (rows @ [?r]) d" "rows @ [?r]" i] ur f by simp
  ultimately show ?thesis by auto
qed

text \<open>C13: Registering with a nickname that is free creates an account with a new number and replies with
  that number, and a login with it and the password, from any connection, then succeeds: the
  connection becomes the user's and the user is online. A nickname that is taken is refused and no
  account is added.\<close>

theorem register_then_login:
  assumes r: "rows_of E ''users'' (store s) = Inr rows" and ok: "users_ok rows" and b: "bcrypt_ok E"
    and full: "next_user_id rows 1000 < 2147483647"
    and q: "stringField request ''nickname'' (stringField request ''name'' []) = nick" "nick \<noteq> []"
      "stringField request ''password'' [] = pw" "pw \<noteq> []"
  shows "if nick \<in> set (map row_nickname rows)
    then \<exists>t. dispatch E i RegisterUser request s =
        deliver i (error_reply RegisterUserReturn 409 ''nickname taken or invalid'') t \<and>
      rows_of E ''users'' (store t) = Inr rows
    else \<exists>uid t. 1000 \<le> uid \<and> uid \<notin> set (map row_id rows) \<and>
      dispatch E i RegisterUser request s = deliver i (serialize_object (obj_sets []
        [(''type'', JInt (toInt RegisterUserReturn)), (''status'', JString ''ok''),
         (''id'', JInt uid), (''msg'', JString ''registered'')])) t \<and>
      (\<forall>j. j \<in> set (pool s) \<longrightarrow>
        (let s' = snd (dispatch E j Login (login_request uid pw) (snd (dispatch E i RegisterUser request s))) in
         findByUserId uid s' = Some j \<and> user_id (sess s' j) = uid \<and> isOnline uid (presence s')))"
proof (cases "nick \<in> set (map row_nickname rows)")
  case True
  have "create E pw nick (intField request ''headId'' 0) (store s) = (Inr (- 1), set_rows ''users'' rows (store s))"
    by (rule create_taken [OF r ok True])
  then show ?thesis using q True
    by (auto simp: dispatch_def handleRegister_def Let_def bindP_run onDb_run Suc_le_eq)
next
  case False
  let ?a = "intField request ''headId'' 0"
  let ?u = "next_user_id rows 1000"
  have a: "in_int32 ?a" by (rule in_int32_intField) (simp add: in_int32_def)
  have u: "1000 \<le> ?u" "?u \<notin> set (map row_id rows)" "in_int32 ?u"
    using next_user_id_above [of 1000 rows] user_ids.fresh [OF ok] ok full
    by (auto simp: users_ok_def in_int32_def)
  obtain h where h: "bcrypt_hash_password E pw 12 (set_rows ''users'' rows (store s))
      = (Inr h, (set_rows ''users'' rows (store s))\<lparr>rnds := Suc (rnds (store s))\<rparr>)" "bcrypt_verify_password E pw h"
    using bcrypt_hash_verifies [OF b, of pw "set_rows ''users'' rows (store s)"] by (auto simp: set_rows_def)
  obtain t d where d: "create E pw nick ?a (store s) = (Inr ?u, d)"
      "rows_of E ''users'' d = Inr (rows @ [new_user_row ?u h nick ?a t])"
    using create_run [OF r ok False h(1)] by blast
  obtain d1 user where v: "verifyPassword E ?u pw d = (Inr True, d1)" "fst (findById E ?u d1) = Inr (Some user)"
    using verify_new_account [OF d(2) users_ok_snoc [OF ok a full] h(2) u(2,3) a] by blast
  let ?reply = "serialize_object (obj_sets [] [(''type'', JInt (toInt RegisterUserReturn)), (''status'', JString ''ok''),
      (''id'', JInt ?u), (''msg'', JString ''registered'')])"
  have run: "dispatch E i RegisterUser request s = deliver i ?reply (s\<lparr>store := d\<rparr>)"
    using q d(1) u(1) by (simp add: dispatch_def handleRegister_def Let_def bindP_run onDb_run Suc_le_eq)
  have s1: "store (snd (dispatch E i RegisterUser request s)) = d" "pool (snd (dispatch E i RegisterUser request s)) = pool s"
    using bindings_deliver [THEN keepsD, of "s\<lparr>store := d\<rparr>" i ?reply] by (simp_all add: run same_store same_bindings_def)
  have "let s' = snd (dispatch E j Login (login_request ?u pw) (snd (dispatch E i RegisterUser request s))) in
      findByUserId ?u s' = Some j \<and> user_id (sess s' j) = ?u \<and> isOnline ?u (presence s')" if "j \<in> set (pool s)" for j
    by (rule login_ok [OF _ _ _ login_request_fields(2)]) (use that s1 u v login_request_fields(1) in auto)
  then show ?thesis using False u(1,2) run by auto
qed

theorem register_then_login_witness:
  "\<exists>uid t. dispatch ref_env 1 RegisterUser [(''nickname'', JString ''eve''), (''password'', JString ''pw'')]
       (ref_server [''users'' \<mapsto> []]) = deliver 1 (serialize_object (obj_sets []
        [(''type'', JInt (toInt RegisterUserReturn)), (''status'', JString ''ok''),
         (''id'', JInt uid), (''msg'', JString ''registered'')])) t"
proof -
  let ?q = "[(''nickname'', JString ''eve''), (''password'', JString ''pw'')]"
  have q: "stringField ?q ''nickname'' (stringField ?q ''name'' []) = ''eve''" "stringField ?q ''password'' [] = ''pw''"
    by (simp_all add: stringField_def obj_find_def is_string_def as_string_def)
  have r: "rows_of ref_env ''users'' (store (ref_server [''users'' \<mapsto> []])) = Inr []"
    by (simp add: ref_server_def)
  show ?thesis
    using register_then_login [OF r _ ref_env_bcrypt _ q(1) _ q(2), of 1] by (auto simp: users_ok_def)
qed

section \<open>Requests that go wrong\<close>

text \<open>C30: A second login makes the first connection a danger to the second. When a user is logged in
  from two connections, messages are routed to the later one; but when the earlier one closes, the
  route is dropped: the user is shown as offline and gets no messages although the later connection
  is open and logged in. And when the earlier one logs out, it is the later one that is logged out,
  and the earlier one stays logged in.\<close>

theorem second_login_cut_off:
  assumes p: "i \<in> set (pool s)" "j \<in> set (pool s)" "i \<noteq> j"
    and u: "user_id (sess s i) = u" "user_id (sess s j) = u" "0 < u" "user_to_session s u = Some j"
  shows "(let t = snd (removeSession E i s) in
      findByUserId u t = None \<and> presence t u = None \<and> j \<in> set (pool t) \<and> user_id (sess t j) = u) \<and>
    (\<forall>t. handleLogout E i request s = (Inr (), t) \<longrightarrow>
      user_id (sess t i) = u \<and> user_id (sess t j) = 0 \<and> findByUserId u t = None)"
proof (intro conjI allI impI)
  let ?s1 = "snd (pool_remove i s)"
  let ?s2 = "presence_update (setOffline u) ?s1"
  let ?rest = "thenP (onDb (setOnlineStatus E u False)) (bindP (onDb (findById E u)) (\<lambda>found.
       case found of None \<Rightarrow> returnP () | Some user \<Rightarrow> broadcast E (serialize (JObj (obj_sets []
             [(''type'', JInt (toInt UserOffline)), (''id'', JInt u),
              (''nickname'', JString (u_nickname user))]))) 0))"
  have "same_bindings ?s2 (snd (?rest ?s2))"
    unfolding broadcast_def by (rule keepsD, intro bindings_rules)
  moreover have "snd (removeSession E i s) = snd (?rest ?s2)"
    using p u by (simp add: removeSession_def markOfflineAndBroadcast_def prog_simps findSession_def pool_remove_def
        del: serialize.simps toInt.simps)
  ultimately show "let t = snd (removeSession E i s) in
      findByUserId u t = None \<and> presence t u = None \<and> j \<in> set (pool t) \<and> user_id (sess t j) = u"
    using p u by (simp add: same_bindings_def findByUserId_def pool_remove_def prog_simps setOffline_def Let_def)
next
  fix t assume r: "handleLogout E i request s = (Inr (), t)"
  obtain d where d: "onDb (setOnlineStatus E u False) (presence_update (setOffline u) s)
      = (Inr (), (presence_update (setOffline u) s)\<lparr>store := d\<rparr>)"
    using r p u by (auto simp: handleLogout_def authenticatedUserId_def authenticated_def prog_simps onDb_def
        split: prod.splits sum.splits)
  let ?s1 = "snd (unbindUser u ((presence_update (setOffline u) s)\<lparr>store := d\<rparr>))"
  let ?rest = "thenP (broadcastPresence E UserOffline u) (deliver i (ok_reply SystemBroadcast ''logged out''))"
  have "same_bindings ?s1 (snd (?rest ?s1))" by (rule keepsD, intro bindings_rules)
  moreover have "t = snd (?rest ?s1)"
    using r p u d by (auto simp: handleLogout_def authenticatedUserId_def authenticated_def prog_simps unbindUser_def
        split: prod.splits sum.splits)
  ultimately show "user_id (sess t i) = u" "user_id (sess t j) = 0" "findByUserId u t = None"
    using p u by (auto simp: same_bindings_def unbindUser_def prog_simps findSession_def findByUserId_def Let_def setUserId_def)
qed

text \<open>Two connections of user 1001.\<close>

definition ref_twice :: "ref_db server" where
  "ref_twice = (ref_server [''users'' \<mapsto> []])\<lparr>pool := [1, 2], user_to_session := [1001 \<mapsto> 2],
     sess := (\<lambda>_. setUserId 1001 (new_session 0))\<rparr>"

theorem second_login_cut_off_witness:
  "let t = snd (removeSession ref_env 1 ref_twice) in
     findByUserId 1001 t = None \<and> 2 \<in> set (pool t) \<and> user_id (sess t 2) = 1001"
proof -
  have "1 \<in> set (pool ref_twice)" "2 \<in> set (pool ref_twice)" "user_id (sess ref_twice 1) = 1001"
      "user_id (sess ref_twice 2) = 1001" "user_to_session ref_twice 1001 = Some 2"
    by (simp_all add: ref_twice_def ref_server_def setUserId_def)
  then show ?thesis
    using second_login_cut_off [of 1 ref_twice 2 1001 ref_env "[]"] by (simp add: Let_def)
qed

text \<open>A logged-in user can end a friendship of two other users: the handler of removals uses the two
  numbers of the request as they come and does not ask whether one of them is the user's own.\<close>

theorem stranger_ends_friendship:
  assumes S: "sqlite_friendships (sqlite E) fr" and f: "friends_are fr (store s) fs"
    and c: "user_id (sess s i) = c" "0 < c" "c \<noteq> a" "c \<noteq> b"
    and q: "intField request ''fromId'' 0 = a" "0 < a" "intField request ''toId'' 0 = b" "0 < b"
  shows "\<exists>fs'. friends_are fr (store (snd (dispatch E i FriendRemove request s))) fs' \<and>
    fstat fs' = (fstat fs)((a, b) := None, (b, a) := None)"
proof -
  obtain x d' fs' where d': "removeFriendship E a b (store s) = (Inr x, d')" "friends_are fr d' fs'"
      "fstat fs' = (fstat fs)((a, b) := None, (b, a) := None)"
    using remove_run [OF S f, of a b] by blast
  let ?reply = "thenP (deliver i (removed_reply x False a True)) (deliver_to_user a (removed_reply x False c False))"
  have "dispatch E i FriendRemove request s = ?reply (s\<lparr>store := d'\<rparr>)"
    using c q d'(1) by (simp add: dispatch_def handleFriendRemove_def authenticated_def prog_simps onDb_run Let_def)
  moreover have "store (snd (deliver_to_user u json t)) = store t" for u json and t :: "'a server"
    by (simp add: deliver_to_user_def prog_simps same_store split: option.split)
  then have "store (snd (?reply (s\<lparr>store := d'\<rparr>))) = d'"
    by (auto simp: thenP_run same_store split: prod.split sum.split dest!: arg_cong [of _ _ "\<lambda>p. store (snd p)"])
  ultimately show ?thesis using d'(2,3) by auto
qed

theorem stranger_ends_friendship_witness:
  "\<exists>fs'. friends_are rfr (store (snd (dispatch ref_env 1 FriendRemove [(''fromId'', JInt 1), (''toId'', JInt 2)]
      (ref_chat\<lparr>store := ref_friends [\<lparr>fs_from = 1, fs_to = 2, fs_status = ''accepted'', fs_msg = [], fs_created = 0, fs_updated = 0\<rparr>]\<rparr>)))) fs' \<and>
    fstat fs' (1, 2) = None"
proof -
  let ?f = "\<lparr>fs_from = 1, fs_to = 2, fs_status = ''accepted'', fs_msg = [], fs_created = 0, fs_updated = 0\<rparr> :: friendship"
  let ?q = "[(''fromId'', JInt 1), (''toId'', JInt 2)]"
  have "sqlite_friendships (sqlite ref_env) rfr" by (simp add: ref_env_def ref_engine_friendships)
  moreover have "friends_are rfr (store (ref_chat\<lparr>store := ref_friends [?f]\<rparr>)) [?f]"
    by (simp add: friends_are_def ref_friends_def fs_distinct_def)
  moreover have "intField ?q ''fromId'' 0 = 1" "intField ?q ''toId'' 0 = 2"
    by (simp_all add: intField_def obj_find_def is_number_def as_int_def in_int32_def)
  ultimately show ?thesis
    using stranger_ends_friendship [of ref_env rfr "ref_chat\<lparr>store := ref_friends [?f]\<rparr>" "[?f]" 1 1001 1 2 ?q]
      ref_chat_fields(1) by auto
qed

subsection \<open>A reply that does not fit a frame\<close>

definition backslash :: char where
  "backslash = CHR 0x5C"

definition backslashes :: "string \<Rightarrow> nat" where
  "backslashes x = length (filter (\<lambda>c. c = backslash) x)"

lemma backslashes_append [simp]: "backslashes (x @ y) = backslashes x + backslashes y"
  by (simp add: backslashes_def)

lemma backslashes_le: "backslashes x \<le> length x"
  by (simp add: backslashes_def)

lemma backslashes_escape: "2 * backslashes x \<le> backslashes (concat (map escape x))"
  by (induction x) (auto simp: backslashes_def escape_def backslash_def)

lemma backslashes_string: "2 * backslashes x \<le> backslashes (serialize_string x)"
  using backslashes_escape [of x] by (simp add: serialize_string_def) (simp add: backslashes_def)

text \<open>A search for \<open>n\<close> backslashes, as a client sends it.\<close>

definition search_request :: "nat \<Rightarrow> object" where
  "search_request n = obj_sets [] [(''type'', JInt (toInt AIRequest)), (''ai_type'', JString ''search''),
     (''msg'', JString (replicate n backslash))]"

lemma search_request_eq:
  "search_request n = [(''ai_type'', JString ''search''), (''msg'', JString (replicate n backslash)),
     (''type'', JInt (toInt AIRequest))]"
  by (simp add: search_request_def obj_sets_def)

lemma length_search_request: "length (serialize_object (search_request n)) \<le> 2 * n + 60"
proof -
  have "length (concat (map escape (replicate n backslash))) = 2 * n"
    by (induction n) (simp_all add: escape_def backslash_def)
  moreover have "length (to_string (toInt AIRequest)) \<le> 2"
    by (simp add: to_string_def digits.simps)
  ultimately show ?thesis
    by (simp add: serialize_object_def search_request_eq serialize_string_def escape_def del: toInt.simps)
qed

lemma search_request_fields:
  "stringField (search_request n) ''ai_type'' [] = ''search''"
  "stringField (search_request n) ''msg'' [] = replicate n backslash"
  "typeField (search_request n) = AIRequest"
  by (simp_all add: search_request_eq stringField_def typeField_def intField_def field_TYPE_def obj_find_def
      is_string_def is_number_def as_string_def as_int_def in_int32_def fromInt_def msg_types_def)

lemma parse_search_request: "parseObject (serialize_object (search_request n)) = Some (search_request n)"
  unfolding search_request_def by (rule parse_reply) (simp add: in_int64_def)

lemma length_msg_field:
  "length (serialize_string p) \<le> length (serialize_object (obj_sets [] [(''type'', JInt t), (''request_id'', JString rid),
     (''status'', JString ''done''), (''msg'', JString p)]))"
  by (simp add: serialize_object_def obj_sets_def)

lemma search_reply_backslashes:
  "4 * n \<le> length (serialize_object (obj_sets [] [(''type'', JInt t), (''request_id'', JString rid),
     (''status'', JString ''done''), (''msg'', JString (serialize_object (obj_sets []
       [(''query'', JString (replicate n backslash)), (''messages'', JArr ms)])))]))"
    (is "_ \<le> length (serialize_object (obj_sets [] [_, _, _, (_, JString ?p)]))")
proof -
  have "2 * n \<le> backslashes (serialize_string (replicate n backslash))"
    using backslashes_string [of "replicate n backslash"] by (simp add: backslashes_def)
  also have "\<dots> \<le> backslashes ?p"
    by (simp add: serialize_object_def obj_sets_def) (simp add: backslashes_def)
  finally have "4 * n \<le> length (serialize_string ?p)"
    using backslashes_string [of ?p] backslashes_le [of "serialize_string ?p"] by linarith
  then show ?thesis using length_msg_field [of ?p t rid] by (rule le_trans)
qed



end
