(* ===== verification/Conversations.thy ===== *)
theory Conversations
  imports RouterProperties
begin

text \<open>
  Messages as the users see them, over several requests: a message to a group reaches the members who are connected,
  and a message to a user who is not connected is handed over when the user logs in.

  What the services called by the handlers leave alone is stated as policies on tables, as in theory \<open>Authorship\<close>: which
  tables an operation does not touch.
\<close>

section \<open>Tables that are left alone\<close>

definition untouched :: "string \<Rightarrow> string \<Rightarrow> row list \<Rightarrow> row list \<Rightarrow> bool" where
  "untouched t n rows rows' \<longleftrightarrow> n = t \<longrightarrow> rows' = rows"

interpretation alone: table_policy "untouched t" for t
  by unfold_locales (auto simp: untouched_def)

lemma alone_update: "n \<noteq> t \<Longrightarrow> keeps (db_follows (untouched t)) (db_update E n p u)"
  by (rule alone.keeps_update) (simp add: untouched_def)

lemma alone_insert: "n \<noteq> t \<Longrightarrow> keeps (db_follows (untouched t)) (db_insert E n r)"
  by (rule alone.keeps_insert) (simp add: untouched_def)

lemma alone_find:
  "keeps (db_follows (untouched t)) (findById E u)" "keeps (db_follows (untouched t)) (getAllUsers E)"
  unfolding findById_def getAllUsers_def
  by (intro alone.db_rules; simp split: list.split; intro conjI impI allI alone.db_rules)+

lemma alone_groups: "keeps (db_follows (untouched t)) (groupsForUser E u)" "keeps (db_follows (untouched t)) (members E g)"
  unfolding groupsForUser_def members_def by (intro alone.db_rules)+

lemma alone_friends: "keeps (db_follows (untouched t)) (getFriends E u)"
  unfolding getFriends_def by (intro alone.db_rules alone_find)

lemma alone_verify: "t \<noteq> ''users'' \<Longrightarrow> keeps (db_follows (untouched t)) (verifyPassword E u pw)"
  unfolding verifyPassword_def bcrypt_hash_password_def Let_def
  by (intro alone.db_rules; simp split: list.split; intro conjI impI allI alone.db_rules alone_update) simp_all

lemma alone_online: "t \<noteq> ''users'' \<Longrightarrow> keeps (db_follows (untouched t)) (setOnlineStatus E u b)"
  unfolding setOnlineStatus_def by (intro alone.db_rules alone_update) simp_all

lemma alone_save:
  "t \<noteq> ''messages'' \<Longrightarrow> keeps (db_follows (untouched t)) (savePrivate E a u txt ct dl)"
  "t \<noteq> ''messages'' \<Longrightarrow> keeps (db_follows (untouched t)) (saveGroup E a g txt ct)"
  unfolding savePrivate_def saveGroup_def nextMessageId_def Let_def
  by (intro alone.db_rules alone_insert; simp)+

lemma alone_offline: "t \<noteq> ''messages'' \<Longrightarrow> keeps (db_follows (untouched t)) (offlineForUser E u limit)"
  unfolding offlineForUser_def markDelivered_def Let_def by (intro alone.db_rules alone_update) simp_all

lemma untouchedD:
  "keeps (db_follows (untouched t)) m \<Longrightarrow> m d = (r, d') \<Longrightarrow> tables d t = Some rows \<Longrightarrow> tables d' t = Some rows"
  using keepsD2 [of "db_follows (untouched t)" m d r d'] by (auto simp: db_follows_def untouched_def)

text \<open>A table that is loaded stays loaded, whatever happens to its rows.\<close>

interpretation loaded: table_policy "\<lambda>n rows rows'. True"
  by unfold_locales simp_all

lemma loaded_save:
  "keeps (db_follows (\<lambda>n rows rows'. True)) (savePrivate E a u txt ct dl)"
  "keeps (db_follows (\<lambda>n rows rows'. True)) (saveGroup E a g txt ct)"
  unfolding savePrivate_def saveGroup_def nextMessageId_def Let_def
  by (intro loaded.db_rules loaded.keeps_insert; simp)+

lemma loaded_offline: "keeps (db_follows (\<lambda>n rows rows'. True)) (offlineForUser E u limit)"
  unfolding offlineForUser_def markDelivered_def Let_def
  by (intro loaded.db_rules loaded.keeps_update) simp_all

section \<open>Messages to a group\<close>

lemma findByUserId_upd [simp]: "findByUserId u (upd_sess j f s) = findByUserId u s"
  by (simp add: findByUserId_def findSession_def split: option.split)

lemma findByUserId_routed: "routed s \<Longrightarrow> findByUserId u s = Some j \<Longrightarrow> user_id (sess s j) = u"
  by (auto simp: findByUserId_def findSession_def routed_def split: option.splits if_splits)

text \<open>The sessions of the users of a list, and what the loop over the list sends them.\<close>

definition sessions_of :: "'a net_scheme \<Rightarrow> int set \<Rightarrow> nat set" where
  "sessions_of s us = {j. \<exists>u \<in> us. findByUserId u s = Some j}"

lemma routed_push: "routed (upd_sess j (push_frame f) s) = routed s"
  by (auto simp: routed_def upd_sess_def)

lemma deliver_to_user_run:
  "deliver_to_user u json s = (case findByUserId u s of None \<Rightarrow> (Inr (), s) | Some j \<Rightarrow> deliver j json s)"
  by (simp add: deliver_to_user_def bindP_run getP_run returnP_run split: option.split)

lemma deliver_to_all:
  assumes "length payload \<le> 262144" "distinct us" "routed s" "\<forall>j. write_ok (sess s j)"
  shows "\<exists>t. forP us (\<lambda>u. deliver_to_user u payload) s = (Inr (), t) \<and> store t = store s \<and>
    (\<forall>j. outgoing (sess t j) = outgoing (sess s j) @ (if j \<in> sessions_of s (set us) then frame payload else []))"
  using assms
proof (induction us arbitrary: s)
  case (Cons u us)
  show ?case
  proof (cases "findByUserId u s")
    case None
    then show ?thesis using Cons.IH [of s] Cons.prems
      by (auto simp: thenP_run deliver_to_user_run sessions_of_def)
  next
    case (Some j)
    let ?s = "upd_sess j (push_frame (frame payload)) s"
    have "\<forall>j. write_ok (sess ?s j)" using Cons.prems(4) write_ok_push by simp
    then obtain t where t: "forP us (\<lambda>u. deliver_to_user u payload) ?s = (Inr (), t)" "store t = store s"
      "\<forall>j. outgoing (sess t j) = outgoing (sess ?s j) @ (if j \<in> sessions_of ?s (set us) then frame payload else [])"
      using Cons.IH [of ?s] Cons.prems by (auto simp: routed_push)
    have "j \<notin> sessions_of s (set us)"
      using Some Cons.prems(2) findByUserId_routed [OF Cons.prems(3)] by (auto simp: sessions_of_def)
    then have "outgoing (sess t k) = outgoing (sess s k) @ (if k \<in> sessions_of s (set (u # us)) then frame payload else [])" for k
      using t(3) Some Cons.prems(4) by (auto simp: sessions_of_def outgoing_push)
    moreover have "forP (u # us) (\<lambda>u. deliver_to_user u payload) s = (Inr (), t)"
      using t(1) Some Cons.prems(1) by (simp add: thenP_run deliver_run deliver_to_user_run [of u])
    ultimately show ?thesis using t(2) by blast
  qed
qed (simp add: returnP_run sessions_of_def)

lemma deliver_to_none:
  "262144 < length payload \<Longrightarrow> forP us (\<lambda>u. deliver_to_user u payload) s =
    (if sessions_of s (set us) = {} then Inr () else Inl (RuntimeError ''frame too large''), s)"
  by (induction us)
     (auto simp: thenP_run returnP_run deliver_to_user_run deliver_too_large sessions_of_def split: option.split)

text \<open>C9: A message to a group is stored once, in the sender's name, and then sent to every member who is
  connected, once each, whether or not the sender is a member, and to nobody else. If it does not fit a
  frame it is stored all the same, nobody gets it, and an exception leaves the handler, unless no member is connected.\<close>

theorem group_message_delivered:
  assumes r: "tables (store s) ''messages'' = Some rows" "in_int64 (next_msg_id rows)"
    and g: "tables (store s) ''group_members'' = Some mems" "distinct (map membership mems)"
    and n: "net_inv s"
    and a: "user_id (sess s i) = a" "0 < a" and gid: "intField request ''groupId'' 0 = gid" "0 < gid"
    and t: "stringField request ''msg'' [] = txt" "txt \<noteq> []"
  shows "\<exists>m res s'. dispatch E i SendGroupMsg request s = (res, s') \<and>
    from_id m = a \<and> to_id m = 0 \<and> group_id m = gid \<and> content m = txt \<and>
    tables (store s') ''messages'' = Some (rows @ [toRow m]) \<and>
    (let payload = serialize_object (messageToJson ReceiveGroupMsg m);
         online = sessions_of s {u. (u, gid) \<in> membership ` set mems}
     in if online = {} \<or> length payload \<le> 262144
        then res = Inr () \<and> (\<forall>j. outgoing (sess s' j) = outgoing (sess s j) @ (if j \<in> online then frame payload else []))
        else res = Inl (RuntimeError ''frame too large'') \<and> (\<forall>j. outgoing (sess s' j) = outgoing (sess s j)))"
proof -
  let ?ct = "stringField request ''content_type'' ''text''"
  let ?us = "map fst (filter (\<lambda>p. snd p = gid) (map membership mems))"
  obtain m d where m: "saveGroup E a gid txt ?ct (store s) = (Inr m, d)" "rows_of E ''messages'' d = Inr (rows @ [toRow m])"
    "from_id m = a" "to_id m = 0" "group_id m = gid" "content m = txt"
    using saveGroup_run [OF rows_of_loaded [OF r(1)] r(2), of E a gid "txt" ?ct] by (auto simp: new_message_def)
  have "tables d ''messages'' \<noteq> None"
    using keepsD2 [OF loaded_save(2) m(1)] r(1) by (auto simp: db_follows_def)
  then have d: "tables d ''messages'' = Some (rows @ [toRow m])" using m(2) by auto
  have "tables d ''group_members'' = Some mems"
    using untouchedD [OF alone_save(2) m(1) g(1)] by simp
  then have us: "members E gid d = (Inr ?us, d)" by (rule members_run)
  define payload where "payload = serialize_object (messageToJson ReceiveGroupMsg m)"
  let ?send = "forP ?us (\<lambda>u. deliver_to_user u payload)"
  let ?s = "s\<lparr>store := d\<rparr>"
  have run: "dispatch E i SendGroupMsg request s = ?send ?s"
    using a gid t m(1) us by (simp add: dispatch_def handleGroupMessage_def authenticatedUserId_def authenticated_def
        bindP_run getP_run onDb_run Let_def payload_def)
  have on: "sessions_of ?s (set ?us) = sessions_of s {u. (u, gid) \<in> membership ` set mems}"
  proof -
    have "set ?us = {u. (u, gid) \<in> membership ` set mems}" by (auto simp: image_iff)
    then show ?thesis by (simp add: sessions_of_def)
  qed
  have u: "distinct ?us" using g(2) by (simp add: distinct_map inj_on_def distinct_filter)
  have n': "routed ?s" "\<forall>j. write_ok (sess ?s j)" using n by (simp_all add: net_inv_def routed_def)
  show ?thesis
  proof (cases "length payload \<le> 262144")
    case True
    then obtain s' where "?send ?s = (Inr (), s')" "store s' = d"
      "\<forall>j. outgoing (sess s' j) = outgoing (sess s j) @ (if j \<in> sessions_of ?s (set ?us) then frame payload else [])"
      using deliver_to_all [OF _ u n'] by auto
    then show ?thesis using run on d m(3-6) True unfolding payload_def by (auto simp: Let_def)
  next
    case False
    then show ?thesis
      using run on d m(3-6) deliver_to_none [of payload ?us ?s] unfolding payload_def by (auto simp: Let_def)
  qed
qed

text \<open>A server on which users 1001 and 1002 are connected and members of group 2001.\<close>

definition ref_group :: "ref_db server" where
  "ref_group = (ref_server [''messages'' \<mapsto> [], ''group_members'' \<mapsto> [member_row 1001 2001 0, member_row 1002 2001 0]])
     \<lparr>user_to_session := [1001 \<mapsto> 1, 1002 \<mapsto> 2], pool := [1, 2],
      sess := (\<lambda>_. new_session 0)(1 := setUserId 1001 (new_session 0), 2 := setUserId 1002 (new_session 0))\<rparr>"

theorem group_message_delivered_witness:
  "\<exists>m res s'. dispatch ref_env 1 SendGroupMsg [(''groupId'', JInt 2001), (''msg'', JString ''hi'')] ref_group = (res, s') \<and>
     from_id m = 1001 \<and> group_id m = 2001 \<and> tables (store s') ''messages'' = Some [toRow m]"
proof -
  let ?q = "[(''groupId'', JInt 2001), (''msg'', JString ''hi'')]"
  have q: "intField ?q ''groupId'' 0 = 2001" "stringField ?q ''msg'' [] = ''hi''"
    by (simp_all add: intField_def stringField_def obj_find_def is_number_def is_string_def as_int_def
        as_string_def in_int32_def)
  have "membership (member_row u 2001 0) = (u, 2001)" if "u \<in> {1001, 1002}" for u
    using that by (auto simp: membership_member_row in_int32_def)
  then have m: "distinct (map membership [member_row 1001 2001 0, member_row 1002 2001 0])" by simp
  have n: "net_inv ref_group"
    by (auto simp: ref_group_def ref_server_def net_inv_def routed_def setUserId_def write_ok_def new_session_def
        split: if_splits)
  have t: "tables (store ref_group) ''messages'' = Some []"
    "tables (store ref_group) ''group_members'' = Some [member_row 1001 2001 0, member_row 1002 2001 0]"
    "user_id (sess ref_group 1) = 1001"
    by (simp_all add: ref_group_def ref_server_def setUserId_def)
  show ?thesis
    using group_message_delivered [OF t(1) _ t(2) m n t(3) _ q(1) _ q(2), of ref_env]
    by (auto simp: next_msg_id_def in_int64_def)
qed

section \<open>Messages to a user who is away\<close>

lemma thenP_ok: "thenP m k s = (Inr b, t) \<Longrightarrow> \<exists>a s1. m s = (Inr a, s1) \<and> k s1 = (Inr b, t)"
  by (auto simp: thenP_run split: prod.splits sum.splits)

lemma bindP_ok: "bindP m k s = (Inr b, t) \<Longrightarrow> \<exists>a s1. m s = (Inr a, s1) \<and> k a s1 = (Inr b, t)"
  by (auto simp: bindP_run split: prod.splits sum.splits)

lemma onDb_ok: "onDb m s = (Inr a, t) \<Longrightarrow> \<exists>d. m (store s) = (Inr a, d) \<and> t = s\<lparr>store := d\<rparr>"
  by (auto simp: onDb_def prog_simps split: prod.splits)

lemma deliver_ok: "deliver i json s = (Inr u, t) \<Longrightarrow> length json \<le> 262144 \<and> t = upd_sess i (push_frame (frame json)) s"
  using deliver_run [of json i s] deliver_too_large [of json i s] by (cases "length json \<le> 262144") auto

text \<open>Steps that leave a table and all sessions alone.\<close>

definition calm :: "string \<Rightarrow> 'db server \<Rightarrow> 'db server \<Rightarrow> bool" where
  "calm t s s' \<longleftrightarrow> sess s' = sess s \<and> db_follows (untouched t) (store s) (store s')"

interpretation calm_step: step_relation "calm t" for t
  by unfold_locales (auto simp: calm_def alone.db_step.refl intro: alone.db_step.trans)

lemma calm_onDb: "keeps (db_follows (untouched t)) m \<Longrightarrow> keeps (calm t) (onDb m)"
  by (rule keepsI) (auto simp: calm_def onDb_def prog_simps split: prod.split dest: keepsD2)

lemma calm_reply: "keeps (calm t) (login_reply E u user)"
  unfolding login_reply_def by (intro calm_step.keeps_rules calm_onDb alone_find alone_friends alone_groups)

text \<open>Delivering to others leaves the stores alone.\<close>

definition same_tables :: "string \<Rightarrow> 'db server \<Rightarrow> 'db server \<Rightarrow> bool" where
  "same_tables t s s' \<longleftrightarrow> db_follows (untouched t) (store s) (store s')"

interpretation tables_step: step_relation "same_tables t" for t
  by unfold_locales (auto simp: same_tables_def alone.db_step.refl intro: alone.db_step.trans)

lemma tables_onDb: "keeps (db_follows (untouched t)) m \<Longrightarrow> keeps (same_tables t) (onDb m)"
  by (rule keepsI) (auto simp: same_tables_def onDb_def prog_simps split: prod.split dest: keepsD2)

lemma tables_deliver: "keeps (same_tables t) (deliver_to_user u json)"
  by (rule keepsI) (simp add: same_tables_def deliver_to_user_run same_store alone.db_step.refl split: option.split)

lemma tables_presence: "keeps (same_tables t) (broadcastPresence E ty u)"
  unfolding broadcastPresence_def Let_def
  by (intro tables_step.keeps_rules tables_onDb tables_deliver alone_find alone_friends)

lemma same_tablesD:
  "keeps (same_tables t) m \<Longrightarrow> m s = (r, s') \<Longrightarrow> tables (store s) t = Some rows \<Longrightarrow> tables (store s') t = Some rows"
  using keepsD2 [of "same_tables t" m s r s'] by (auto simp: same_tables_def db_follows_def untouched_def)

lemma calmD:
  assumes "keeps (calm t) m" "m s = (r, s')"
  shows "sess s' = sess s" "tables (store s) t = Some rows \<Longrightarrow> tables (store s') t = Some rows"
  using keepsD2 [OF assms] by (auto simp: calm_def db_follows_def untouched_def)

text \<open>The message that hands over those that wait.\<close>

definition offline_text :: "StoredMessage list \<Rightarrow> string" where
  "offline_text ms = serialize_object (obj_sets []
     [(''type'', JInt (toInt OfflineMessages)), (''messages'', JArr (messagesToArray ms))])"

text \<open>The rows and the stream of the session after \<open>deliverOffline\<close>.\<close>

lemma deliverOffline_ok:
  assumes ok: "deliverOffline E j u s = (Inr (), t)" and r: "tables (store s) ''messages'' = Some rows"
    and w: "write_ok (sess s j)"
  defines "ms \<equiv> trimToLimit E (map fromRow (filter (is_offline_for u) rows)) 100"
  shows "outgoing (sess t j) = outgoing (sess s j) @ frames (if ms = [] then [] else [offline_text ms])"
    "write_ok (sess t j)"
    "tables (store t) ''messages'' = Some (map (\<lambda>r. if asInt64 r ''msg_id'' 0 \<in> msg_id ` set ms then deliver_row r else r) rows)"
proof -
  obtain d where d: "offlineForUser E u 100 (store s) = (Inr ms, d)" "rows_of E ''messages'' d = Inr (map (\<lambda>r.
      if asInt64 r ''msg_id'' 0 \<in> msg_id ` set ms then deliver_row r else r) rows)"
    using offline_run [OF rows_of_loaded [OF r], of E u 100] by (auto simp: ms_def)
  have "tables d ''messages'' \<noteq> None"
    using keepsD2 [OF loaded_offline d(1)] r by (auto simp: db_follows_def)
  then have rows: "tables d ''messages'' = Some (map (\<lambda>r.
      if asInt64 r ''msg_id'' 0 \<in> msg_id ` set ms then deliver_row r else r) rows)"
    using d(2) by auto
  have "(if ms = [] then returnP () else deliver j (offline_text ms)) (s\<lparr>store := d\<rparr>) = (Inr (), t)"
    using ok d(1) by (simp add: deliverOffline_def bindP_run onDb_run offline_text_def del: toInt.simps split: if_splits)
  then have "t = (if ms = [] then s\<lparr>store := d\<rparr> else upd_sess j (push_frame (frame (offline_text ms))) (s\<lparr>store := d\<rparr>))"
    by (auto simp: returnP_run dest: deliver_ok split: if_splits)
  with rows w show "outgoing (sess t j) = outgoing (sess s j) @ frames (if ms = [] then [] else [offline_text ms])"
    "write_ok (sess t j)"
    "tables (store t) ''messages'' = Some (map (\<lambda>r. if asInt64 r ''msg_id'' 0 \<in> msg_id ` set ms then deliver_row r else r) rows)"
    by (auto simp: outgoing_push frames_def write_ok_push)
qed

lemma bindUser_quiet:
  assumes "bindUser j u s = (r, t)"
  shows "outgoing (sess t k) = outgoing (sess s k)" "store t = store s"
  using assms by (auto simp: bindUser_def prog_simps upd_sess_def setUserId_def outgoing_def split: if_splits)

lemma net_keepsD:
  "keeps net_keeps m \<Longrightarrow> m s = (r, t) \<Longrightarrow> net_inv s \<Longrightarrow> net_inv t \<and> (\<forall>i. sends (sess s i) (sess t i))"
  using keepsD2 [of net_keeps m s r t] by (simp add: net_keeps_def)

lemma net_inv_write_ok: "net_inv s \<Longrightarrow> write_ok (sess s j)"
  by (simp add: net_inv_def)

lemma login_hands_over:
  assumes n: "net_inv s" and j: "j \<in> set (pool s)" and u: "intField request ''id'' 0 = u" "0 < u"
    and p: "stringField request ''password'' [] = pw"
    and v: "verifyPassword E u pw (store s) = (Inr True, d)" "fst (findById E u d) = Inr (Some user)"
    and r: "tables (store s) ''messages'' = Some rows" and ok: "dispatch E j Login request s = (Inr (), t)"
  defines "ms \<equiv> trimToLimit E (map fromRow (filter (is_offline_for u) rows)) 100"
  shows "\<exists>reply rest. outgoing (sess t j) =
      outgoing (sess s j) @ frames (reply # (if ms = [] then [] else [offline_text ms]) @ rest) \<and>
    tables (store t) ''messages'' = Some (map (\<lambda>r. if asInt64 r ''msg_id'' 0 \<in> msg_id ` set ms then deliver_row r else r) rows)"
proof -
  obtain d1 where d1: "findById E u d = (Inr (Some user), d1)" using v(2) by (cases "findById E u d") auto
  have t1: "tables d1 ''messages'' = Some rows"
    using untouchedD [OF alone_find(1) d1 untouchedD [OF alone_verify v(1) r]] by simp
  obtain s1 where s1: "bindUser j u (s\<lparr>store := d1\<rparr>) = (Inr True, s1)"
    using bindUser_run [of j "s\<lparr>store := d1\<rparr>" u] j u by auto
  have n1: "net_inv s1"
    using net_keepsD [OF keeps_bindUser s1] n by (simp add: net_inv_def routed_def)
  let ?s1 = "presence_update (setOnline u ''online'') s1"
  have "thenP (onDb (setOnlineStatus E u True))
      (bindP (login_reply E u user) (\<lambda>response. thenP (deliver j response)
        (thenP (deliverOffline E j u) (broadcastPresence E UserOnline u)))) ?s1 = (Inr (), t)"
    using ok u p v(1) d1 s1
    by (simp add: dispatch_def handleLogin_def Let_def bindP_run thenP_run onDb_run modifyP_run)
  then obtain x s2 reply s3 s4 s5 where
    s2: "onDb (setOnlineStatus E u True) ?s1 = (Inr x, s2)" and s3: "login_reply E u user s2 = (Inr reply, s3)"
    and s4: "deliver j reply s3 = (Inr (), s4)" and s5: "deliverOffline E j u s4 = (Inr (), s5)"
    and t: "broadcastPresence E UserOnline u s5 = (Inr (), t)"
    by (auto dest!: thenP_ok bindP_ok)
  have q: "sess s2 = sess s1" "tables (store s2) ''messages'' = Some rows"
    using calmD [OF calm_onDb [OF alone_online [of "''messages''"]] s2] t1 bindUser_quiet(2) [OF s1] by simp_all
  have q3: "sess s3 = sess s1" "tables (store s3) ''messages'' = Some rows"
    using calmD [OF calm_reply s3] q by simp_all
  have l: "length reply \<le> 262144" "s4 = upd_sess j (push_frame (frame reply)) s3"
    using deliver_ok [OF s4] by simp_all
  have w: "write_ok (sess s1 j)" "write_ok (sess s4 j)"
    using net_inv_write_ok [OF n1] l q3 by (simp_all add: write_ok_push)
  note o = deliverOffline_ok [OF s5 _ w(2), of rows, folded ms_def]
  have "outgoing (sess s4 j) = outgoing (sess s j) @ frame reply"
    using l q3 w(1) bindUser_quiet(1) [OF s1] by (simp add: outgoing_push)
  then have o5: "outgoing (sess s5 j) = outgoing (sess s j) @ frames (reply # (if ms = [] then [] else [offline_text ms]))"
    "tables (store s5) ''messages'' = Some (map (\<lambda>r. if asInt64 r ''msg_id'' 0 \<in> msg_id ` set ms then deliver_row r else r) rows)"
    using o l q3 by (simp_all add: frames_def)
  have "net_inv ?s1" using n1 by (simp add: net_inv_def routed_def)
  then have "net_inv s4"
    using net_keepsD [OF keeps_onDb s2] net_keepsD [OF net_router.keeps_login_reply s3] net_keepsD [OF keeps_deliver s4]
    by blast
  then have "net_inv s5" using net_keepsD [OF net_router.keeps_offline s5] by blast
  then obtain rest where "outgoing (sess t j) = outgoing (sess s5 j) @ frames rest"
    using net_keepsD [OF net_router.keeps_presence t] by (auto simp: sends_def)
  moreover have "tables (store t) ''messages'' = tables (store s5) ''messages''"
    using same_tablesD [OF tables_presence t o5(2)] o5(2) by simp
  ultimately show ?thesis
    using o5 by (intro exI [of _ reply] exI [of _ rest]) (simp add: frames_def)
qed

lemma private_message_stored:
  assumes r: "tables (store s) ''messages'' = Some rows" "in_int64 (next_msg_id rows)"
    and a: "user_id (sess s i) = a" "0 < a" "in_int32 a" and b: "intField request ''toId'' 0 = b" "0 < b"
    and t: "stringField request ''msg'' [] = txt" "txt \<noteq> []" and away: "findByUserId b s = None"
  shows "\<exists>m. let s1 = snd (dispatch E i SendMsg request s) in
    tables (store s1) ''messages'' = Some (rows @ [toRow m]) \<and> pool s1 = pool s \<and>
    wf_message m \<and> from_id m = a \<and> to_id m = b \<and> group_id m = 0 \<and> content m = txt \<and> \<not> delivered m"
proof -
  let ?ct = "stringField request ''content_type'' ''text''"
  have b32: "in_int32 b" using in_int32_intField [of 0 request "''toId''"] b(1) by (simp add: in_int32_def)
  obtain m d where m: "savePrivate E a b txt ?ct False (store s) = (Inr m, d)" "rows_of E ''messages'' d = Inr (rows @ [toRow m])"
    "from_id m = a" "to_id m = b" "group_id m = 0" "content m = txt" "\<not> delivered m" "wf_message m"
    using savePrivate_run [OF rows_of_loaded [OF r(1)] r(2), of E a b "txt" ?ct False] a(3) b32 r(2)
    by (auto simp: new_message_def wf_message_def in_int32_def in_int64_def)
  have "tables d ''messages'' \<noteq> None"
    using keepsD2 [OF loaded_save(1) m(1)] r(1) by (auto simp: db_follows_def)
  then have d: "tables d ''messages'' = Some (rows @ [toRow m])" using m(2) by auto
  have "dispatch E i SendMsg request s = deliver i (serialize_object (messageToJson ReceiveMsg m)) (s\<lparr>store := d\<rparr>)"
    using a b t m(1) away by (simp add: dispatch_def handlePrivateMessage_def authenticatedUserId_def authenticated_def
        bindP_run thenP_run returnP_run getP_run onDb_run Let_def)
  then show ?thesis
    using d m(3-8) bindings_deliver [THEN keepsD, of "s\<lparr>store := d\<rparr>" i "serialize_object (messageToJson ReceiveMsg m)"]
    by (intro exI [of _ m]) (simp add: same_store same_bindings_def Let_def)
qed

lemma all_handed_over:
  assumes "sort_ok E" "length waiting \<le> 100"
  shows "mset (trimToLimit E waiting 100) = mset waiting" "sorted (map timestamp (trimToLimit E waiting 100))"
proof -
  obtain older where o: "mset waiting = mset older + mset (trimToLimit E waiting 100)"
    "sorted (map timestamp (older @ trimToLimit E waiting 100))"
    "length (trimToLimit E waiting 100) = min 100 (length waiting)"
    using trim_spec [OF assms(1), of waiting 100] by auto
  have "size (mset older) = 0" using arg_cong [OF o(1), of size] o(3) assms(2) by simp
  then show "mset (trimToLimit E waiting 100) = mset waiting" "sorted (map timestamp (trimToLimit E waiting 100))"
    using o by (simp_all add: sorted_append)
qed

subsection \<open>An example\<close>

text \<open>A server without a database file, on which user 1001 is connected and user 1002 has an account.\<close>

definition ref_user :: row where
  "ref_user = new_user_row 1002 ''$2b$12$eeeeeeeeeeeeeeeepw'' ''bob'' 1 0"

definition ref_away :: "ref_db server" where
  "ref_away = (ref_server [''messages'' \<mapsto> [], ''users'' \<mapsto> [ref_user], ''group_members'' \<mapsto> []])
     \<lparr>user_to_session := [1001 \<mapsto> 3], pool := [3, 2],
      sess := (\<lambda>_. new_session 0)(3 := setUserId 1001 (new_session 0))\<rparr>"

definition ref_message :: StoredMessage where
  "ref_message = new_message\<lparr>msg_id := 1, from_id := 1001, to_id := 1002, content := ''hi'', timestamp := 1700000000\<rparr>"

definition ref_send :: object where
  "ref_send = [(''msg'', JString ''hi''), (''toId'', JInt 1002)]"

definition stays_closed :: "'db database \<Rightarrow> 'db database \<Rightarrow> bool" where
  "stays_closed d d' \<longleftrightarrow> db_handle d = None \<longrightarrow> db_handle d' = None"

interpretation closed_step: step_relation stays_closed
  by unfold_locales (auto simp: stays_closed_def)

lemma closed_exec: "keeps stays_closed (sqlite3_exec E q)" "keeps stays_closed (sqlite3_run E q ps)"
  by (auto simp: keeps_def stays_closed_def sqlite3_exec_def sqlite3_run_def)

lemma closed_saved [simp]: "db_handle d = None \<Longrightarrow> db_handle (saved E n d) = None"
proof -
  have "keeps stays_closed (saveTable E n)"
    unfolding saveTable_def by (intro closed_step.keeps_rules closed_exec)
  from keepsD [OF this, of d] show "db_handle d = None \<Longrightarrow> db_handle (saved E n d) = None"
    by (simp add: stays_closed_def saved_def)
qed

lemma ref_fields:
  "intField ref_send ''toId'' 0 = 1002" "stringField ref_send ''msg'' [] = ''hi''" "stringField ref_send ''content_type'' ''text'' = ''text''"
  "findByUserId 1002 ref_away = None" "user_id (sess ref_away 3) = 1001"
  "tables (store ref_away) = [''messages'' \<mapsto> [], ''users'' \<mapsto> [ref_user], ''group_members'' \<mapsto> []]"
  "db_handle (store ref_away) = None" "ticks (store ref_away) = 0"
  "pool ref_away = [3, 2]" "presence ref_away = Map.empty"
  "to_int64 (clock ref_env k) = to_int64 (1700000000 + int k)"
  by (simp_all add: ref_send_def intField_def stringField_def obj_find_def is_number_def is_string_def as_int_def
      as_string_def in_int32_def ref_away_def ref_server_def new_database_def setUserId_def findByUserId_def findSession_def ref_env_def)

lemma ref_sent: "\<exists>d. dispatch ref_env 3 SendMsg ref_send ref_away =
    deliver 3 (serialize_object (messageToJson ReceiveMsg ref_message)) (ref_away\<lparr>store := d\<rparr>) \<and>
  tables d = [''messages'' \<mapsto> [toRow ref_message], ''users'' \<mapsto> [ref_user], ''group_members'' \<mapsto> []] \<and> db_handle d = None \<and>
  ticks d = 1"
proof -
  let ?d = "store ref_away"
  let ?d' = "saved ref_env ''messages'' (set_rows ''messages'' [toRow ref_message] (?d\<lparr>ticks := 1\<rparr>))"
  have e: "set_rows ''messages'' [] ?d = ?d" by (rule set_rows_id) (simp add: ref_fields)
  have "savePrivate ref_env 1001 1002 ''hi'' ''text'' False ?d = (Inr ref_message, ?d')"
    using e by (simp add: ref_fields savePrivate_def nextMessageId_run [of _ _ "[]"] next_msg_id_def in_int64_def bindP_run thenP_run
       returnP_run nowSeconds_def Let_def db_insert_run ref_message_def new_message_def)
  then have "dispatch ref_env 3 SendMsg ref_send ref_away =
    deliver 3 (serialize_object (messageToJson ReceiveMsg ref_message)) (ref_away\<lparr>store := ?d'\<rparr>)"
    by (simp add: dispatch_def handlePrivateMessage_def authenticatedUserId_def authenticated_def
        bindP_run thenP_run returnP_run getP_run onDb_run Let_def ref_fields)
  then show ?thesis by (intro exI [of _ ?d']) (auto simp: ref_fields)
qed

lemma ref_user_ok: "user_row ref_user" "row_id ref_user = 1002" "row_hash ref_user = ''$2b$12$eeeeeeeeeeeeeeeepw''" "passwordVersion ref_user = 1"
  "bcrypt_verify_password ref_env ''pw'' ''$2b$12$eeeeeeeeeeeeeeeepw''"
  by code_simp+

definition ref_online :: row where
  "ref_online = fst (set_online ref_env True ref_user 1)"

lemma ref_online_ok: "userFromRow ref_online = Inr (row_user ref_user)" "id_is 1002 ref_user = Inr True" "user_row ref_online"
  "row_id ref_online = 1002" "row_user ref_online = row_user ref_user"
  "u_id (row_user ref_user) = 1002" "u_nickname (row_user ref_user) = ''bob''" "u_avatar_id (row_user ref_user) = 1"
  by code_simp+

definition ref_db_online :: "ref_db database \<Rightarrow> bool" where
  "ref_db_online d \<longleftrightarrow>
     tables d ''users'' = Some [ref_online] \<and> tables d ''group_members'' = Some [] \<and> db_handle d = None"

lemma ref_online_run:
  assumes "tables d = [''messages'' \<mapsto> [toRow ref_message], ''users'' \<mapsto> [ref_user], ''group_members'' \<mapsto> []]" "db_handle d = None" "ticks d = 1"
  shows "\<exists>d'. setOnlineStatus ref_env 1002 True d = (Inr (), d') \<and> ref_db_online d' \<and> tables d' ''messages'' = Some [toRow ref_message]"
proof -
  have "rows_of ref_env ''users'' d = Inr [ref_user]" using assms(1) by simp
  moreover obtain k where "set_online ref_env True ref_user 1 = (ref_online, k)" by (cases "set_online ref_env True ref_user 1") (simp add: ref_online_def)
  ultimately show ?thesis
    using assms by (auto simp: setOnlineStatus_def db_update_run bindP_run returnP_run ref_online_ok ref_db_online_def)
qed

lemma ref_friends_none: "ref_db_online d \<Longrightarrow> getFriends ref_env u d = (Inr [], d)"
  by (simp add: ref_db_online_def getFriends_def sqlite3_select_def bindP_run returnP_run)

lemma ref_known: "ref_db_online d \<Longrightarrow> getAllUsers ref_env d = (Inr [row_user ref_user], d)"
  by (auto simp: ref_db_online_def getAllUsers_def db_query_all_run bindP_run liftP_run returnP_run ref_online_ok intro!: set_rows_id)

lemma ref_groups: "ref_db_online d \<Longrightarrow> groupsForUser ref_env u d = (Inr [], d)"
  by (auto simp: ref_db_online_def groupsForUser_def db_query_run bindP_run returnP_run intro!: set_rows_id)

lemma ref_find: "ref_db_online d \<Longrightarrow> findById ref_env 1002 d = (Inr (Some (row_user ref_user)), d)"
  using findById_run [of ref_env d "[ref_online]" 1002] by (auto simp: ref_db_online_def ref_online_ok set_rows_id)

lemma ref_short:
  "length (serialize_object (obj_sets [] [(''type'', JInt (toInt LoginSuccessReturn)), (''id'', JInt 1002),
          (''nickname'', JString ''bob''), (''headId'', JInt 1),
          (''friends'', JArr []), (''users'', JArr [JObj (userToJson (row_user ref_user) ''online'')]),
          (''groups'', JArr [])])) \<le> 500"
  "length (offline_text [ref_message]) \<le> 500"
  by code_simp+

lemma ref_waiting:
  "filter (is_offline_for 1002) [toRow ref_message] = [toRow ref_message]"
  "trimToLimit ref_env (map fromRow [toRow ref_message]) 100 = [ref_message]"
  by code_simp+

lemma closed_offline: "keeps stays_closed (offlineForUser E u limit)"
proof -
  have q: "keeps stays_closed (db_query E n p)" for n p
    by (auto simp: keeps_def stays_closed_def db_query_run split: sum.split)
  have "keeps stays_closed (db_update E n p f)" for n p f
    by (auto simp: keeps_def stays_closed_def db_update_run split: sum.split prod.split option.split)
  with q show ?thesis
    unfolding offlineForUser_def markDelivered_def Let_def by (intro closed_step.keeps_rules)
qed

lemma ref_offline:
  assumes "ref_db_online d" "tables d ''messages'' = Some [toRow ref_message]"
  shows "\<exists>d'. offlineForUser ref_env 1002 100 d = (Inr [ref_message], d') \<and> ref_db_online d'"
proof -
  obtain d' where d': "offlineForUser ref_env 1002 100 d = (Inr [ref_message], d')"
    using offline_run [OF rows_of_loaded [OF assms(2)], of ref_env 1002 100] by (auto simp only: ref_waiting)
  then show ?thesis
    using assms(1) keepsD2 [OF closed_offline d'] untouchedD [OF alone_offline d', of "''users''"]
      untouchedD [OF alone_offline d', of "''group_members''"]
    by (simp add: ref_db_online_def stays_closed_def)
qed

lemma ref_login:
  assumes "tables (store s) = [''messages'' \<mapsto> [toRow ref_message], ''users'' \<mapsto> [ref_user], ''group_members'' \<mapsto> []]"
    "db_handle (store s) = None" "ticks (store s) = 1"
    "pool s = [3, 2]" "presence s = Map.empty"
  shows "\<exists>t. dispatch ref_env 2 Login (login_request 1002 ''pw'') s = (Inr (), t)"
    "verifyPassword ref_env 1002 ''pw'' (store s) = (Inr True, store s)"
    "findById ref_env 1002 (store s) = (Inr (Some (row_user ref_user)), store s)"
proof -
  have u: "rows_of ref_env ''users'' (store s) = Inr [ref_user]" "set_rows ''users'' [ref_user] (store s) = (store s)"
    using assms(1) by (auto intro: set_rows_id)
  show v: "verifyPassword ref_env 1002 ''pw'' (store s) = (Inr True, store s)"
    using verify_current [OF u(1), of 1002 ref_user "''pw''"] u(2) ref_user_ok by simp
  show f: "findById ref_env 1002 (store s) = (Inr (Some (row_user ref_user)), store s)"
    using findById_run [OF u(1), of 1002] u(2) ref_user_ok by simp
  obtain d where d: "setOnlineStatus ref_env 1002 True (store s) = (Inr (), d)" "ref_db_online d" "tables d ''messages'' = Some [toRow ref_message]"
    using ref_online_run assms(1-3) by blast
  obtain d' where d': "offlineForUser ref_env 1002 100 d = (Inr [ref_message], d')" "ref_db_online d'"
    using ref_offline d(2,3) by blast
  obtain s1 where s1: "bindUser 2 1002 s = (Inr True, s1)" "store s1 = store s" "presence s1 = presence s"
    using bindUser_run [of 2 s 1002] assms(4) by (fastforce simp: bindUser_def findSession_def prog_simps upd_sess_def)
  let ?s2 = "(presence_update (setOnline 1002 ''online'') s1)\<lparr>store := d\<rparr>"
  have l: "login_reply ref_env 1002 (row_user ref_user) ?s2 = (Inr (serialize_object (obj_sets [] [(''type'', JInt (toInt LoginSuccessReturn)), (''id'', JInt 1002),
          (''nickname'', JString ''bob''), (''headId'', JInt 1),
          (''friends'', JArr []), (''users'', JArr [JObj (userToJson (row_user ref_user) ''online'')]),
          (''groups'', JArr [])])), ?s2)"
    using d(2) s1(3) assms(5) by (simp add: login_reply_def bindP_run onDb_run getP_run returnP_run ref_known ref_friends_none
      ref_groups ref_online_ok presence_status_def setOnline_def del: toInt.simps)
  show "\<exists>t. dispatch ref_env 2 Login (login_request 1002 ''pw'') s = (Inr (), t)"
    using v f d(1) s1 l
      d' ref_find [OF d'(2)] ref_friends_none [OF d'(2)] ref_short
    by (simp add: dispatch_def handleLogin_def Let_def bindP_run thenP_run onDb_run modifyP_run returnP_run
        login_request_fields in_int32_def deliver_run deliverOffline_def broadcastPresence_def offline_text_def del: toInt.simps)
qed

subsection \<open>The property\<close>

text \<open>C10: A message to a user who is not connected is handed over at the next login. After the message was sent,
  the user's login, when it succeeds, sends the new connection the answer to the login and then one frame with all messages
  that wait for the user, this one among them, each once and in the order of their times, as long as no more than 100
  wait; from then on no message waits for the user.\<close>

theorem away_message_handed_over:
  assumes n: "net_inv s" and r: "tables (store s) ''messages'' = Some rows" "in_int64 (next_msg_id rows)"
    and a: "user_id (sess s i) = a" "0 < a" "in_int32 a" and b: "intField request ''toId'' 0 = b" "0 < b"
    and t: "stringField request ''msg'' [] = txt" "txt \<noteq> []" and away: "findByUserId b s = None"
    and few: "length (filter (is_offline_for b) rows) < 100" and S: "sort_ok E"
    and s1: "s1 = snd (dispatch E i SendMsg request s)"
    and l: "j \<in> set (pool s)" "intField login ''id'' 0 = b" "stringField login ''password'' [] = pw"
    and v: "verifyPassword E b pw (store s1) = (Inr True, d)" "fst (findById E b d) = Inr (Some user)"
    and ok: "dispatch E j Login login s1 = (Inr (), s2)"
  shows "\<exists>m ms reply rest. from_id m = a \<and> to_id m = b \<and> content m = txt \<and>
    mset ms = mset (map fromRow (filter (is_offline_for b) rows)) + {#m#} \<and> sorted (map timestamp ms) \<and>
    outgoing (sess s2 j) = outgoing (sess s1 j) @ frames (reply # offline_text ms # rest) \<and>
    (\<exists>rows2. tables (store s2) ''messages'' = Some rows2 \<and> filter (is_offline_for b) rows2 = [])"
proof -
  obtain m where m: "tables (store s1) ''messages'' = Some (rows @ [toRow m])" "pool s1 = pool s" "wf_message m"
    "from_id m = a" "to_id m = b" "group_id m = 0" "content m = txt" "\<not> delivered m"
    using private_message_stored [OF r a b t away, of E] s1 by (auto simp: Let_def)
  have n1: "net_inv s1"
    using net_router.dispatch_keeps [OF refl, where s = s and i = i and E = E and t = SendMsg and request = request] n s1 by (simp add: net_keeps_def)
  define w where "w = map fromRow (filter (is_offline_for b) (rows @ [toRow m]))"
  define ms where "ms = trimToLimit E w 100"
  define rows2 where
    "rows2 = map (\<lambda>r. if asInt64 r ''msg_id'' 0 \<in> msg_id ` set ms then deliver_row r else r) (rows @ [toRow m])"
  have "is_offline_for b (toRow m)"
    using m(3,5,6,8) by (simp add: is_offline_for_def field_defs wf_message_def)
  then have w: "w = map fromRow (filter (is_offline_for b) rows) @ [m]" using fromRow_toRow [OF m(3)] by (simp add: w_def)
  have ms: "mset ms = mset w" "sorted (map timestamp ms)"
    using all_handed_over [OF S, of w] few by (simp_all add: w ms_def)
  then have ne: "ms \<noteq> []" using w by auto
  obtain reply rest where h: "outgoing (sess s2 j) = outgoing (sess s1 j) @ frames (reply # offline_text ms # rest)"
    "tables (store s2) ''messages'' = Some rows2"
    using login_hands_over [OF n1 _ l(2) b(2) l(3) v m(1) ok, folded w_def, folded ms_def, folded rows2_def] l(1) m(2) ne
    by auto
  have "set ms = set w" using ms(1) by (metis set_mset_mset)
  then have "filter (is_offline_for b) rows2 = []"
    unfolding rows2_def offline_after_delivery by (auto simp: filter_empty_conv row_msg_id image_iff w_def)
  moreover have "mset ms = mset (map fromRow (filter (is_offline_for b) rows)) + {#m#}" using ms(1) w by simp
  ultimately show ?thesis using h ms(2) m(4,5,7) by blast
qed

theorem away_message_handed_over_witness:
  "\<exists>s2 m ms reply rest. dispatch ref_env 2 Login (login_request 1002 ''pw'') (snd (dispatch ref_env 3 SendMsg ref_send ref_away)) = (Inr (), s2) \<and>
     content m = ''hi'' \<and> mset ms = {#m#} \<and>
     outgoing (sess s2 2) = outgoing (sess (snd (dispatch ref_env 3 SendMsg ref_send ref_away)) 2) @ frames (reply # offline_text ms # rest)"
proof -
  let ?s1 = "snd (dispatch ref_env 3 SendMsg ref_send ref_away)"
  let ?reply = "serialize_object (messageToJson ReceiveMsg ref_message)"
  obtain d where d: "dispatch ref_env 3 SendMsg ref_send ref_away = deliver 3 ?reply (ref_away\<lparr>store := d\<rparr>)"
    "tables d = [''messages'' \<mapsto> [toRow ref_message], ''users'' \<mapsto> [ref_user], ''group_members'' \<mapsto> []]" "db_handle d = None"
    "ticks d = 1" using ref_sent by blast
  have s1: "store ?s1 = d" "pool ?s1 = [3, 2]" "presence ?s1 = Map.empty"
    using bindings_deliver [THEN keepsD, of "ref_away\<lparr>store := d\<rparr>" 3 ?reply]
    by (simp_all add: d(1) same_store same_bindings_def ref_fields)
  note login = ref_login [of ?s1, unfolded s1, OF d(2-4) refl refl]
  obtain s2 where s2: "dispatch ref_env 2 Login (login_request 1002 ''pw'') ?s1 = (Inr (), s2)" using login(1) by blast
  have n: "net_inv ref_away"
    by (auto simp: ref_away_def ref_server_def net_inv_def routed_def setUserId_def write_ok_def new_session_def
        split: if_splits)
  have l: "2 \<in> set (pool ref_away)" by (simp add: ref_fields)
  have t: "tables (store ref_away) ''messages'' = Some []" by (simp add: ref_fields)
  have q: "intField (login_request 1002 ''pw'') ''id'' 0 = 1002" by (rule login_request_fields) (simp add: in_int32_def)
  have v: "verifyPassword ref_env 1002 ''pw'' (store ?s1) = (Inr True, store ?s1)"
    "fst (findById ref_env 1002 (store ?s1)) = Inr (Some (row_user ref_user))"
    using login(2,3) s1(1) by simp_all
  show ?thesis
    using away_message_handed_over [OF n t _ ref_fields(5) _ _ ref_fields(1) _ ref_fields(2) _ ref_fields(4) _ ref_env_sort refl l
        q login_request_fields(2) v s2] s2
    by (auto simp: next_msg_id_def in_int64_def in_int32_def)
qed

end
