(* ===== verification/ReadLoop.thy ===== *)
theory ReadLoop
  imports Conversations
begin

text \<open>
  The read loop of a session (\<^verbatim>\<open>AsyncSession::doRead\<close>) against its purpose: however TCP cuts the bytes of a
  client into reads, the server does what it does when it handles the client's messages one by one.

  Everything that handles a message commutes with changes of the receive buffer, which only the loop uses. The
  locale \<open>unseen_change\<close> says which calls must commute with a change of the state for all handlers to do so.
\<close>

section \<open>Programs that commute with a change of the state\<close>

definition commutes :: "('s \<Rightarrow> 's) \<Rightarrow> ('s, 'a) prog \<Rightarrow> bool" where
  "commutes f m \<longleftrightarrow> (\<forall>s. m (f s) = map_prod id f (m s))"

lemma commutesI: "(\<And>s. m (f s) = map_prod id f (m s)) \<Longrightarrow> commutes f m"
  by (simp add: commutes_def)

lemma commutesD: "commutes f m \<Longrightarrow> m s = (r, t) \<Longrightarrow> m (f s) = (r, f t)"
  by (simp add: commutes_def)

lemma commutes_return: "commutes f (returnP a)"
  by (simp add: commutes_def returnP_run)

lemma commutes_lift: "commutes f (liftP r)"
  by (simp add: commutes_def liftP_run)

lemma commutes_get: "(\<And>s. g (f s) = g s) \<Longrightarrow> commutes f (getP g)"
  by (simp add: commutes_def getP_run)

lemma commutes_modify: "(\<And>s. g (f s) = f (g s)) \<Longrightarrow> commutes f (modifyP g)"
  by (simp add: commutes_def modifyP_run)

lemma commutes_bind: "commutes f m \<Longrightarrow> (\<And>a. commutes f (k a)) \<Longrightarrow> commutes f (bindP m k)"
  by (rule commutesI) (auto simp: commutes_def bindP_run map_prod_def split: prod.splits sum.splits)

lemma commutes_then: "commutes f m \<Longrightarrow> commutes f k \<Longrightarrow> commutes f (thenP m k)"
  by (simp add: thenP_def commutes_bind)

lemma commutes_when: "(b \<Longrightarrow> commutes f m) \<Longrightarrow> commutes f (whenP b m)"
  by (simp add: whenP_def commutes_return)

lemma commutes_if: "(b \<Longrightarrow> commutes f m) \<Longrightarrow> (\<not> b \<Longrightarrow> commutes f k) \<Longrightarrow> commutes f (if b then m else k)"
  by simp

lemma commutes_option:
  "commutes f m \<Longrightarrow> (\<And>a. x = Some a \<Longrightarrow> commutes f (k a)) \<Longrightarrow> commutes f (case x of None \<Rightarrow> m | Some a \<Rightarrow> k a)"
  by (cases x) auto

lemma commutes_for: "(\<And>x. x \<in> set xs \<Longrightarrow> commutes f (k x)) \<Longrightarrow> commutes f (forP xs k)"
  by (induction xs) (auto intro: commutes_return commutes_then)

lemma commutes_map: "(\<And>x. x \<in> set xs \<Longrightarrow> commutes f (k x)) \<Longrightarrow> commutes f (mapP k xs)"
  by (induction xs) (auto intro!: commutes_return commutes_bind)

lemma commutes_catch: "commutes f m \<Longrightarrow> commutes f h \<Longrightarrow> commutes f (catchP m h)"
  by (rule commutesI) (auto simp: commutes_def catchP_run map_prod_def split: prod.splits sum.splits)

lemmas commutes_rules = commutes_return commutes_catch commutes_lift commutes_bind commutes_then commutes_when commutes_if
  commutes_option commutes_for commutes_map

section \<open>Changes that no handler sees\<close>

locale unseen_change =
  fixes f :: "'db server \<Rightarrow> 'db server"
  assumes deliver: "commutes f (deliver j json)"
    and bindUser: "commutes f (bindUser j u)"
    and unbindUser: "commutes f (unbindUser u)"
    and pool_remove: "commutes f (pool_remove j)"
    and presence_change: "commutes f (modifyP (presence_update h))"
    and user_kept [simp]: "user_id (sess (f s) j) = user_id (sess s j)"
    and routes_kept [simp]: "findByUserId u (f s) = findByUserId u s"
    and pool_kept [simp]: "pool (f s) = pool s"
    and presence_kept [simp]: "presence (f s) = presence s"
    and token: "commutes f (take_token E j)"
    and closing: "commutes f (modifyP (upd_sess j close))"
    and beat: "commutes f (modifyP (upd_sess j (heartbeatReceived t)))"
    and clock: "commutes f (steadyNow E)"
    and store_kept: "store (f s) = store s"
    and store_change: "(f s)\<lparr>store := d\<rparr> = f (s\<lparr>store := d\<rparr>)"
begin

lemma unseen_onDb: "commutes f (onDb m)"
  by (rule commutesI) (simp add: onDb_def zoomP_run store_kept store_change split: prod.split)

lemmas services = deliver unseen_onDb bindUser unbindUser pool_remove presence_change

lemma auth: "commutes f (authenticatedUserId j)"
  unfolding authenticatedUserId_def authenticated_def by (rule commutes_get) simp

lemma to_user: "commutes f (deliver_to_user u payload)"
  unfolding deliver_to_user_def by (intro commutes_rules services commutes_get) simp

lemma conversation: "commutes f (deliverToConversation E payload u v g)"
  unfolding deliverToConversation_def by (intro commutes_rules services to_user)

lemma offline: "commutes f (deliverOffline E j u)"
  unfolding deliverOffline_def by (intro commutes_rules services)

lemma broadcast_presence: "commutes f (broadcastPresence E t u)"
  unfolding broadcastPresence_def Let_def by (intro commutes_rules services to_user)

lemma chunks: "commutes f (summary_chunks j req rest k)"
  by (induction j req rest k rule: summary_chunks.induct)
     (subst summary_chunks.simps, auto intro!: commutes_rules services)

lemma summary: "commutes f (deliverSummaryChunks j req txt)"
  unfolding deliverSummaryChunks_def by (intro commutes_rules services chunks)

lemma reply: "commutes f (reply_conversation E j ok payload u v g)"
  unfolding reply_conversation_def by (intro commutes_rules services conversation)

lemma answer_login: "commutes f (login_reply E u user)"
  unfolding login_reply_def by (intro commutes_rules services commutes_get) simp_all

lemmas deliveries_unseen = services auth to_user conversation offline broadcast_presence summary reply answer_login

lemmas handler_rules = commutes_rules deliveries_unseen commutes_get

end

context unseen_change
begin

lemma unseen_register: "commutes f (handleRegister E j request)"
  unfolding handleRegister_def Let_def by (intro handler_rules; simp)

lemma unseen_login: "commutes f (handleLogin E j request)"
  unfolding handleLogin_def Let_def by (intro handler_rules; simp)

lemma unseen_logout: "commutes f (handleLogout E j request)"
  unfolding handleLogout_def Let_def by (intro handler_rules; simp)

lemma unseen_private_message: "commutes f (handlePrivateMessage E j request)"
  unfolding handlePrivateMessage_def Let_def by (intro handler_rules; simp)

lemma unseen_group_message: "commutes f (handleGroupMessage E j request)"
  unfolding handleGroupMessage_def Let_def by (intro handler_rules; simp)

lemma unseen_create_group: "commutes f (handleCreateGroup E j request)"
  unfolding handleCreateGroup_def Let_def by (intro handler_rules; simp)

lemma unseen_search_group: "commutes f (handleSearchGroup E j request)"
  unfolding handleSearchGroup_def Let_def by (intro handler_rules; simp)

lemma unseen_join_group: "commutes f (handleJoinGroup E j request)"
  unfolding handleJoinGroup_def member_users_def Let_def by (intro handler_rules; simp)

lemma unseen_leave_group: "commutes f (handleLeaveGroup E j request)"
  unfolding handleLeaveGroup_def Let_def by (intro handler_rules; simp)

lemma unseen_history: "commutes f (handleHistory E j request)"
  unfolding handleHistory_def Let_def by (intro handler_rules; simp)

lemma unseen_file_transfer: "commutes f (handleFileTransfer E j request)"
  unfolding handleFileTransfer_def Let_def by (intro handler_rules; simp)

lemma unseen_message_edit: "commutes f (handleMessageEdit E j request)"
  unfolding handleMessageEdit_def Let_def by (intro handler_rules; simp)

lemma unseen_message_delete: "commutes f (handleMessageDelete E j request)"
  unfolding handleMessageDelete_def Let_def by (intro handler_rules; simp)

lemma unseen_message_reaction: "commutes f (handleMessageReaction E j request)"
  unfolding handleMessageReaction_def Let_def by (intro handler_rules; simp)

lemma unseen_read_receipt: "commutes f (handleReadReceipt E j request)"
  unfolding handleReadReceipt_def Let_def by (intro handler_rules; simp)

lemma unseen_protocol_hello: "commutes f (handleProtocolHello j request)"
  unfolding handleProtocolHello_def Let_def by (intro handler_rules; simp)

lemma unseen_ai_request: "commutes f (handleAIRequest E j request)"
  unfolding handleAIRequest_def summary_history_def Let_def by (intro handler_rules; simp)

lemma unseen_friend_request: "commutes f (handleFriendRequest E j request)"
  unfolding handleFriendRequest_def Let_def by (intro handler_rules; simp)

lemma unseen_friend_accept: "commutes f (handleFriendAccept E j request)"
  unfolding handleFriendAccept_def Let_def by (intro handler_rules; simp)

lemma unseen_friend_remove: "commutes f (handleFriendRemove E j request)"
  unfolding handleFriendRemove_def Let_def authenticated_def by (intro handler_rules; simp)

lemma unseen_friend_list: "commutes f (handleFriendList E j request)"
  unfolding handleFriendList_def Let_def by (intro handler_rules; simp)

lemma unseen_system_broadcast: "commutes f (handleSystemBroadcast E j request)"
  unfolding handleSystemBroadcast_def Let_def by (intro handler_rules; simp)

lemma unseen_profile_update: "commutes f (handleProfileUpdate E j request)"
  unfolding handleProfileUpdate_def Let_def by (intro handler_rules; simp)

lemmas handlers = unseen_register unseen_login unseen_logout unseen_private_message unseen_group_message unseen_create_group
  unseen_search_group unseen_join_group unseen_leave_group unseen_history unseen_file_transfer unseen_message_edit
  unseen_message_delete unseen_message_reaction unseen_read_receipt unseen_protocol_hello unseen_ai_request unseen_friend_request
  unseen_friend_accept unseen_friend_remove unseen_friend_list unseen_system_broadcast unseen_profile_update

lemma dispatched: "commutes f (dispatch E j t request)"
  unfolding dispatch_def by (cases t) (simp_all add: handlers deliver)

lemma unseen_route: "commutes f (route E j json)"
  by (cases "parseObject json") (simp_all add: route_def dispatched deliver)

lemma removed: "commutes f (removeSession E j)"
  unfolding removeSession_def markOfflineAndBroadcast_def broadcast_def pool_all_def findSession_def
  by (intro handler_rules; simp)

lemma messages: "commutes f (session_onMessage E j json)"
  unfolding session_onMessage_def onMessage_def
  by (intro commutes_rules deliver token closing beat clock unseen_route removed)

end

section \<open>The receive buffer\<close>

definition set_input :: "nat \<Rightarrow> u8 list \<Rightarrow> bool \<Rightarrow> 'db server \<Rightarrow> 'db server" where
  "set_input i b r = upd_sess i (\<lambda>x. x\<lparr>read_accumulator := b, reading := r\<rparr>)"

interpretation input: unseen_change "set_input i b r" for i b r
proof unfold_locales
  fix j E
  show "commutes (set_input i b r) (take_token E j)"
    by (rule commutesI)
       (auto simp: take_token_def prog_simps steadyNow_def upd_sess_def set_input_def consumeRateLimitToken_def Let_def fun_eq_iff)
qed (auto simp: commutes_def set_input_def upd_sess_def deliver_def prog_simps bindUser_def findSession_def unbindUser_def
    pool_remove_def Let_def push_frame_def doWrite_def close_def heartbeatReceived_def setUserId_def steadyNow_def
    findByUserId_def fun_eq_iff split: sum.split option.split)

lemma input_swap: "x\<lparr>reading := r, read_accumulator := b\<rparr> = x\<lparr>read_accumulator := b, reading := r\<rparr>"
  by simp

lemma set_input_simps [simp]:
  "set_input i b r (set_input i b' r' s) = set_input i b r s"
  "read_accumulator (sess (set_input i b r s) i) = b" "reading (sess (set_input i b r s) i) = r"
  "upd_sess i (set_accumulator c) (set_input i b r s) = set_input i c r s"
  "upd_sess i (\<lambda>x. x\<lparr>reading := q\<rparr>) (set_input i b r s) = set_input i b q s"
  "upd_sess i (\<lambda>x. x\<lparr>reading := q, read_accumulator := read_accumulator x @ c\<rparr>) (set_input i b r s) = set_input i (b @ c) q s"
  by (simp_all add: set_input_def upd_sess_def set_accumulator_def input_swap)

lemma set_input_same: "set_input i (read_accumulator (sess s i)) (reading (sess s i)) s = s"
  by (simp add: set_input_def upd_sess_def)

text \<open>What the loop leaves when a message ends it with an exception, and when it comes to its end.\<close>

definition read_result :: "nat \<Rightarrow> u8 list \<Rightarrow> (exn + unit) \<times> 'db server \<Rightarrow> (exn + unit) \<times> 'db server \<Rightarrow> bool" where
  "read_result i rest one_by_one looped \<longleftrightarrow>
     (case one_by_one of
        (Inr _, t) \<Rightarrow> looped = (Inr (), set_input i rest True t)
      | (Inl e, t) \<Rightarrow> \<exists>left. looped = (Inl e, set_input i left False t))"

lemma loop_run:
  "\<exists>left. forP fs (\<lambda>(m, left). thenP (modifyP (upd_sess i (set_accumulator left))) (session_onMessage E i m)) (set_input i b False s)
     = map_prod id (set_input i left False) (forP (map fst fs) (session_onMessage E i) s)"
proof (induction fs arbitrary: b s)
  case Nil
  then show ?case by (auto simp: returnP_run)
next
  case (Cons p fs)
  obtain m c where p: "p = (m, c)" by (cases p)
  obtain r t where m: "session_onMessage E i m s = (r, t)" by (cases "session_onMessage E i m s")
  note m' = commutesD [OF input.messages m, of i c False]
  show ?case
  proof (cases r)
    case (Inl e)
    then show ?thesis using m m' by (auto simp: p thenP_run modifyP_run)
  next
    case (Inr u)
    then show ?thesis using m m' Cons.IH [of c t] by (simp add: p thenP_run modifyP_run)
  qed
qed

lemma read_run:
  assumes "drain_frames (b @ bytes) = (ms, rest)"
  shows "read_result i (cap_buffer rest) (forP ms (session_onMessage E i) s) (on_read E i bytes (set_input i b True s))"
proof -
  obtain fs where fs: "decode_frames (b @ bytes) [] = (fs, rest)" "ms = map fst fs"
    using assms by (auto simp: drain_frames_def split: prod.splits)
  obtain left where l: "forP fs (\<lambda>(m, left). thenP (modifyP (upd_sess i (set_accumulator left))) (session_onMessage E i m))
      (set_input i (b @ bytes) False s) = map_prod id (set_input i left False) (forP ms (session_onMessage E i) s)"
    using loop_run [of fs i E "b @ bytes" s] fs(2) by blast
  show ?thesis
    by (cases "forP ms (session_onMessage E i) s")
       (auto simp: read_result_def on_read_def thenP_run bindP_run getP_run modifyP_run fs(1) l split: sum.split)
qed

lemma forP_append: "forP (xs @ ys) k = thenP (forP xs k) (forP ys k)"
  by (induction xs) (simp_all add: thenP_def bindP_assoc)

text \<open>Any sequence of reads, from any state of the buffer.\<close>

lemma reads_run:
  assumes "feed_chunks drain_frames cap_buffer b chunks = (ms, rest)"
  shows "read_result i rest (forP ms (session_onMessage E i) s)
    (forP chunks (\<lambda>c. handle E (Received i c)) (set_input i b True s))"
  using assms
proof (induction chunks arbitrary: b ms s)
  case Nil
  then show ?case by (simp add: read_result_def returnP_run)
next
  case (Cons c chunks)
  obtain ms1 r1 where d: "drain_frames (b @ c) = (ms1, r1)" by (cases "drain_frames (b @ c)")
  then obtain ms2 where f: "feed_chunks drain_frames cap_buffer (cap_buffer r1) chunks = (ms2, rest)" "ms = ms1 @ ms2"
    using Cons.prems by (auto split: prod.splits)
  obtain r t where m: "forP ms1 (session_onMessage E i) s = (r, t)" by (cases "forP ms1 (session_onMessage E i) s")
  note now = read_run [OF d, of i E s, unfolded m]
  show ?case
  proof (cases r)
    case (Inl e)
    then show ?thesis using now m by (auto simp: read_result_def handle_def f(2) forP_append thenP_run)
  next
    case (Inr u)
    then show ?thesis using now m Cons.IH [OF f(1), of t]
      by (simp add: read_result_def handle_def f(2) forP_append thenP_run)
  qed
qed

text \<open>Reads that are together the frames of some messages.\<close>

lemma framed_reads:
  assumes "\<forall>m \<in> set ms. 0 < length m \<and> length m \<le> 262140" "concat chunks = frames ms"
    and "read_accumulator (sess s i) = []" "reading (sess s i)"
  shows "\<exists>left. forP chunks (\<lambda>c. handle E (Received i c)) s =
    (case forP ms (session_onMessage E i) s of
       (Inr _, t) \<Rightarrow> (Inr (), t)
     | (Inl e, t) \<Rightarrow> (Inl e, set_input i left False t))"
proof -
  have f: "feed_chunks drain_frames cap_buffer [] chunks = (ms, [])"
    using assms(1,2) by (intro server_framing.feed_stream) (auto simp: frame_ok_def frames_def)
  have s: "set_input i [] True s = s" using set_input_same [of i s] assms(3,4) by simp
  obtain r t where m: "forP ms (session_onMessage E i) s = (r, t)" by (cases "forP ms (session_onMessage E i) s")
  have c: "commutes (set_input i [] True) (forP ms (session_onMessage E i))"
    by (intro commutes_for input.messages)
  have "set_input i [] True t = t" using commutesD [OF c m] s m by simp
  then show ?thesis
    using reads_run [OF f, of i E s] m s by (cases r) (auto simp: read_result_def)
qed

section \<open>The property\<close>

text \<open>C7: TCP may cut what a client sends anywhere: the server does the same. If the reads of a session are together the
  frames of some messages of 1 to 262140 bytes, their handlers leave the server in the same state as handling the
  messages one by one, also when this closes the session, and end with the same exception if there is one, which then finds the
  same state but for what is left in the session's buffer.\<close>

theorem reads_are_messages:
  assumes "\<forall>m \<in> set ms. 0 < length m \<and> length m \<le> 262140" "concat chunks = frames ms"
    and "read_accumulator (sess s i) = []" "reading (sess s i)"
  shows "\<exists>left. forP chunks (\<lambda>c. handle E (Received i c)) s =
    (case forP ms (session_onMessage E i) s of
       (Inr _, t) \<Rightarrow> (Inr (), t)
     | (Inl e, t) \<Rightarrow> (Inl e, upd_sess i (\<lambda>x. x\<lparr>read_accumulator := left, reading := False\<rparr>) t))"
  using framed_reads [OF assms, of E] unfolding set_input_def .

text \<open>A message in three reads.\<close>

theorem reads_are_messages_witness:
  "\<exists>left. forP [[0, 0], [0, 2, 123], [125]] (\<lambda>c. handle ref_env (Received 7 c))
      (upd_sess 7 (start 0) (ref_server Map.empty)) =
    (case session_onMessage ref_env 7 ''{}'' (upd_sess 7 (start 0) (ref_server Map.empty)) of
       (Inr _, t) \<Rightarrow> (Inr (), t)
     | (Inl e, t) \<Rightarrow> (Inl e, upd_sess 7 (\<lambda>x. x\<lparr>read_accumulator := left, reading := False\<rparr>) t))"
proof -
  let ?s = "upd_sess 7 (start 0) (ref_server Map.empty)"
  have f: "concat [[0, 0], [0, 2, 123], [125 :: u8]] = frames [''{}'']"
    by (simp add: frames_def frame_def length_bytes_def bytes_of_string_def byte_of_char_def)
  have s: "read_accumulator (sess ?s 7) = []" "reading (sess ?s 7)"
    by (simp_all add: upd_sess_def start_def ref_server_def new_session_def)
  have one: "forP [m] k = k m" for k :: "string \<Rightarrow> (ref_db server, unit) prog" and m
    by (rule ext) (simp add: thenP_run returnP_run split: prod.split sum.split)
  show ?thesis using reads_are_messages [OF _ f s, of ref_env] one by simp
qed

end
