(* ===== verification/EndToEnd.thy ===== *)
theory EndToEnd
  imports ReadLoop
begin

text \<open>
  The new server from the bytes of one client to the bytes of another: reads, frames, the JSON of the request, the
  rate limit, the handler, the store, the JSON of the message and its frame, in one statement.
\<close>

section \<open>What a client reads\<close>

lemma message_text:
  assumes "wf_message m" "0 < from_id m" "0 < to_id m"
  shows "\<exists>q. parseObject (serialize_object (messageToJson t m)) = Some q \<and> typeField q = t \<and>
    intField q ''fromId'' 0 = from_id m \<and> intField q ''toId'' 0 = to_id m \<and> stringField q ''msg'' [] = content m"
proof -
  have i: "in_int64 (from_id m)" "in_int64 (to_id m)" "in_int64 (group_id m)" "in_int64 (msg_id m)" "in_int64 (timestamp m)"
    "in_int64 (edited_at m)" "in_int64 (deleted_at m)"
    using assms(1) by (simp_all add: wf_message_def in_int32_def in_int64_def)
  have "parseObject (serialize_object (messageToJson t m)) = Some (messageToJson t m)"
    unfolding messageToJson_def by (rule parse_reply) (auto simp: i)
  moreover have "obj_find (messageToJson t m) ''type'' = Some (JInt (toInt t))"
    "obj_find (messageToJson t m) ''fromId'' = Some (JInt (from_id m))"
    "obj_find (messageToJson t m) ''toId'' = Some (JInt (to_id m))"
    "obj_find (messageToJson t m) ''msg'' = Some (JString (content m))"
    using assms(3) by (simp_all add: messageToJson_def del: obj_set.simps)
  moreover have "in_int32 (from_id m)" "in_int32 (to_id m)" "in_int32 (toInt t)"
    using assms(1) toInt_range [of t] by (simp_all add: wf_message_def in_int32_def)
  ultimately show ?thesis
    by (simp add: typeField_def field_TYPE_def intField_def stringField_def is_number_def is_string_def
        as_int_def as_string_def)
qed

section \<open>A message that passes the rate limit\<close>

lemma token_run:
  assumes "fst (consumeRateLimitToken (steady E (steadies s)) (sess s i))"
  shows "\<exists>s1. take_token E i s = (Inr True, s1) \<and> store s1 = store s \<and> (\<forall>u. findByUserId u s1 = findByUserId u s) \<and>
    (\<forall>j. user_id (sess s1 j) = user_id (sess s j) \<and> outgoing (sess s1 j) = outgoing (sess s j) \<and>
      write_ok (sess s1 j) = write_ok (sess s j))"
  using assms
  by (auto simp: take_token_def prog_simps steadyNow_def upd_sess_def consumeRateLimitToken_def Let_def findByUserId_def
      findSession_def outgoing_def write_ok_def split: option.split)

lemma request_run:
  assumes "take_token E i s = (Inr True, s1)" "parseObject json = Some q" "typeField q = t" "t \<noteq> Heartbeat"
  shows "session_onMessage E i json s = dispatch E i t q s1"
  using assms by (simp add: session_onMessage_def onMessage_def route_def bindP_run)

section \<open>The property\<close>

text \<open>C6: A private message goes through the new server, from the bytes one client sends to the bytes another gets. Let a
  logged-in user's client send the frame of a request in JSON, cut into any reads, while the rate limit lets it through.
  The server stores one message with the sender's own number and sends the recipient's session, if there is one, and the
  sender's one frame each, and nothing to others; the text in these frames parses to a message with the sender, the
  recipient and the text of the request. Only if it does not fit a frame it is not sent, and the server ends.\<close>

theorem message_through_server:
  assumes r: "rows_of E ''messages'' (store s) = Inr rows" "in_int64 (next_msg_id rows)"
    and w: "\<forall>j. write_ok (sess s j)"
    and i: "read_accumulator (sess s i) = []" "reading (sess s i)"
    and l: "fst (consumeRateLimitToken (steady E (steadies s)) (sess s i))"
    and a: "user_id (sess s i) = a" "0 < a" "in_int32 a"
    and q: "wf_object q" "float_free_object q" "typeField q = SendMsg" "length (serialize_object q) \<le> 262140"
    and b: "intField q ''toId'' 0 = b" "0 < b" and t: "stringField q ''msg'' [] = txt" "txt \<noteq> []"
    and c: "concat chunks = frame (serialize_object q)"
  shows "\<exists>m payload msg res s'. forP chunks (\<lambda>c. handle E (Received i c)) s = (res, s') \<and>
    from_id m = a \<and> to_id m = b \<and> content m = txt \<and> rows_of E ''messages'' (store s') = Inr (rows @ [toRow m]) \<and>
    parseObject payload = Some msg \<and> typeField msg = ReceiveMsg \<and> intField msg ''fromId'' 0 = a \<and>
    intField msg ''toId'' 0 = b \<and> stringField msg ''msg'' [] = txt \<and>
    (if length payload \<le> 262144
     then res = Inr () \<and> (\<forall>j. outgoing (sess s' j) = outgoing (sess s j) @
       frames ((if findByUserId b s = Some j then [payload] else []) @ (if j = i then [payload] else [])))
     else res = Inl (RuntimeError ''frame too large''))"
proof -
  let ?json = "serialize_object q"
  have p: "parseObject ?json = Some q"
    using q(1,2) by (intro parseObject_serialize) (simp_all add: wf_object_def float_free_object_def)
  have "?json \<noteq> []" by (simp add: serialize_object_def)
  obtain s1 where s1: "take_token E i s = (Inr True, s1)" "store s1 = store s" "\<forall>u. findByUserId u s1 = findByUserId u s"
    "\<forall>j. user_id (sess s1 j) = user_id (sess s j) \<and> outgoing (sess s1 j) = outgoing (sess s j) \<and>
      write_ok (sess s1 j) = write_ok (sess s j)"
    using token_run [OF l] by blast
  have r1: "rows_of E ''messages'' (store s1) = Inr rows" "\<forall>j. write_ok (sess s1 j)" "user_id (sess s1 i) = a"
    using r(1) w a(1) s1 by simp_all
  obtain m res s' where m: "dispatch E i SendMsg q s1 = (res, s')" "from_id m = a" "to_id m = b" "content m = txt"
    "wf_message m" "rows_of E ''messages'' (store s') = Inr (rows @ [toRow m])"
    "let payload = serialize_object (messageToJson ReceiveMsg m) in
     if length payload \<le> 262144
     then res = Inr () \<and> (\<forall>j. outgoing (sess s' j) = outgoing (sess s1 j) @
       frames ((if findByUserId b s1 = Some j then [payload] else []) @ (if j = i then [payload] else [])))
     else res = Inl (RuntimeError ''frame too large'')"
    using private_message_run [OF r1(1) r(2) r1(2,3) a(2) b t] a(3) by blast
  let ?k = "session_onMessage E i"
  have one: "forP [?json] ?k s = (res, s')"
    using request_run [OF s1(1) p q(3)] m(1) by (cases res) (simp_all add: thenP_run returnP_run)
  have f: "\<forall>x \<in> set [?json]. 0 < length x \<and> length x \<le> 262140" "concat chunks = frames [?json]"
    using q(4) c \<open>?json \<noteq> []\<close> by (simp_all add: frames_def)
  obtain left where run: "forP chunks (\<lambda>c. handle E (Received i c)) s = (res, if res = Inr () then s' else set_input i left False s')"
    using framed_reads [OF f i, of E] one by (cases res) auto
  define payload where "payload = serialize_object (messageToJson ReceiveMsg m)"
  obtain msg where msg: "parseObject payload = Some msg" "typeField msg = ReceiveMsg" "intField msg ''fromId'' 0 = a"
    "intField msg ''toId'' 0 = b" "stringField msg ''msg'' [] = txt"
    using message_text [OF m(5), of ReceiveMsg] m(2-4) a(2) b(2) payload_def by auto
  have st: "store (if res = Inr () then s' else set_input i left False s') = store s'"
    by (simp add: input.store_kept)
  have "if length payload \<le> 262144
     then res = Inr () \<and> (\<forall>j. outgoing (sess s' j) = outgoing (sess s j) @
       frames ((if findByUserId b s = Some j then [payload] else []) @ (if j = i then [payload] else [])))
     else res = Inl (RuntimeError ''frame too large'')"
    using m(7) s1(3,4) unfolding payload_def Let_def by simp
  then show ?thesis
    using run m(2-4,6) msg st by (intro exI [of _ m] exI [of _ payload] exI [of _ msg]) (auto split: if_splits)
qed

text \<open>Users 1001 and 1002 are connected, and 1001 writes to 1002; the frame comes in two reads.\<close>

definition ref_pair :: "ref_db server" where
  "ref_pair = (ref_server [''messages'' \<mapsto> []])
     \<lparr>user_to_session := [1001 \<mapsto> 3, 1002 \<mapsto> 2], pool := [3, 2],
      sess := (\<lambda>_. new_session 0)(3 := setUserId 1001 (start 0 (new_session 0)), 2 := setUserId 1002 (new_session 0))\<rparr>"

definition ref_request :: object where
  "ref_request = [(''msg'', JString ''hi''), (''toId'', JInt 1002), (''type'', JInt (toInt SendMsg))]"

lemma ref_request_ok:
  "wf_object ref_request" "float_free_object ref_request" "typeField ref_request = SendMsg"
  "length (serialize_object ref_request) \<le> 200" "intField ref_request ''toId'' 0 = 1002"
  "stringField ref_request ''msg'' [] = ''hi''"
  by code_simp+

theorem message_through_server_witness:
  "\<exists>m payload msg res s'. forP [take 5 (frame (serialize_object ref_request)), drop 5 (frame (serialize_object ref_request))]
      (\<lambda>c. handle ref_env (Received 3 c)) ref_pair = (res, s') \<and>
    from_id m = 1001 \<and> rows_of ref_env ''messages'' (store s') = Inr [toRow m] \<and> parseObject payload = Some msg \<and>
    stringField msg ''msg'' [] = ''hi'' \<and> (length payload \<le> 262144 \<longrightarrow> outgoing (sess s' 2) = frame payload)"
proof -
  let ?f = "frame (serialize_object ref_request)"
  have s: "rows_of ref_env ''messages'' (store ref_pair) = Inr []" "in_int64 (next_msg_id [])"
    "\<forall>j. write_ok (sess ref_pair j)" "read_accumulator (sess ref_pair 3) = []" "reading (sess ref_pair 3)"
    "user_id (sess ref_pair 3) = 1001" "findByUserId 1002 ref_pair = Some 2" "outgoing (sess ref_pair 2) = []"
    "fst (consumeRateLimitToken (steady ref_env (steadies ref_pair)) (sess ref_pair 3))"
    by (auto simp: ref_pair_def ref_server_def next_msg_id_def in_int64_def new_session_def setUserId_def start_def
        write_ok_def findByUserId_def findSession_def outgoing_def consumeRateLimitToken_def Let_def)
  have c: "concat [take 5 ?f, drop 5 ?f] = ?f" by simp
  have n: "(0 :: int) < 1001" "in_int32 1001" "(0 :: int) < 1002" "''hi'' \<noteq> []" "length (serialize_object ref_request) \<le> 262140"
    using ref_request_ok(4) by (simp_all add: in_int32_def)
  show ?thesis
    using message_through_server [OF s(1-5,9,6) n(1,2) ref_request_ok(1-3) n(5) ref_request_ok(5) n(3) ref_request_ok(6) n(4) c] s(7,8)
    by (fastforce simp: frames_def)
qed

end
