(* ===== verification/UnitTests.thy ===== *)
theory UnitTests
  imports TcpServer
begin

text \<open>
  The repository's own tests of the server's parts (\<^verbatim>\<open>src/tests/cpp\<close>), run on the model by evaluation. Each lemma
  has the name of a test function and states its assertions, in their order; a test that uses a database is a
  program on the environment \<open>ref_env\<close>, whose results are the values that the test asserts, each compared as in the test. What the
  compiled program is expected to do in these cases, the model does.
\<close>

section \<open>\<^verbatim>\<open>frame_codec_tests.cpp\<close>\<close>

text \<open>Texts in JSON are written with a tilde for each quotation mark.\<close>

definition quoted :: "string \<Rightarrow> string" where
  "quoted = map (\<lambda>c. if c = CHR ''~'' then CHR 0x22 else c)"

definition heartbeat_text :: string where
  "heartbeat_text = quoted ''{~type~:20}''"

definition user_text :: string where
  "user_text = quoted ''{~type~:23,~id~:1}''"

lemma test_texts: "length heartbeat_text = 11" "length user_text = 18"
  by (simp_all add: heartbeat_text_def user_text_def quoted_def)

lemma assertRoundTrip:
  "encode heartbeat_text = Inr (frame heartbeat_text)" "length (frame heartbeat_text) = length heartbeat_text + 4"
  "take 4 (frame heartbeat_text) = [0, 0, 0, 11]" "tryDecode (frame heartbeat_text) [] = (True, [], heartbeat_text)"
  using tryDecode_frame [of heartbeat_text "[]"]
  by (simp_all add: encode_frame test_texts) (simp add: frame_def length_bytes_def test_texts)

lemma assertPartialFrameWaits:
  "tryDecode (butlast (frame heartbeat_text)) [] = (False, butlast (frame heartbeat_text), [])"
  "butlast (frame heartbeat_text) \<noteq> []"
  by code_simp+

lemma assertStickyFramesDecodeInOrder:
  "tryDecode (frame heartbeat_text @ frame user_text) [] = (True, frame user_text, heartbeat_text)"
  "tryDecode (frame user_text) heartbeat_text = (True, [], user_text)"
  using tryDecode_frame [of heartbeat_text "frame user_text"] tryDecode_frame [of user_text "[]"]
  by (simp_all add: test_texts)

lemma assertInvalidLengthReturnsError: "tryDecode [0, 0, 0, 0] [] = (False, [], [])"
  by code_simp

lemma assertFrameSizeLimitIs256KiB:
  "\<exists>f. encode (replicate (256 * 1024) CHR ''x'') = Inr f \<and> length f = 256 * 1024 + 4"
  "\<exists>e. encode (replicate (256 * 1024 + 1) CHR ''x'') = Inl e"
  by (simp_all add: encode_frame)

section \<open>\<^verbatim>\<open>protocol_json_tests.cpp\<close>\<close>

text \<open>What a test on one parsed object asserts.\<close>

definition parsed :: "string \<Rightarrow> (object \<Rightarrow> bool) \<Rightarrow> bool" where
  "parsed json asserts = (case parseObject (quoted json) of None \<Rightarrow> False | Some ob \<Rightarrow> asserts ob)"

lemma assertParseValidObject:
  "parsed ''{~type~:2,~id~:100}'' (\<lambda>ob. intField ob ''type'' 0 = 2 \<and> intField ob ''id'' 0 = 100)"
  by code_simp

lemma assertParseInvalidJson: "parseObject ''{bad'' = None"
  by code_simp

lemma assertParseArrayReturnsInvalid: "parseObject ''[1,2,3]'' = None"
  by code_simp

lemma assertParseEmptyString: "parseObject [] = None"
  by code_simp

lemma assertHasKey: "parsed ''{~name~:~test~}'' (\<lambda>ob. has ob ''name'' \<and> \<not> has ob ''missing'')"
  by code_simp

lemma assertIntField:
  "parsed ''{~val~:42}'' (\<lambda>ob. intField ob ''val'' 0 = 42)"
  "parsed ''{}'' (\<lambda>ob. intField ob ''val'' 0 = 0 \<and> intField ob ''val'' (- 1) = - 1)"
  "parsed ''{~val~:~not_a_number~}'' (\<lambda>ob. intField ob ''val'' 99 = 99)"
  by code_simp+

lemma assertInt64Field:
  "parsed ''{~msg_id~:9876543210}'' (\<lambda>ob. int64Field ob ''msg_id'' 0 = 9876543210 \<and> int64Field ob ''missing'' (- 1) = - 1)"
  by code_simp

lemma assertStringField:
  "parsed ''{~name~:~hello~}'' (\<lambda>ob. stringField ob ''name'' [] = ''hello'')"
  "parsed ''{}'' (\<lambda>ob. stringField ob ''name'' [] = [] \<and> stringField ob ''name'' ''default'' = ''default'')"
  by code_simp+

lemma assertTypeField:
  "parsed ''{~type~:20}'' (\<lambda>ob. typeField ob = Heartbeat)" "parsed ''{}'' (\<lambda>ob. toInt (typeField ob) = - 1)"
  by code_simp+

lemma assertSerializeRoundTrip:
  "case parseObject (serialize_object (obj_sets [] [(''type'', JInt (toInt Heartbeat)), (''id'', JInt 42)])) of
     None \<Rightarrow> False | Some ob \<Rightarrow> intField ob ''type'' 0 = 20 \<and> intField ob ''id'' 0 = 42"
  by code_simp

lemma assertResponses:
  "case parseObject (ok_reply HeartbeatAck ''ok'') of None \<Rightarrow> False | Some ob \<Rightarrow>
     intField ob ''type'' 0 = toInt HeartbeatAck \<and> stringField ob ''status'' [] = ''ok'' \<and> stringField ob ''msg'' [] = ''ok''"
  "case parseObject (ok_reply SystemBroadcast ''all good'') of None \<Rightarrow> False | Some ob \<Rightarrow> stringField ob ''msg'' [] = ''all good''"
  "case parseObject (error_reply LoginFailedReturn 401 ''invalid credentials'') of None \<Rightarrow> False | Some ob \<Rightarrow>
     intField ob ''type'' 0 = toInt LoginFailedReturn \<and> stringField ob ''status'' [] = ''error'' \<and>
     intField ob ''code'' 0 = 401 \<and> stringField ob ''msg'' [] = ''invalid credentials''"
  by code_simp+

section \<open>\<^verbatim>\<open>presence_manager_tests.cpp\<close>\<close>

lemma assertSetOnline:
  "\<not> isOnline 42 Map.empty" "presence_status 42 Map.empty = ''offline''"
  "isOnline 1 (setOnline 1 ''online'' Map.empty)" "presence_status 1 (setOnline 1 ''online'' Map.empty) = ''online''"
  "presence_status 1 (setOnline 1 ''away'' Map.empty) = ''away''"
  "\<not> isOnline 0 (setOnline 0 ''online'' Map.empty)" "\<not> isOnline (- 1) (setOnline (- 1) ''online'' Map.empty)"
  by (simp_all add: setOnline_def isOnline_def presence_status_def)

lemma assertSetOffline:
  "\<not> isOnline 1 (setOffline 1 (setOnline 1 ''online'' Map.empty))" "\<not> isOnline 999 (setOffline 999 Map.empty)"
  "presence_status 1 (setOffline 1 (setOnline 1 ''online'' Map.empty)) = ''offline''" "presence_status 999 Map.empty = ''offline''"
  by (simp_all add: setOffline_def isOnline_def presence_status_def)

lemma assertOnlineUsers:
  "onlineUsers Map.empty = {}"
  "onlineUsers (setOnline 3 ''online'' (setOnline 2 ''online'' (setOnline 1 ''online'' Map.empty))) = {1, 2, 3}"
  "onlineUsers (setOffline 1 (setOnline 2 ''online'' (setOnline 1 ''online'' Map.empty))) = {2}"
  by (auto simp: onlineUsers_def setOnline_def setOffline_def)

section \<open>\<^verbatim>\<open>friend_repository_tests.cpp\<close>\<close>

text \<open>The program of a test, run in a process with an empty file.\<close>

definition passes :: "(ref_db database, bool list) prog \<Rightarrow> bool" where
  "passes test = (case fst (bindP (db_open ref_env) (\<lambda>opened. bindP test (\<lambda>asserts. returnP (opened \<and> list_all id asserts)))
     (new_database ''data'')) of Inl e \<Rightarrow> False | Inr b \<Rightarrow> b)"

definition two_users :: "(int \<Rightarrow> int \<Rightarrow> (ref_db database, bool list) prog) \<Rightarrow> (ref_db database, bool list) prog" where
  "two_users test =
     bindP (create ref_env ''secret'' ''alice'' 1) (\<lambda>alice.
     bindP (create ref_env ''secret'' ''bob'' 2) (\<lambda>bob.
     thenP (new_friend_repository ref_env) (test alice bob)))"

lemma assertFriendLifecycle:
  "passes (two_users (\<lambda>alice bob.
     bindP (sendRequest ref_env alice bob ''hi'') (\<lambda>sent.
     bindP (areFriends ref_env alice bob) (\<lambda>friends.
     bindP (pendingRequests ref_env bob) (\<lambda>pending.
     bindP (acceptRequest ref_env alice bob) (\<lambda>accepted.
     bindP (areFriends ref_env alice bob) (\<lambda>friends'.
     bindP (getFriends ref_env bob) (\<lambda>bobFriends.
     bindP (removeFriendship ref_env alice bob) (\<lambda>removed.
     bindP (areFriends ref_env alice bob) (\<lambda>friends''.
       returnP [sent, \<not> friends, map fr_from_uid pending = [alice], accepted, friends',
         map u_id bobFriends = [alice], removed, \<not> friends'']))))))))))"
  by code_simp

lemma assertRejectedRequestBlocksImmediateRetry:
  "passes (two_users (\<lambda>alice bob.
     bindP (sendRequest ref_env alice bob ''hi'') (\<lambda>sent.
     bindP (rejectRequest ref_env alice bob) (\<lambda>rejected.
     bindP (pendingRequests ref_env bob) (\<lambda>pending.
     bindP (areFriends ref_env alice bob) (\<lambda>friends.
     bindP (sendRequest ref_env alice bob ''retry too soon'') (\<lambda>sent'.
       returnP [sent, rejected, pending = [], \<not> friends, \<not> sent'])))))))"
  by code_simp

section \<open>\<^verbatim>\<open>message_repository_tests.cpp\<close>\<close>

text \<open>The reaction is the test's, a character of four bytes in UTF-8. Where the test looks for a part of the list of reactions,
  the whole list is given.\<close>

definition thumbs_up :: string where
  "thumbs_up = [CHR 0xF0, CHR 0x9F, CHR 0x91, CHR 0x8D]"

lemma assertEditDeleteReactionAndReadLifecycle:
  "passes (
     bindP (savePrivate ref_env 1 2 ''before'' ''text'' True) (\<lambda>saved.
     bindP (edit ref_env (msg_id saved) 1 ''after'') (\<lambda>edited_it.
     bindP (privateHistory ref_env 1 2 100) (\<lambda>h1.
     bindP (edit ref_env (msg_id saved) 2 ''not owner'') (\<lambda>edited_other.
     bindP (addReaction ref_env (msg_id saved) 2 thumbs_up) (\<lambda>reacted.
     bindP (privateHistory ref_env 1 2 100) (\<lambda>h2.
     bindP (markRead ref_env (msg_id saved) 2) (\<lambda>read_it.
     bindP (privateHistory ref_env 1 2 100) (\<lambda>h3.
     bindP (softDelete ref_env (msg_id saved) 1) (\<lambda>deleted_it.
     bindP (privateHistory ref_env 1 2 100) (\<lambda>h4.
       returnP [edited_it, map content h1 = [''after''], map edited h1 = [True], \<not> edited_other, reacted,
         map reactions h2 = [''2:'' @ thumbs_up], read_it, map msg_read h3 = [True],
         deleted_it, map deleted h4 = [True], map content h4 = [[]]])))))))))))"
  by code_simp

section \<open>\<^verbatim>\<open>database_tests.cpp\<close>\<close>

lemma assertMigrationCreatesFriendshipsAndIsIdempotent:
  "passes (
     bindP (migrate ref_env 1) (\<lambda>m1.
     bindP (schemaVersion ref_env) (\<lambda>v1.
     bindP (tableExists ref_env ''friendships'') (\<lambda>e.
     bindP (migrate ref_env 1) (\<lambda>m2.
     bindP (schemaVersion ref_env) (\<lambda>v2.
       returnP [m1, v1 = 1, e, m2, v2 = 1]))))))"
  by code_simp

lemma assertBcryptCreate:
  "passes (
     bindP (create ref_env ''secret'' ''alice'' 3) (\<lambda>i.
     bindP (db_query ref_env ''users'' (id_is i)) (\<lambda>created.
     bindP (verifyPassword ref_env i ''secret'') (\<lambda>right.
     bindP (verifyPassword ref_env i ''wrong'') (\<lambda>wrong.
       returnP [0 < i, map passwordVersion created = [1], map (\<lambda>r. take 2 (row_hash r)) created = [''$2''], right, \<not> wrong])))))"
  by code_simp

text \<open>The rest of this test, the upgrade of an account with an old hash of 10000 rounds, is shown in theory
  \<open>UserRepository\<close> for all passwords.\<close>

end
