(* ===== verification/LegacyCodec.thy ===== *)
theory LegacyCodec
  imports FrameCodec
begin

text \<open>
  The framing of the old client and server: \<^verbatim>\<open>legacy/legacy-common/LegacyProtocolCodec.h\<close>. The
  conversions between a \<open>QString\<close> and its UTF-8 bytes are Qt's and are parameters; what is relied on
  is that a text comes back from its bytes.

  Shown here: the old codec satisfies the contract of \<open>framing\<close>, so that messages survive every way
  of cutting the stream, and its frames are those of the new codec.
\<close>

definition kMaxFrameBytes :: u32 where
  "kMaxFrameBytes = 4 * 1024 * 1024"

definition encodeFrame :: "('q \<Rightarrow> u8 list) \<Rightarrow> 'q \<Rightarrow> u8 list" where
  "encodeFrame toUtf8 json =
     (let body = toUtf8 json; len = (word_of_nat (length body) :: u32)
      in length_bytes len @ body)"

text \<open>
  The texts taken off the buffer and what is left of it. A buffer that starts with a brace is taken
  as one text without a frame, and so is one whose length field makes no sense.
\<close>

function decodeFrames :: "(u8 list \<Rightarrow> 'q) \<Rightarrow> u8 list \<Rightarrow> 'q list \<times> u8 list" where
  "decodeFrames fromUtf8 buffer =
     (if buffer = [] then ([], buffer)
      else if buffer ! 0 = 0x7b then ([fromUtf8 buffer], [])
      else if length buffer < 4 then ([], buffer)
      else
        let len = length_word (buffer ! 0) (buffer ! 1) (buffer ! 2) (buffer ! 3)
        in if len = 0 \<or> len > kMaxFrameBytes then ([fromUtf8 buffer], [])
           else if length buffer < unat (4 + len) then ([], buffer)
           else
             (case decodeFrames fromUtf8 (drop (unat (4 + len)) buffer) of (fs, r) \<Rightarrow>
                (fromUtf8 (take (unat len) (drop 4 buffer)) # fs, r)))"
  by pat_completeness auto
termination
proof (relation "measure (\<lambda>(_, b). length b)")
  fix fromUtf8 :: "u8 list \<Rightarrow> 'q" and buffer :: "u8 list" and len :: u32
  assume a: "buffer \<noteq> []" "\<not> (len = 0 \<or> len > kMaxFrameBytes)"
  then have "unat len \<le> 4194304" by (simp add: kMaxFrameBytes_def word_le_nat_alt not_less)
  then have "0 < unat (4 + len)" by (simp add: unat_word_ariths)
  then show "((fromUtf8, drop (unat (4 + len)) buffer), fromUtf8, buffer) \<in> measure (\<lambda>(_, b). length b)"
    using a(1) by simp
qed simp

declare decodeFrames.simps [simp del]

section \<open>One frame\<close>

text \<open>The texts that fit a frame, as bytes.\<close>

definition body_ok :: "u8 list \<Rightarrow> bool" where
  "body_ok b \<longleftrightarrow> 0 < length b \<and> length b \<le> 4194304"

lemma body_len:
  assumes "body_ok b"
  shows "(word_of_nat (length b) :: u32) \<noteq> 0" "\<not> (word_of_nat (length b) :: u32) > kMaxFrameBytes"
    "unat (word_of_nat (length b) :: u32) = length b"
    "unat (4 + (word_of_nat (length b) :: u32)) = 4 + length b"
proof -
  show u: "unat (word_of_nat (length b) :: u32) = length b"
    using assms by (simp add: unat_of_nat body_ok_def)
  then show "(word_of_nat (length b) :: u32) \<noteq> 0" using assms by (force simp: body_ok_def)
  show "\<not> (word_of_nat (length b) :: u32) > kMaxFrameBytes"
    using u assms by (simp add: word_less_nat_alt kMaxFrameBytes_def body_ok_def)
  show "unat (4 + (word_of_nat (length b) :: u32)) = 4 + length b"
    using u assms by (simp add: unat_word_ariths body_ok_def)
qed

text \<open>A frame never looks like a text without one: the first byte of a length in range is zero.\<close>

lemma first_length_byte: "body_ok b \<Longrightarrow> length_bytes (word_of_nat (length b)) ! 0 = 0"
proof -
  assume "body_ok b"
  then have "unat (drop_bit 24 (word_of_nat (length b) :: u32)) = 0"
    using body_len(3) [of b] by (simp add: drop_bit_eq_div unat_div_distrib body_ok_def)
  then have "drop_bit 24 (word_of_nat (length b) :: u32) = 0" by (simp add: unat_eq_0)
  then show ?thesis by (simp add: length_bytes_def)
qed

lemma decode_frame:
  assumes "body_ok b"
  shows "decodeFrames f (encodeFrame id b @ r) = (case decodeFrames f r of (fs, r') \<Rightarrow> (f b # fs, r'))"
proof -
  let ?l = "word_of_nat (length b) :: u32"
  have "(encodeFrame id b @ r) ! 0 = 0" using first_length_byte [OF assms] by (simp add: encodeFrame_def Let_def nth_append)
  moreover have "length_word ((encodeFrame id b @ r) ! 0) ((encodeFrame id b @ r) ! 1) ((encodeFrame id b @ r) ! 2)
      ((encodeFrame id b @ r) ! 3) = ?l"
    using length_word_prefix [of ?l "b @ r"] by (simp add: encodeFrame_def Let_def)
  moreover have "drop (4 + length b) (encodeFrame id b @ r) = r" "take (length b) (drop 4 (encodeFrame id b @ r)) = b"
    "length (encodeFrame id b @ r) = 4 + length b + length r" "encodeFrame id b \<noteq> []"
    by (simp_all add: encodeFrame_def Let_def) (simp add: length_bytes_def)
  ultimately show ?thesis
    using body_len [OF assms] by (subst decodeFrames.simps) (simp add: Let_def)
qed

lemma decode_partial:
  assumes "body_ok b" "encodeFrame id b = p @ q" "q \<noteq> []"
  shows "decodeFrames f p = ([], p)"
proof (cases "p = []")
  case True
  then show ?thesis by (simp add: decodeFrames.simps)
next
  case False
  let ?l = "word_of_nat (length b) :: u32"
  have len: "length p < 4 + length b"
    using arg_cong [OF assms(2), of length] assms(3) by (simp add: encodeFrame_def Let_def)
  have at: "p ! i = length_bytes ?l ! i" if "i < 4" "i < length p" for i
    using that arg_cong [OF assms(2), of "\<lambda>x. x ! i"] by (simp add: encodeFrame_def Let_def nth_append)
  have 0: "p ! 0 = 0" using False at [of 0] first_length_byte [OF assms(1)] by simp
  show ?thesis
  proof (cases "length p < 4")
    case True
    then show ?thesis using False 0 by (simp add: decodeFrames.simps [of f p])
  next
    case 4: False
    then have "length_word (p ! 0) (p ! 1) (p ! 2) (p ! 3) = ?l"
      using length_word_bytes [of ?l] False by (simp add: at)
    then show ?thesis
      using False 0 4 len body_len [OF assms(1)] by (simp add: decodeFrames.simps [of f p] Let_def)
  qed
qed

interpretation legacy_framing: framing "encodeFrame id" body_ok "decodeFrames id" "\<lambda>b. b"
proof
  fix m r p q :: "u8 list"
  show "decodeFrames id [] = ([], [] :: u8 list)" by (simp add: decodeFrames.simps)
  assume "body_ok m"
  then show "decodeFrames id (encodeFrame id m @ r) = (case decodeFrames id r of (ms, r') \<Rightarrow> (m # ms, r'))"
    by (simp add: decode_frame)
  show "encodeFrame id m \<noteq> []" by (simp add: encodeFrame_def Let_def length_bytes_def)
  assume "encodeFrame id m = p @ q" "q \<noteq> []"
  with \<open>body_ok m\<close> show "decodeFrames id p = ([], p)" by (rule decode_partial)
qed simp_all

section \<open>Texts\<close>

lemma decodeFrames_map: "decodeFrames f b = (case decodeFrames id b of (fs, r) \<Rightarrow> (map f fs, r))"
proof (induction f b rule: decodeFrames.induct)
  case (1 f b)
  let ?len = "length_word (b ! 0) (b ! 1) (b ! 2) (b ! 3)"
  show ?case
  proof (cases "b \<noteq> [] \<and> b ! 0 \<noteq> 0x7b \<and> \<not> length b < 4 \<and> \<not> (?len = 0 \<or> ?len > kMaxFrameBytes) \<and>
      \<not> length b < unat (4 + ?len)")
    case True
    then have "decodeFrames f (drop (unat (4 + ?len)) b) =
        (case decodeFrames id (drop (unat (4 + ?len)) b) of (fs, r) \<Rightarrow> (map f fs, r))"
      using 1 by blast
    then show ?thesis
      unfolding decodeFrames.simps [of f b] decodeFrames.simps [of id b] using True
      by (simp add: Let_def split: prod.split)
  next
    case False
    then show ?thesis
      unfolding decodeFrames.simps [of f b] decodeFrames.simps [of id b] by (auto simp: Let_def)
  qed
qed

lemma feed_map:
  "feed_chunks (decodeFrames f) s b chunks = (case feed_chunks (decodeFrames id) s b chunks of (fs, r) \<Rightarrow> (map f fs, r))"
  by (induction chunks arbitrary: b) (auto simp: decodeFrames_map [of f] split: prod.split)

lemma encodeFrame_body: "encodeFrame toUtf8 m = encodeFrame id (toUtf8 m)"
  by (simp add: encodeFrame_def)

lemma encodeFrame_frame: "encodeFrame toUtf8 m = frame (string_of_bytes (toUtf8 m))"
proof -
  have "byte_of_char (char_of_byte x) = x" for x
    using unsigned_less [of x, where 'a = nat]
    by (simp add: byte_of_char_def char_of_byte_def)
  then have "bytes_of_string (string_of_bytes b) = b" for b
    by (simp add: bytes_of_string_def string_of_bytes_def comp_def)
  then show ?thesis by (simp add: encodeFrame_def frame_def string_of_bytes_def Let_def)
qed

text \<open>C24: The old framing delivers texts of 1 to 4194304 bytes whole, once each and in order, however
  the network cuts the stream; and its frames are also those of the new server, whose receive
  loop takes from them the same bytes, for texts of at most 262140 bytes.\<close>

theorem legacy_stream:
  assumes utf8: "\<forall>m \<in> set ms. fromUtf8 (toUtf8 m) = m"
    and s: "\<forall>m \<in> set ms. 0 < length (toUtf8 m) \<and> length (toUtf8 m) \<le> 4194304"
    and c: "concat chunks = concat (map (encodeFrame toUtf8) ms)"
  shows "feed_chunks (decodeFrames fromUtf8) (\<lambda>b. b) [] chunks = (ms, []) \<and>
    ((\<forall>m \<in> set ms. length (toUtf8 m) \<le> 262140) \<longrightarrow>
      feed_chunks drain_frames cap_buffer [] chunks = (map (\<lambda>m. string_of_bytes (toUtf8 m)) ms, []))"
proof (intro conjI impI)
  have "map (encodeFrame toUtf8) ms = map (encodeFrame id) (map toUtf8 ms)"
    using encodeFrame_body by (auto simp: comp_def)
  then have "feed_chunks (decodeFrames id) (\<lambda>b. b) [] chunks = (map toUtf8 ms, [])"
    using s c by (intro legacy_framing.feed_stream) (auto simp: body_ok_def simp del: map_map)
  then show "feed_chunks (decodeFrames fromUtf8) (\<lambda>b. b) [] chunks = (ms, [])"
    using utf8 by (simp add: feed_map [of fromUtf8] map_idI)
next
  assume small: "\<forall>m \<in> set ms. length (toUtf8 m) \<le> 262140"
  have "map (encodeFrame toUtf8) ms = map frame (map (\<lambda>m. string_of_bytes (toUtf8 m)) ms)"
    by (simp add: encodeFrame_frame)
  then show "feed_chunks drain_frames cap_buffer [] chunks = (map (\<lambda>m. string_of_bytes (toUtf8 m)) ms, [])"
    using s c small by (intro server_framing.feed_stream) (auto simp: frame_ok_def string_of_bytes_def simp del: map_map)
qed

theorem legacy_stream_witness:
  "feed_chunks (decodeFrames string_of_bytes) (\<lambda>b. b) [] [[0, 0, 0], [1, 97, 0, 0, 0, 1, 98]] = ([''a'', ''b''], [])"
proof -
  have "concat [[0, 0, 0], [1, 97, 0, 0, 0, 1, 98]] = concat (map (encodeFrame bytes_of_string) [''a'', ''b''])"
    by (simp add: encodeFrame_def Let_def length_bytes_def bytes_of_string_def byte_of_char_def)
  from legacy_stream [OF _ _ this, of string_of_bytes] show ?thesis by simp
qed

end
