(* ===== verification/LegacyMsgBuilder.thy ===== *)
theory LegacyMsgBuilder
  imports ProtocolJson
begin

text \<open>
  The messages of the old client and server: \<^verbatim>\<open>legacy/original-server/MsgBuilder.cpp\<close> and
  \<^verbatim>\<open>MsgBuilder.h\<close>. A \<open>QString\<close> is the list of its UTF-8 bytes. A \<open>QJsonObject\<close> keeps its
  keys in order and is an \<^typ>\<open>object\<close>. Qt's \<open>QJsonDocument\<close> is outside the sources: writing an object
  in the compact form and reading a text are the parameters \<open>to_json\<close> and \<open>from_json\<close>, with the
  contract \<open>qt_json\<close>.

  Shown here: every parsing function returns what the matching building function was given, and
  the type of every message built is the one the receiving side dispatches on.
\<close>

section \<open>Qt's values\<close>

text \<open>\<open>QJsonObject::value\<close>. A missing key gives an undefined value, which converts like null.\<close>

definition qvalue :: "object \<Rightarrow> string \<Rightarrow> json" where
  "qvalue ob k = (case obj_find ob k of None \<Rightarrow> JNull | Some v \<Rightarrow> v)"

definition double_int :: "double \<Rightarrow> int option" where
  "double_int d =
     (case d of Dbl neg m e \<Rightarrow>
        let sg = (if neg then - 1 else 1)
        in if 0 \<le> e then Some (sg * (m * 2 ^ nat e))
           else if m mod 2 ^ nat (- e) = 0 then Some (sg * (m div 2 ^ nat (- e))) else None)"

text \<open>\<open>QJsonValue::toInt(defaultValue)\<close>: the default unless the value is a number that is an \<open>int\<close>.\<close>

definition toInt_or :: "int \<Rightarrow> json \<Rightarrow> int" where
  "toInt_or d v =
     (case v of
        JInt i \<Rightarrow> if in_int32 i then i else d
      | JFloat x \<Rightarrow> (case double_int x of Some i \<Rightarrow> if in_int32 i then i else d | None \<Rightarrow> d)
      | _ \<Rightarrow> d)"

definition toString :: "json \<Rightarrow> string" where
  "toString v = (case v of JString s \<Rightarrow> s | _ \<Rightarrow> [])"

definition toArray :: "json \<Rightarrow> json list" where
  "toArray v = (case v of JArr xs \<Rightarrow> xs | _ \<Rightarrow> [])"

definition toObject :: "json \<Rightarrow> object" where
  "toObject v = (case v of JObj ob \<Rightarrow> ob | _ \<Rightarrow> [])"

section \<open>Types and users\<close>

datatype legacyType =
    registerUser
  | registerUserReturn
  | login
  | loginSucReturn
  | loginLoseReturn
  | sendMsg
  | receiveMsg
  | userOnline
  | userOffline
  | createGroup
  | createGroupReturn
  | searchGroup
  | searchGroupReturn
  | joinGroup
  | joinGroupReturn
  | leaveGroup
  | sendGroupMsg
  | receiveGroupMsg
  | userJoinGroup
  | userLeaveGroup
  | heartbeat
  | heartbeatAck
  | offlineMessages
  | logout
  | requestHistory
  | historyResponse
  | sendFile
  | receiveFile
  | fileTransferDone
  | aiRequest
  | aiResponse
  | aiStreamChunk
  | userProfileUpdate
  | systemBroadcast

primrec legacy_value :: "legacyType \<Rightarrow> int" where
  "legacy_value registerUser = 0"
| "legacy_value registerUserReturn = 1"
| "legacy_value login = 2"
| "legacy_value loginSucReturn = 3"
| "legacy_value loginLoseReturn = 4"
| "legacy_value sendMsg = 5"
| "legacy_value receiveMsg = 6"
| "legacy_value userOnline = 7"
| "legacy_value userOffline = 8"
| "legacy_value createGroup = 9"
| "legacy_value createGroupReturn = 10"
| "legacy_value searchGroup = 11"
| "legacy_value searchGroupReturn = 12"
| "legacy_value joinGroup = 13"
| "legacy_value joinGroupReturn = 14"
| "legacy_value leaveGroup = 15"
| "legacy_value sendGroupMsg = 16"
| "legacy_value receiveGroupMsg = 17"
| "legacy_value userJoinGroup = 18"
| "legacy_value userLeaveGroup = 19"
| "legacy_value heartbeat = 20"
| "legacy_value heartbeatAck = 21"
| "legacy_value offlineMessages = 22"
| "legacy_value logout = 23"
| "legacy_value requestHistory = 24"
| "legacy_value historyResponse = 25"
| "legacy_value sendFile = 26"
| "legacy_value receiveFile = 27"
| "legacy_value fileTransferDone = 28"
| "legacy_value aiRequest = 29"
| "legacy_value aiResponse = 30"
| "legacy_value aiStreamChunk = 31"
| "legacy_value userProfileUpdate = 32"
| "legacy_value systemBroadcast = 33"

definition type_field :: "legacyType \<Rightarrow> string \<times> json" where
  "type_field t = (''type'', JInt (legacy_value t))"

record UserData =
  l_id :: int
  l_password :: string
  l_headId :: int
  l_nickname :: string

definition new_UserData :: UserData where
  "new_UserData = \<lparr>l_id = 0, l_password = [], l_headId = 0, l_nickname = []\<rparr>"

definition UserData_less :: "UserData \<Rightarrow> UserData \<Rightarrow> bool" where
  "UserData_less a b \<longleftrightarrow> l_id a < l_id b"

section \<open>Building and parsing\<close>

definition qt_parseObject :: "(string \<Rightarrow> json option) \<Rightarrow> string \<Rightarrow> object" where
  "qt_parseObject from_json jsonStr =
     (case from_json jsonStr of Some (JObj ob) \<Rightarrow> ob | _ \<Rightarrow> [])"

definition dumpObject :: "(object \<Rightarrow> string) \<Rightarrow> object \<Rightarrow> string" where
  "dumpObject to_json object = to_json object"

definition userObject :: "UserData \<Rightarrow> object" where
  "userObject user =
     obj_sets [] [(''id'', JInt (l_id user)), (''headId'', JInt (l_headId user)),
       (''nickname'', JString (l_nickname user))]"

definition parseUser :: "object \<Rightarrow> UserData" where
  "parseUser object =
     new_UserData\<lparr>l_id := toInt_or 0 (qvalue object ''id''),
       l_headId := toInt_or 0 (qvalue object ''headId''),
       l_nickname := toString (qvalue object ''nickname'')\<rparr>"

definition msgType :: "(string \<Rightarrow> json option) \<Rightarrow> string \<Rightarrow> int" where
  "msgType from_json jsonStr = toInt_or (- 1) (qvalue (qt_parseObject from_json jsonStr) ''type'')"

definition buildErrorMsg :: "(object \<Rightarrow> string) \<Rightarrow> int \<Rightarrow> string \<Rightarrow> string" where
  "buildErrorMsg to_json code message =
     dumpObject to_json (obj_sets []
       [type_field systemBroadcast, (''status'', JString ''error''), (''code'', JInt code),
        (''msg'', JString message)])"

definition buildRegisterUserMsg :: "(object \<Rightarrow> string) \<Rightarrow> string \<Rightarrow> int \<Rightarrow> string \<Rightarrow> string" where
  "buildRegisterUserMsg to_json password headId nickname =
     dumpObject to_json (obj_sets []
       [type_field registerUser, (''password'', JString password), (''headId'', JInt headId),
        (''nickname'', JString nickname)])"

definition parseRegisterUserMsg :: "(string \<Rightarrow> json option) \<Rightarrow> string \<Rightarrow> UserData" where
  "parseRegisterUserMsg from_json jsonStr =
     (let object = qt_parseObject from_json jsonStr; data = parseUser object
      in data\<lparr>l_password := toString (qvalue object ''password'')\<rparr>)"

definition buildRegisterUserReturnMsg :: "(object \<Rightarrow> string) \<Rightarrow> int \<Rightarrow> string" where
  "buildRegisterUserReturnMsg to_json i =
     dumpObject to_json (obj_sets [] [type_field registerUserReturn, (''id'', JInt i)])"

definition parseRegisterUserReturnMsg :: "(string \<Rightarrow> json option) \<Rightarrow> string \<Rightarrow> int" where
  "parseRegisterUserReturnMsg from_json jsonStr =
     toInt_or (- 1) (qvalue (qt_parseObject from_json jsonStr) ''id'')"

definition buildLoginMsg :: "(object \<Rightarrow> string) \<Rightarrow> int \<Rightarrow> string \<Rightarrow> string" where
  "buildLoginMsg to_json i password =
     dumpObject to_json (obj_sets []
       [type_field login, (''id'', JInt i), (''password'', JString password)])"

definition parseLoginMsg :: "(string \<Rightarrow> json option) \<Rightarrow> string \<Rightarrow> UserData" where
  "parseLoginMsg from_json jsonStr =
     (let object = qt_parseObject from_json jsonStr
      in new_UserData\<lparr>l_id := toInt_or 0 (qvalue object ''id''),
           l_password := toString (qvalue object ''password'')\<rparr>)"

definition buildLoginSucReturnMsg :: "(object \<Rightarrow> string) \<Rightarrow> UserData \<Rightarrow> UserData list \<Rightarrow> string" where
  "buildLoginSucReturnMsg to_json hostData friends =
     dumpObject to_json (obj_sets []
       [type_field loginSucReturn, (''hostId'', JInt (l_id hostData)),
        (''hostHeadId'', JInt (l_headId hostData)), (''hostNickname'', JString (l_nickname hostData)),
        (''friends'', JArr (map (\<lambda>u. JObj (userObject u)) friends))])"

text \<open>The host passed by reference, updated, and the friends.\<close>

definition parseLoginSucReturnMsg ::
  "(string \<Rightarrow> json option) \<Rightarrow> UserData \<Rightarrow> string \<Rightarrow> UserData \<times> UserData list" where
  "parseLoginSucReturnMsg from_json hostData jsonStr =
     (let object = qt_parseObject from_json jsonStr
      in (hostData\<lparr>l_id := toInt_or 0 (qvalue object ''hostId''),
            l_headId := toInt_or 0 (qvalue object ''hostHeadId''),
            l_nickname := toString (qvalue object ''hostNickname'')\<rparr>,
          map (\<lambda>v. parseUser (toObject v)) (toArray (qvalue object ''friends''))))"

definition buildLoginLoseReturnMsg :: "(object \<Rightarrow> string) \<Rightarrow> string" where
  "buildLoginLoseReturnMsg to_json = dumpObject to_json (obj_sets [] [type_field loginLoseReturn])"

definition buildSendMsg :: "(object \<Rightarrow> string) \<Rightarrow> UserData \<Rightarrow> UserData \<Rightarrow> string \<Rightarrow> string" where
  "buildSendMsg to_json from to msg =
     dumpObject to_json (obj_sets []
       [type_field sendMsg, (''fromId'', JInt (l_id from)), (''toId'', JInt (l_id to)),
        (''msg'', JString msg)])"

text \<open>The text, and the two users passed by reference, of which only the identifiers are set.\<close>

definition parseSendMsg ::
  "(string \<Rightarrow> json option) \<Rightarrow> string \<Rightarrow> UserData \<Rightarrow> UserData \<Rightarrow> string \<times> UserData \<times> UserData" where
  "parseSendMsg from_json jsonStr from to =
     (let object = qt_parseObject from_json jsonStr
      in (toString (qvalue object ''msg''), from\<lparr>l_id := toInt_or 0 (qvalue object ''fromId'')\<rparr>,
          to\<lparr>l_id := toInt_or 0 (qvalue object ''toId'')\<rparr>))"

definition buildReceiveMsg :: "(object \<Rightarrow> string) \<Rightarrow> UserData \<Rightarrow> UserData \<Rightarrow> string \<Rightarrow> string" where
  "buildReceiveMsg to_json from to msg =
     dumpObject to_json (obj_sets []
       [type_field receiveMsg, (''fromId'', JInt (l_id from)), (''toId'', JInt (l_id to)),
        (''msg'', JString msg)])"

definition parseReceiveMsg ::
  "(string \<Rightarrow> json option) \<Rightarrow> string \<Rightarrow> UserData \<Rightarrow> UserData \<Rightarrow> string \<times> UserData \<times> UserData" where
  "parseReceiveMsg from_json jsonStr from to =
     (let object = qt_parseObject from_json jsonStr
      in (toString (qvalue object ''msg''), from\<lparr>l_id := toInt_or 0 (qvalue object ''fromId'')\<rparr>,
          to\<lparr>l_id := toInt_or 0 (qvalue object ''toId'')\<rparr>))"

definition buildUserOnline :: "(object \<Rightarrow> string) \<Rightarrow> UserData \<Rightarrow> string" where
  "buildUserOnline to_json user =
     dumpObject to_json (obj_sets (userObject user) [type_field userOnline])"

definition parseUserOnline :: "(string \<Rightarrow> json option) \<Rightarrow> string \<Rightarrow> UserData" where
  "parseUserOnline from_json jsonStr = parseUser (qt_parseObject from_json jsonStr)"

definition buildUserOffline :: "(object \<Rightarrow> string) \<Rightarrow> UserData \<Rightarrow> string" where
  "buildUserOffline to_json user =
     dumpObject to_json (obj_sets (userObject user) [type_field userOffline])"

definition parseUserOffline :: "(string \<Rightarrow> json option) \<Rightarrow> string \<Rightarrow> UserData" where
  "parseUserOffline from_json jsonStr = parseUser (qt_parseObject from_json jsonStr)"

definition buildCreateGroup :: "(object \<Rightarrow> string) \<Rightarrow> string \<Rightarrow> string" where
  "buildCreateGroup to_json name =
     dumpObject to_json (obj_sets [] [type_field createGroup, (''name'', JString name)])"

definition parseCreateGroup :: "(string \<Rightarrow> json option) \<Rightarrow> string \<Rightarrow> string" where
  "parseCreateGroup from_json jsonStr = toString (qvalue (qt_parseObject from_json jsonStr) ''name'')"

definition buildCreateGroupReturn :: "(object \<Rightarrow> string) \<Rightarrow> int \<Rightarrow> string" where
  "buildCreateGroupReturn to_json groupId =
     dumpObject to_json (obj_sets [] [type_field createGroupReturn, (''groupId'', JInt groupId)])"

definition parseCreateGroupReturn :: "(string \<Rightarrow> json option) \<Rightarrow> string \<Rightarrow> int" where
  "parseCreateGroupReturn from_json jsonStr =
     toInt_or (- 1) (qvalue (qt_parseObject from_json jsonStr) ''groupId'')"

definition buildSearchGroup :: "(object \<Rightarrow> string) \<Rightarrow> string" where
  "buildSearchGroup to_json = dumpObject to_json (obj_sets [] [type_field searchGroup])"

definition buildSearchGroupReturn :: "(object \<Rightarrow> string) \<Rightarrow> int list \<Rightarrow> string list \<Rightarrow> string" where
  "buildSearchGroupReturn to_json ids names =
     dumpObject to_json (obj_sets []
       [type_field searchGroupReturn,
        (''groups'', JArr (map (\<lambda>(i, name). JObj (obj_sets [] [(''id'', JInt i), (''name'', JString name)]))
            (zip ids names)))])"

text \<open>The groups found are appended to the two vectors passed by reference.\<close>

definition parseSearchGroupReturn ::
  "(string \<Rightarrow> json option) \<Rightarrow> string \<Rightarrow> int list \<Rightarrow> string list \<Rightarrow> int list \<times> string list" where
  "parseSearchGroupReturn from_json jsonStr ids names =
     (let groupsArray = toArray (qvalue (qt_parseObject from_json jsonStr) ''groups'')
      in (ids @ map (\<lambda>v. toInt_or 0 (qvalue (toObject v) ''id'')) groupsArray,
          names @ map (\<lambda>v. toString (qvalue (toObject v) ''name'')) groupsArray))"

definition buildJoinGroup :: "(object \<Rightarrow> string) \<Rightarrow> UserData \<Rightarrow> int \<Rightarrow> string" where
  "buildJoinGroup to_json user groupId =
     dumpObject to_json (obj_sets (userObject user) [type_field joinGroup, (''groupId'', JInt groupId)])"

definition parseJoinGroup :: "(string \<Rightarrow> json option) \<Rightarrow> string \<Rightarrow> UserData \<times> int" where
  "parseJoinGroup from_json jsonStr =
     (let object = qt_parseObject from_json jsonStr
      in (parseUser object, toInt_or 0 (qvalue object ''groupId'')))"

definition buildJoinGroupReturn :: "(object \<Rightarrow> string) \<Rightarrow> int \<Rightarrow> UserData list \<Rightarrow> string" where
  "buildJoinGroupReturn to_json groupId users =
     dumpObject to_json (obj_sets []
       [type_field joinGroupReturn, (''groupId'', JInt groupId),
        (''users'', JArr (map (\<lambda>u. JObj (userObject u)) users))])"

definition parseJoinGroupReturn ::
  "(string \<Rightarrow> json option) \<Rightarrow> string \<Rightarrow> UserData list \<Rightarrow> int \<times> UserData list" where
  "parseJoinGroupReturn from_json jsonStr users =
     (let object = qt_parseObject from_json jsonStr
      in (toInt_or 0 (qvalue object ''groupId''),
          users @ map (\<lambda>v. parseUser (toObject v)) (toArray (qvalue object ''users''))))"

definition buildLeaveGroup :: "(object \<Rightarrow> string) \<Rightarrow> UserData \<Rightarrow> int \<Rightarrow> string" where
  "buildLeaveGroup to_json user groupId =
     dumpObject to_json (obj_sets (userObject user) [type_field leaveGroup, (''groupId'', JInt groupId)])"

definition parseLeaveGroup :: "(string \<Rightarrow> json option) \<Rightarrow> string \<Rightarrow> int \<times> UserData" where
  "parseLeaveGroup from_json jsonStr =
     (let object = qt_parseObject from_json jsonStr
      in (toInt_or 0 (qvalue object ''groupId''), parseUser object))"

definition buildSendGroupMsg :: "(object \<Rightarrow> string) \<Rightarrow> UserData \<Rightarrow> int \<Rightarrow> string \<Rightarrow> string" where
  "buildSendGroupMsg to_json from to msg =
     dumpObject to_json (obj_sets (userObject from)
       [type_field sendGroupMsg, (''groupId'', JInt to), (''msg'', JString msg)])"

definition parseSendGroupMsg :: "(string \<Rightarrow> json option) \<Rightarrow> string \<Rightarrow> string \<times> UserData \<times> int" where
  "parseSendGroupMsg from_json jsonStr =
     (let object = qt_parseObject from_json jsonStr
      in (toString (qvalue object ''msg''), parseUser object, toInt_or 0 (qvalue object ''groupId'')))"

definition buildReceiveGroupMsg :: "(object \<Rightarrow> string) \<Rightarrow> int \<Rightarrow> UserData \<Rightarrow> string \<Rightarrow> string" where
  "buildReceiveGroupMsg to_json from to msg =
     dumpObject to_json (obj_sets (userObject to)
       [type_field receiveGroupMsg, (''groupId'', JInt from), (''msg'', JString msg)])"

definition parseReceiveGroupMsg :: "(string \<Rightarrow> json option) \<Rightarrow> string \<Rightarrow> string \<times> int \<times> UserData" where
  "parseReceiveGroupMsg from_json jsonStr =
     (let object = qt_parseObject from_json jsonStr
      in (toString (qvalue object ''msg''), toInt_or 0 (qvalue object ''groupId''), parseUser object))"

definition buildUserJoinGroup :: "(object \<Rightarrow> string) \<Rightarrow> UserData \<Rightarrow> int \<Rightarrow> string" where
  "buildUserJoinGroup to_json user groupId =
     dumpObject to_json (obj_sets (userObject user) [type_field userJoinGroup, (''groupId'', JInt groupId)])"

definition parseUserJoinGroup :: "(string \<Rightarrow> json option) \<Rightarrow> string \<Rightarrow> UserData \<times> int" where
  "parseUserJoinGroup from_json jsonStr =
     (let object = qt_parseObject from_json jsonStr
      in (parseUser object, toInt_or 0 (qvalue object ''groupId'')))"

definition buildUserLeaveGroup :: "(object \<Rightarrow> string) \<Rightarrow> UserData \<Rightarrow> int \<Rightarrow> string" where
  "buildUserLeaveGroup to_json user groupId =
     dumpObject to_json (obj_sets (userObject user) [type_field userLeaveGroup, (''groupId'', JInt groupId)])"

definition parseUserLeaveGroup :: "(string \<Rightarrow> json option) \<Rightarrow> string \<Rightarrow> UserData \<times> int" where
  "parseUserLeaveGroup from_json jsonStr =
     (let object = qt_parseObject from_json jsonStr
      in (parseUser object, toInt_or 0 (qvalue object ''groupId'')))"

section \<open>What is relied on of Qt\<close>

text \<open>The texts a \<open>QString\<close> converts to are valid UTF-8.\<close>

definition is_cont :: "char \<Rightarrow> bool" where
  "is_cont c \<longleftrightarrow> 0x80 \<le> (of_char c :: nat) \<and> (of_char c :: nat) \<le> 0xBF"

fun is_utf8 :: "string \<Rightarrow> bool" where
  "is_utf8 [] = True"
| "is_utf8 (a # r) =
     (let n = (of_char a :: nat)
      in if n < 0x80 then is_utf8 r
         else if 0xC2 \<le> n \<and> n \<le> 0xDF then (case r of b # r' \<Rightarrow> is_cont b \<and> is_utf8 r' | _ \<Rightarrow> False)
         else if 0xE0 \<le> n \<and> n \<le> 0xEF then
           (case r of
              b # c # r' \<Rightarrow> is_cont b \<and> is_cont c \<and> (n = 0xE0 \<longrightarrow> 0xA0 \<le> (of_char b :: nat)) \<and>
                (n = 0xED \<longrightarrow> (of_char b :: nat) \<le> 0x9F) \<and> is_utf8 r'
            | _ \<Rightarrow> False)
         else if 0xF0 \<le> n \<and> n \<le> 0xF4 then
           (case r of
              b # c # d # r' \<Rightarrow> is_cont b \<and> is_cont c \<and> is_cont d \<and>
                (n = 0xF0 \<longrightarrow> 0x90 \<le> (of_char b :: nat)) \<and> (n = 0xF4 \<longrightarrow> (of_char b :: nat) \<le> 0x8F) \<and>
                is_utf8 r'
            | _ \<Rightarrow> False)
         else False)"

text \<open>The objects that come back: keys in order, integers of 32 bits, no fractions, texts in UTF-8.\<close>

primrec qjson_ok :: "json \<Rightarrow> bool" where
  "qjson_ok JNull = True"
| "qjson_ok (JBool b) = True"
| "qjson_ok (JInt i) = in_int32 i"
| "qjson_ok (JFloat d) = False"
| "qjson_ok (JString s) = is_utf8 s"
| "qjson_ok (JArr xs) = list_all id (map qjson_ok xs)"
| "qjson_ok (JObj kvs) =
     (sorted_wrt (<) (map fst kvs) \<and> list_all is_utf8 (map fst kvs) \<and>
      list_all snd (map (map_prod id qjson_ok) kvs))"

lemma qjson_ok_JArr [simp]: "qjson_ok (JArr xs) \<longleftrightarrow> (\<forall>x \<in> set xs. qjson_ok x)"
  by (auto simp: list_all_iff)

lemma qjson_ok_JObj [simp]:
  "qjson_ok (JObj kvs) \<longleftrightarrow> sorted_wrt (<) (map fst kvs) \<and> (\<forall>(k, v) \<in> set kvs. is_utf8 k \<and> qjson_ok v)"
  by (auto simp: list_all_iff)

declare qjson_ok.simps(6,7) [simp del]

section \<open>Objects built by assignments\<close>

lemma qjson_ok_set: "qjson_ok (JObj ob) \<Longrightarrow> is_utf8 k \<Longrightarrow> qjson_ok v \<Longrightarrow> qjson_ok (JObj (obj_set k v ob))"
  using sorted_obj_set [of ob k v] set_obj_set [of k v ob] by auto

lemma qjson_ok_sets:
  "qjson_ok (JObj ob) \<Longrightarrow> \<forall>(k, v) \<in> set kvs. is_utf8 k \<and> qjson_ok v \<Longrightarrow> qjson_ok (JObj (obj_sets ob kvs))"
  by (induction kvs arbitrary: ob) (auto simp: obj_sets_def qjson_ok_set simp del: qjson_ok_JObj)

lemma qvalue_sets:
  "qvalue (obj_sets ob kvs) k = (case map_of (rev kvs) k of Some v \<Rightarrow> v | None \<Rightarrow> qvalue ob k)"
  by (induction kvs arbitrary: ob) (auto simp: obj_sets_def qvalue_def map_of_append map_add_def split: option.split)

section \<open>The contract\<close>

text \<open>A text written by Qt from such an object is read back as that object.\<close>

locale qt_json =
  fixes to_json :: "object \<Rightarrow> string"
    and from_json :: "string \<Rightarrow> json option"
  assumes from_to: "qjson_ok (JObj ob) \<Longrightarrow> from_json (to_json ob) = Some (JObj ob)"
begin

lemma parseObject_dumpObject:
  "qjson_ok (JObj ob) \<Longrightarrow> qt_parseObject from_json (dumpObject to_json ob) = ob"
  by (simp add: qt_parseObject_def dumpObject_def from_to)

lemma parse_sets:
  assumes "qjson_ok (JObj ob)" "\<forall>(k, v) \<in> set kvs. is_utf8 k \<and> qjson_ok v"
  shows "qt_parseObject from_json (dumpObject to_json (obj_sets ob kvs)) = obj_sets ob kvs"
  using qjson_ok_sets [OF assms] by (rule parseObject_dumpObject)

end

definition mini_from_json :: "string \<Rightarrow> json option" where
  "mini_from_json s = (case parse s of Inl _ \<Rightarrow> None | Inr v \<Rightarrow> Some v)"

lemma qjson_ok_wf: "qjson_ok v \<Longrightarrow> wf_json v \<and> float_free v"
  by (induction v) (fastforce simp: in_int32_int64)+

interpretation mini_json: qt_json serialize_object mini_from_json
proof
  fix ob assume "qjson_ok (JObj ob)"
  then have "wf_json (JObj ob) \<and> float_free (JObj ob)" by (rule qjson_ok_wf)
  then show "mini_from_json (serialize_object ob) = Some (JObj ob)"
    by (simp add: mini_from_json_def serialize_object_def parse_serialize del: serialize.simps wf_JObj float_free_JObj)
qed


section \<open>The messages\<close>

text \<open>The users whose fields fit the protocol, and what a message keeps of a user: all but the password.\<close>

definition user_ok :: "UserData \<Rightarrow> bool" where
  "user_ok u \<longleftrightarrow> in_int32 (l_id u) \<and> in_int32 (l_headId u) \<and> is_utf8 (l_nickname u)"

definition public_user :: "UserData \<Rightarrow> UserData" where
  "public_user u = u\<lparr>l_password := []\<rparr>"

lemma user_ids: "user_ok u \<Longrightarrow> in_int32 (l_id u)" "user_ok u \<Longrightarrow> in_int32 (l_headId u)"
  "user_ok u \<Longrightarrow> is_utf8 (l_nickname u)"
  by (simp_all add: user_ok_def)

lemma in_int32_legacy_value [simp]: "in_int32 (legacy_value t)"
  by (cases t) (simp_all add: in_int32_def)

lemma conversions [simp]:
  "in_int32 i \<Longrightarrow> toInt_or d (JInt i) = i" "toString (JString s) = s" "toArray (JArr xs) = xs"
  "toObject (JObj ob) = ob" "toInt_or d JNull = d"
  by (simp_all add: toInt_or_def toString_def toArray_def toObject_def)

lemma empty_object [simp]: "qvalue [] k = JNull" "qjson_ok (JObj [])"
  by (simp_all add: qvalue_def)

lemma is_utf8_ascii: "list_all (\<lambda>c. (of_char c :: nat) < 0x80) s \<Longrightarrow> is_utf8 s"
  by (induction s) (simp_all add: Let_def)

lemma user_ok_object [simp]: "user_ok u \<Longrightarrow> qjson_ok (JObj (userObject u))"
  unfolding userObject_def user_ok_def by (rule qjson_ok_sets) (simp_all add: is_utf8_ascii)

lemma userObject_values [simp]:
  "qvalue (userObject u) ''id'' = JInt (l_id u)" "qvalue (userObject u) ''headId'' = JInt (l_headId u)"
  "qvalue (userObject u) ''nickname'' = JString (l_nickname u)"
  by (simp_all add: userObject_def qvalue_sets)

lemma parseUser_userObject [simp]: "user_ok u \<Longrightarrow> parseUser (userObject u) = public_user u"
  by (simp add: parseUser_def user_ok_def public_user_def new_UserData_def)

lemma parseUser_sets:
  "user_ok u \<Longrightarrow> \<forall>k \<in> {''id'', ''headId'', ''nickname''}. k \<notin> fst ` set kvs \<Longrightarrow>
   parseUser (obj_sets (userObject u) kvs) = public_user u"
proof -
  assume u: "user_ok u" and k: "\<forall>k \<in> {''id'', ''headId'', ''nickname''}. k \<notin> fst ` set kvs"
  have "map_of (rev kvs) k = None" if "k \<in> {''id'', ''headId'', ''nickname''}" for k
    unfolding map_of_eq_None_iff set_rev using k that by blast
  then have "qvalue (obj_sets (userObject u) kvs) k = qvalue (userObject u) k"
    if "k \<in> {''id'', ''headId'', ''nickname''}" for k
    using that by (simp add: qvalue_sets)
  then show ?thesis using parseUser_userObject [OF u] by (simp add: parseUser_def)
qed

lemmas build_defs =
  buildErrorMsg_def buildRegisterUserMsg_def buildRegisterUserReturnMsg_def buildLoginMsg_def
  buildLoginSucReturnMsg_def buildLoginLoseReturnMsg_def buildSendMsg_def buildReceiveMsg_def
  buildUserOnline_def buildUserOffline_def buildCreateGroup_def buildCreateGroupReturn_def
  buildSearchGroup_def buildSearchGroupReturn_def buildJoinGroup_def buildJoinGroupReturn_def
  buildLeaveGroup_def buildSendGroupMsg_def buildReceiveGroupMsg_def buildUserJoinGroup_def
  buildUserLeaveGroup_def

lemmas parse_defs =
  msgType_def parseRegisterUserMsg_def parseRegisterUserReturnMsg_def parseLoginMsg_def
  parseLoginSucReturnMsg_def parseSendMsg_def parseReceiveMsg_def parseUserOnline_def
  parseUserOffline_def parseCreateGroup_def parseCreateGroupReturn_def parseSearchGroupReturn_def
  parseJoinGroup_def parseJoinGroupReturn_def parseLeaveGroup_def parseSendGroupMsg_def
  parseReceiveGroupMsg_def parseUserJoinGroup_def parseUserLeaveGroup_def

lemma group_object:
  assumes "in_int32 i" "is_utf8 n"
  shows "qjson_ok (JObj (obj_sets [] [(''id'', JInt i), (''name'', JString n)]))"
  by (rule qjson_ok_sets) (use assms in \<open>simp_all add: is_utf8_ascii\<close>)

context qt_json
begin

lemmas message_simps = build_defs parse_defs parse_sets parseUser_sets qvalue_sets type_field_def
  is_utf8_ascii Let_def

lemma account_messages:
  assumes "in_int32 i" "is_utf8 s" "is_utf8 n"
  shows "parseRegisterUserMsg from_json (buildRegisterUserMsg to_json s i n) =
      \<lparr>l_id = 0, l_password = s, l_headId = i, l_nickname = n\<rparr>"
    "parseRegisterUserReturnMsg from_json (buildRegisterUserReturnMsg to_json i) = i"
    "parseLoginMsg from_json (buildLoginMsg to_json i s) =
      \<lparr>l_id = i, l_password = s, l_headId = 0, l_nickname = []\<rparr>"
    "parseCreateGroup from_json (buildCreateGroup to_json n) = n"
    "parseCreateGroupReturn from_json (buildCreateGroupReturn to_json i) = i"
  using assms
  by (simp_all add: message_simps parseUser_def new_UserData_def del: qjson_ok_JObj legacy_value.simps)

lemma user_messages:
  assumes "user_ok u" "user_ok v" "is_utf8 s"
  shows "parseSendMsg from_json (buildSendMsg to_json u v s) u' v' =
      (s, u'\<lparr>l_id := l_id u\<rparr>, v'\<lparr>l_id := l_id v\<rparr>)"
    "parseReceiveMsg from_json (buildReceiveMsg to_json u v s) u' v' =
      (s, u'\<lparr>l_id := l_id u\<rparr>, v'\<lparr>l_id := l_id v\<rparr>)"
    "parseUserOnline from_json (buildUserOnline to_json u) = public_user u"
    "parseUserOffline from_json (buildUserOffline to_json u) = public_user u"
  using assms
  by (simp_all add: message_simps user_ids del: qjson_ok_JObj legacy_value.simps)

lemma group_messages:
  assumes "user_ok u" "in_int32 g" "is_utf8 s"
  shows "parseJoinGroup from_json (buildJoinGroup to_json u g) = (public_user u, g)"
    "parseLeaveGroup from_json (buildLeaveGroup to_json u g) = (g, public_user u)"
    "parseUserJoinGroup from_json (buildUserJoinGroup to_json u g) = (public_user u, g)"
    "parseUserLeaveGroup from_json (buildUserLeaveGroup to_json u g) = (public_user u, g)"
    "parseSendGroupMsg from_json (buildSendGroupMsg to_json u g s) = (s, public_user u, g)"
    "parseReceiveGroupMsg from_json (buildReceiveGroupMsg to_json g u s) = (s, g, public_user u)"
  using assms by (simp_all add: message_simps del: qjson_ok_JObj legacy_value.simps)

lemma list_messages:
  assumes "user_ok u" "\<forall>v \<in> set us. user_ok v" "in_int32 g" "length is = length ns"
    "\<forall>i \<in> set is. in_int32 i" "\<forall>n \<in> set ns. is_utf8 n"
  shows "parseLoginSucReturnMsg from_json h (buildLoginSucReturnMsg to_json u us) =
      (u\<lparr>l_password := l_password h\<rparr>, map public_user us)"
    "parseJoinGroupReturn from_json (buildJoinGroupReturn to_json g us) us' = (g, us' @ map public_user us)"
    "parseSearchGroupReturn from_json (buildSearchGroupReturn to_json is ns) is' ns' = (is' @ is, ns' @ ns)"
proof -
  have users: "map (\<lambda>v. parseUser (toObject v)) (map (\<lambda>u. JObj (userObject u)) us) = map public_user us"
    using assms(2) by simp
  show "parseLoginSucReturnMsg from_json h (buildLoginSucReturnMsg to_json u us) =
      (u\<lparr>l_password := l_password h\<rparr>, map public_user us)"
    using users assms by (simp add: message_simps user_ids del: qjson_ok_JObj legacy_value.simps)
  show "parseJoinGroupReturn from_json (buildJoinGroupReturn to_json g us) us' = (g, us' @ map public_user us)"
    using users assms by (simp add: message_simps del: qjson_ok_JObj legacy_value.simps)
  let ?g = "\<lambda>(i, n). JObj (obj_sets [] [(''id'', JInt i), (''name'', JString n)])"
  have g: "\<forall>x \<in> set (map ?g (zip is ns)). qjson_ok x"
    using assms(5,6) by (auto intro!: group_object dest: set_zip_leftD set_zip_rightD simp del: qjson_ok_JObj)
  have "map (\<lambda>v. toInt_or 0 (qvalue (toObject v) ''id'')) (map ?g (zip is ns)) = is"
    "map (\<lambda>v. toString (qvalue (toObject v) ''name'')) (map ?g (zip is ns)) = ns"
    using assms(4-6) by (induction "is" ns rule: list_induct2) (simp_all add: qvalue_sets)
  then show "parseSearchGroupReturn from_json (buildSearchGroupReturn to_json is ns) is' ns' = (is' @ is, ns' @ ns)"
    using g by (simp add: message_simps del: qjson_ok_JObj legacy_value.simps)
qed

lemma types:
  assumes "qjson_ok (JObj ob)" "\<forall>(k, v) \<in> set kvs. is_utf8 k \<and> qjson_ok v" "''type'' \<notin> fst ` set kvs"
  shows "msgType from_json (dumpObject to_json (obj_sets ob (type_field t # kvs))) = legacy_value t"
proof -
  have "map_of (rev kvs) ''type'' = None" using assms(3) by (simp add: map_of_eq_None_iff)
  then show ?thesis using assms(1,2)
    by (simp add: msgType_def type_field_def parse_sets qvalue_sets is_utf8_ascii map_of_append map_add_def
        del: qjson_ok_JObj)
qed

end

text \<open>C25: In the old protocol every message is read back as it was written, given that Qt reads back
  the JSON it writes: for every kind of message the parsing function returns the numbers and texts
  the building function was given (a user without the password, which no message repeats), a list
  of users or groups comes back whole and in order, and the type read for the dispatch is the
  constant of that kind.\<close>

theorem legacy_messages:
  assumes json: "qt_json T F"
    and u: "user_ok u" "user_ok v" "\<forall>x \<in> set us. user_ok x"
    and g: "in_int32 g" "length is = length ns" "\<forall>i \<in> set is. in_int32 i" "\<forall>n \<in> set ns. is_utf8 n"
    and t: "is_utf8 s" "is_utf8 n"
  shows
    "parseRegisterUserMsg F (buildRegisterUserMsg T s g n) =
       \<lparr>l_id = 0, l_password = s, l_headId = g, l_nickname = n\<rparr> \<and>
     parseLoginMsg F (buildLoginMsg T g s) = \<lparr>l_id = g, l_password = s, l_headId = 0, l_nickname = []\<rparr> \<and>
     parseRegisterUserReturnMsg F (buildRegisterUserReturnMsg T g) = g \<and>
     parseLoginSucReturnMsg F h (buildLoginSucReturnMsg T u us) =
       (u\<lparr>l_password := l_password h\<rparr>, map public_user us) \<and>
     parseSendMsg F (buildSendMsg T u v s) u' v' = (s, u'\<lparr>l_id := l_id u\<rparr>, v'\<lparr>l_id := l_id v\<rparr>) \<and>
     parseReceiveMsg F (buildReceiveMsg T u v s) u' v' = (s, u'\<lparr>l_id := l_id u\<rparr>, v'\<lparr>l_id := l_id v\<rparr>) \<and>
     parseUserOnline F (buildUserOnline T u) = public_user u \<and>
     parseUserOffline F (buildUserOffline T u) = public_user u \<and>
     parseCreateGroup F (buildCreateGroup T n) = n \<and>
     parseCreateGroupReturn F (buildCreateGroupReturn T g) = g \<and>
     parseSearchGroupReturn F (buildSearchGroupReturn T is ns) is' ns' = (is' @ is, ns' @ ns) \<and>
     parseJoinGroup F (buildJoinGroup T u g) = (public_user u, g) \<and>
     parseJoinGroupReturn F (buildJoinGroupReturn T g us) us' = (g, us' @ map public_user us) \<and>
     parseLeaveGroup F (buildLeaveGroup T u g) = (g, public_user u) \<and>
     parseSendGroupMsg F (buildSendGroupMsg T u g s) = (s, public_user u, g) \<and>
     parseReceiveGroupMsg F (buildReceiveGroupMsg T g u s) = (s, g, public_user u) \<and>
     parseUserJoinGroup F (buildUserJoinGroup T u g) = (public_user u, g) \<and>
     parseUserLeaveGroup F (buildUserLeaveGroup T u g) = (public_user u, g) \<and>
     map (msgType F) [buildRegisterUserMsg T s g n, buildRegisterUserReturnMsg T g, buildLoginMsg T g s,
       buildLoginSucReturnMsg T u us, buildLoginLoseReturnMsg T, buildSendMsg T u v s, buildReceiveMsg T u v s,
       buildUserOnline T u, buildUserOffline T u, buildCreateGroup T n, buildCreateGroupReturn T g,
       buildSearchGroup T, buildSearchGroupReturn T is ns, buildJoinGroup T u g, buildJoinGroupReturn T g us,
       buildLeaveGroup T u g, buildSendGroupMsg T u g s, buildReceiveGroupMsg T g u s, buildUserJoinGroup T u g,
       buildUserLeaveGroup T u g, buildErrorMsg T g s] = [0..19] @ [33]"
proof -
  note messages = qt_json.account_messages [OF json g(1) t] qt_json.user_messages [OF json u(1,2) t(1)]
    qt_json.group_messages [OF json u(1) g(1) t(1)] qt_json.list_messages [OF json u(1,3) g]
  have "\<forall>x \<in> set (zip is ns). in_int32 (fst x) \<and> is_utf8 (snd x)"
    using g by (auto dest: set_zip_leftD set_zip_rightD)
  then show ?thesis
    unfolding messages unfolding build_defs using u g t qt_json.types [OF json]
    by (simp add: is_utf8_ascii user_ids upto.simps group_object split_beta del: qjson_ok_JObj)
qed

theorem legacy_messages_witness:
  "parseSendMsg mini_from_json
     (buildSendMsg serialize_object (new_UserData\<lparr>l_id := 100001\<rparr>) (new_UserData\<lparr>l_id := 100002\<rparr>) ''hi'')
     new_UserData new_UserData =
   (''hi'', new_UserData\<lparr>l_id := 100001\<rparr>, new_UserData\<lparr>l_id := 100002\<rparr>)"
proof -
  have "user_ok (new_UserData\<lparr>l_id := 100001\<rparr>)" "user_ok (new_UserData\<lparr>l_id := 100002\<rparr>)"
    by (simp_all add: user_ok_def new_UserData_def in_int32_def)
  from legacy_messages [OF mini_json.qt_json_axioms this, of "[]" 7 "[]" "[]" "''hi''" "''x''"]
  show ?thesis by (simp add: in_int32_def)
qed

end
