(* ===== verification/LegacyUserDao.thy ===== *)
theory LegacyUserDao
  imports Sqlite Json
begin

text \<open>
  The accounts of the old server: \<^verbatim>\<open>legacy/original-server/PasswordHash.h\<close>, \<^verbatim>\<open>UserDao.cpp\<close> and
  \<^verbatim>\<open>UserEntity.h\<close>. The engine under Qt's SQL module is the record \<open>sqlite\<close> of theory \<open>Sqlite\<close>; the hash
  function of \<open>QCryptographicHash\<close>, the random numbers and the clock are fields of \<open>lenv\<close>. A
  \<open>QByteArray\<close> is a \<^typ>\<open>string\<close>, and so is a \<open>QString\<close>, as its UTF-8 bytes.

  Every \<open>QSqlQuery\<close> of the old server runs on the default connection, which exists from the moment
  the \<open>UserDao\<close> opens it. That a connection may be used from every thread is taken for granted.

  Shown here: an account that was added is accepted with its password, and a password that was
  stored as it is gets replaced by a hash that accepts it.
\<close>

section \<open>The environment\<close>

text \<open>\<open>lrandom k\<close> is the \<open>k\<close>th byte drawn, \<open>lclock k\<close> the \<open>k\<close>th reading of the clock in seconds.\<close>

record 'db lenv =
  lsql :: "'db sqlite"
  lrandom :: "nat \<Rightarrow> char"
  lsha256 :: "string \<Rightarrow> string"
  lclock :: "nat \<Rightarrow> int"

text \<open>
  The process' SQL state. \<open>default_db\<close> is the default connection if it is open, \<open>message_db\<close> the
  connection named \<open>message_connection\<close>; \<open>userDao\<close> and \<open>messageDao\<close> say whether the two singletons
  exist.
\<close>

record 'db legacy_db =
  default_db :: "'db option"
  message_db :: "'db option"
  userDao :: bool
  messageDao :: bool
  draws :: nat
  ticks :: nat

definition no_db :: "'db legacy_db" where
  "no_db = \<lparr>default_db = None, message_db = None, userDao = False, messageDao = False, draws = 0, ticks = 0\<rparr>"

text \<open>\<open>QSqlQuery\<close> on the default connection: nothing happens, and no rows come, when a statement fails.\<close>

definition q_select :: "('db, 'e) lenv_scheme \<Rightarrow> string \<Rightarrow> sqlval list \<Rightarrow> 'db legacy_db \<Rightarrow> sqlval list list" where
  "q_select E sql ps s =
     (case default_db s of
        None \<Rightarrow> []
      | Some db \<Rightarrow> (case sq_select (lsql E) sql ps db of None \<Rightarrow> [] | Some rows \<Rightarrow> rows))"

definition q_run :: "('db, 'e) lenv_scheme \<Rightarrow> string \<Rightarrow> sqlval list \<Rightarrow> 'db legacy_db \<Rightarrow> 'db legacy_db" where
  "q_run E sql ps s =
     (case default_db s of
        None \<Rightarrow> s
      | Some db \<Rightarrow>
          (case sq_run (lsql E) sql ps db of None \<Rightarrow> s | Some (_, _, db') \<Rightarrow> s\<lparr>default_db := Some db'\<rparr>))"

definition q_exec :: "('db, 'e) lenv_scheme \<Rightarrow> string \<Rightarrow> 'db legacy_db \<Rightarrow> 'db legacy_db" where
  "q_exec E sql s =
     (case default_db s of
        None \<Rightarrow> s
      | Some db \<Rightarrow> s\<lparr>default_db := Some (snd (sq_exec (lsql E) sql db))\<rparr>)"

text \<open>
  The columns of a row as \<open>int\<close> and as text. The values of the integer columns are integers, unless
  they are texts that are no numbers, which convert to 0.
\<close>

definition col_int :: "sqlval list \<Rightarrow> nat \<Rightarrow> int" where
  "col_int row i = (case row ! i of SqlInt n \<Rightarrow> to_int32 n | SqlText _ \<Rightarrow> 0)"

definition col_text :: "sqlval list \<Rightarrow> nat \<Rightarrow> string" where
  "col_text row i = (case row ! i of SqlInt n \<Rightarrow> to_string n | SqlText s \<Rightarrow> s)"

section \<open>Passwords\<close>

definition hex_char :: "nat \<Rightarrow> char" where
  "hex_char d = (if d < 10 then char_of (48 + d) else char_of (87 + d))"

definition toHex :: "string \<Rightarrow> string" where
  "toHex s = concat (map (\<lambda>c. [hex_char (of_char c div 16), hex_char (of_char c mod 16)]) s)"

definition hex_value :: "char \<Rightarrow> nat option" where
  "hex_value c =
     (let n = (of_char c :: nat)
      in if 48 \<le> n \<and> n \<le> 57 then Some (n - 48)
         else if 97 \<le> n \<and> n \<le> 102 then Some (n - 87)
         else if 65 \<le> n \<and> n \<le> 70 then Some (n - 55) else None)"

fun hex_pairs :: "nat list \<Rightarrow> string" where
  "hex_pairs (a # b # ds) = char_of (16 * a + b) # hex_pairs ds"
| "hex_pairs [a] = [char_of a]"
| "hex_pairs [] = []"

text \<open>\<open>QByteArray::fromHex\<close> skips what is no digit; an odd number of digits is filled up in front.\<close>

definition fromHex :: "string \<Rightarrow> string" where
  "fromHex s =
     (let ds = List.map_filter hex_value s
      in if odd (length ds) then hex_pairs (0 # ds) else hex_pairs ds)"

text \<open>\<open>QString::split\<close> with \<open>Qt::SkipEmptyParts\<close>\<close>

fun split_parts :: "char \<Rightarrow> string \<Rightarrow> string \<Rightarrow> string list" where
  "split_parts c acc [] = (if acc = [] then [] else [rev acc])"
| "split_parts c acc (x # xs) =
     (if x = c then (if acc = [] then [] else [rev acc]) @ split_parts c [] xs
      else split_parts c (x # acc) xs)"

definition generateSalt :: "('db, 'e) lenv_scheme \<Rightarrow> nat \<Rightarrow> 'db legacy_db \<Rightarrow> string \<times> 'db legacy_db" where
  "generateSalt E len s = (map (\<lambda>i. lrandom E (draws s + i)) [0..<len], s\<lparr>draws := draws s + len\<rparr>)"

definition computeHash :: "('db, 'e) lenv_scheme \<Rightarrow> string \<Rightarrow> string \<Rightarrow> string" where
  "computeHash E password salt = lsha256 E (salt @ password)"

definition hash_text :: "string \<Rightarrow> string \<Rightarrow> string" where
  "hash_text salt h = ''$'' @ toHex salt @ ''$'' @ toHex h"

definition pw_hash :: "('db, 'e) lenv_scheme \<Rightarrow> string \<Rightarrow> 'db legacy_db \<Rightarrow> string \<times> 'db legacy_db" where
  "pw_hash E password s =
     (let (salt, s) = generateSalt E 16 s; h = computeHash E password salt
      in (hash_text salt h, s))"

definition pw_verify :: "('db, 'e) lenv_scheme \<Rightarrow> string \<Rightarrow> string \<Rightarrow> bool" where
  "pw_verify E password storedHash =
     (let parts = split_parts (CHR ''$'') [] storedHash
      in if length parts \<noteq> 2 then False
         else
           let salt = fromHex (parts ! 0); expectedHash = fromHex (parts ! 1);
               actualHash = computeHash E password salt
           in actualHash = expectedHash)"

definition isLegacyPlaintext :: "string \<Rightarrow> bool" where
  "isLegacyPlaintext storedValue \<longleftrightarrow> \<not> is_prefix ''$'' storedValue"

section \<open>Accounts\<close>

record UserEntity =
  e_id :: int
  e_password :: string
  e_nickname :: string
  e_headId :: int

definition user_create_sql :: string where
  "user_create_sql =
     ''CREATE TABLE IF NOT EXISTS user('' @
     ''  id       INTEGER PRIMARY KEY AUTOINCREMENT,'' @
     ''  password TEXT,'' @
     ''  nickname TEXT,'' @
     ''  headid   INTEGER'' @
     '')''"

definition user_seed_sql :: string where
  "user_seed_sql = ''INSERT OR IGNORE INTO user(id, password, nickname, headid) VALUES(?, ?, ?, ?)''"

definition user_insert_sql :: string where
  "user_insert_sql = ''INSERT INTO user(password, nickname, headid) VALUES(?, ?, ?)''"

definition last_rowid_sql :: string where
  "last_rowid_sql = ''SELECT LAST_INSERT_ROWID()''"

definition user_password_sql :: string where
  "user_password_sql = ''SELECT password, nickname, headid FROM user WHERE id = ?''"

definition user_upgrade_sql :: string where
  "user_upgrade_sql = ''UPDATE user SET password = ? WHERE id = ?''"

definition user_all_sql :: string where
  "user_all_sql = ''SELECT id, nickname, headid FROM user ORDER BY id''"

definition user_by_id_sql :: string where
  "user_by_id_sql = ''SELECT id, nickname, headid FROM user WHERE id = ?''"

definition new_UserDao :: "('db, 'e) lenv_scheme \<Rightarrow> 'db legacy_db \<Rightarrow> 'db legacy_db" where
  "new_UserDao E s =
     (case sq_open (lsql E) ''hhuser.db'' of (ok, db) \<Rightarrow>
        if \<not> ok then s
        else
          let s = s\<lparr>default_db := Some db\<rparr>;
              s = q_exec E user_create_sql s;
              (h, s) = pw_hash E ''admin123'' s
          in q_run E user_seed_sql [SqlInt 100000, SqlText h, SqlText ''Administrator'', SqlInt 0] s)"

definition UserDao_getInstance :: "('db, 'e) lenv_scheme \<Rightarrow> 'db legacy_db \<Rightarrow> 'db legacy_db" where
  "UserDao_getInstance E s = (if userDao s then s else (new_UserDao E s)\<lparr>userDao := True\<rparr>)"

definition UserDao_releaseInstance :: "'db legacy_db \<Rightarrow> 'db legacy_db" where
  "UserDao_releaseInstance s = (if userDao s then s\<lparr>default_db := None, userDao := False\<rparr> else s)"

definition insertUser :: "('db, 'e) lenv_scheme \<Rightarrow> UserEntity \<Rightarrow> 'db legacy_db \<Rightarrow> int \<times> 'db legacy_db" where
  "insertUser E e s =
     (let (hashedPw, s) = pw_hash E (e_password e) s;
          s = q_run E user_insert_sql [SqlText hashedPw, SqlText (e_nickname e), SqlInt (e_headId e)] s
      in (case q_select E last_rowid_sql [] s of [] \<Rightarrow> 0 | row # _ \<Rightarrow> col_int row 0, s))"

text \<open>The loop of \<open>verifyPassword\<close>: the answer, the entity with the fields filled in, and the state.\<close>

primrec verify_rows ::
  "('db, 'e) lenv_scheme \<Rightarrow> UserEntity \<Rightarrow> sqlval list list \<Rightarrow> 'db legacy_db \<Rightarrow>
   (bool \<times> UserEntity) \<times> 'db legacy_db" where
  "verify_rows E e [] s = ((False, e), s)"
| "verify_rows E e (row # rows) s =
     (let storedPw = col_text row 0;
          (ok, s) =
            (if isLegacyPlaintext storedPw then
               if storedPw = e_password e then
                 let (hashed, s) = pw_hash E (e_password e) s
                 in (True, q_run E user_upgrade_sql [SqlText hashed, SqlInt (e_id e)] s)
               else (False, s)
             else (pw_verify E (e_password e) storedPw, s))
      in if ok then ((True, e\<lparr>e_nickname := col_text row 1, e_headId := col_int row 2\<rparr>), s)
         else verify_rows E e rows s)"

definition dao_verifyPassword ::
  "('db, 'e) lenv_scheme \<Rightarrow> UserEntity \<Rightarrow> 'db legacy_db \<Rightarrow> (bool \<times> UserEntity) \<times> 'db legacy_db" where
  "dao_verifyPassword E e s = verify_rows E e (q_select E user_password_sql [SqlInt (e_id e)] s) s"

definition public_entity :: "sqlval list \<Rightarrow> UserEntity" where
  "public_entity row =
     \<lparr>e_id = col_int row 0, e_password = [], e_nickname = col_text row 1, e_headId = col_int row 2\<rparr>"

definition dao_getAllUsers :: "('db, 'e) lenv_scheme \<Rightarrow> 'db legacy_db \<Rightarrow> UserEntity list" where
  "dao_getAllUsers E s = map public_entity (q_select E user_all_sql [] s)"

text \<open>The user passed by reference is left as it is when there is no account.\<close>

definition getUserById :: "('db, 'e) lenv_scheme \<Rightarrow> int \<Rightarrow> UserEntity \<Rightarrow> 'db legacy_db \<Rightarrow> bool \<times> UserEntity" where
  "getUserById E i out s =
     (case q_select E user_by_id_sql [SqlInt i] s of
        [] \<Rightarrow> (False, out)
      | row # _ \<Rightarrow>
          (True, out\<lparr>e_id := col_int row 0, e_nickname := col_text row 1, e_headId := col_int row 2\<rparr>))"

section \<open>Hashes are accepted\<close>

lemma hex_value_char: "d < 16 \<Longrightarrow> hex_value (hex_char d) = Some d"
  by (auto simp: hex_value_def hex_char_def Let_def)

lemma hex_char_no_dollar: "d < 16 \<Longrightarrow> hex_char d \<noteq> CHR ''$''"
proof
  assume "d < 16" "hex_char d = CHR ''$''"
  then have "hex_value (CHR ''$'') = Some d" using hex_value_char [of d] by simp
  then show False by (simp add: hex_value_def)
qed

lemma nibble [simp]: "of_char c div 16 < (16 :: nat)"
  using nat_of_char_less_256 [of c] by linarith

lemma toHex_values: "List.map_filter hex_value (toHex s) = concat (map (\<lambda>c. [of_char c div 16, of_char c mod 16]) s)"
proof (induction s)
  case (Cons c s)
  then show ?case by (simp add: toHex_def hex_value_char)
qed (simp add: toHex_def)

lemma fromHex_toHex [simp]: "fromHex (toHex s) = s"
proof -
  have "even (length (concat (map (\<lambda>c. [of_char c div 16, of_char c mod 16 :: nat]) s)))"
    by (induction s) auto
  moreover have "hex_pairs (concat (map (\<lambda>c. [of_char c div 16, of_char c mod 16]) s)) = s"
    by (induction s) simp_all
  ultimately show ?thesis by (simp add: fromHex_def toHex_values)
qed

lemma toHex_plain: "CHR ''$'' \<notin> set (toHex s)"
  using hex_char_no_dollar by (auto simp: toHex_def dest: sym)

lemma toHex_nonempty: "s \<noteq> [] \<Longrightarrow> toHex s \<noteq> []"
  by (cases s) (simp_all add: toHex_def)

lemma split_parts_plain: "c \<notin> set xs \<Longrightarrow> split_parts c acc (xs @ ys) = split_parts c (rev xs @ acc) ys"
  by (induction xs arbitrary: acc) auto

lemma split_hash_text:
  assumes "salt \<noteq> []" "h \<noteq> []"
  shows "split_parts (CHR ''$'') [] (hash_text salt h) = [toHex salt, toHex h]"
  using assms toHex_nonempty [of salt] toHex_nonempty [of h] split_parts_plain [OF toHex_plain, of "[]" h "[]"]
  by (simp add: hash_text_def split_parts_plain toHex_plain)

lemma pw_verify_hash:
  assumes "pw_hash E p s = (h, s')" "\<forall>x. lsha256 E x \<noteq> []"
  shows "pw_verify E p h" "\<not> isLegacyPlaintext h" "s' = s\<lparr>draws := draws s + 16\<rparr>"
proof -
  obtain salt where h: "h = hash_text salt (computeHash E p salt)" "length salt = 16"
    and "s' = s\<lparr>draws := draws s + 16\<rparr>"
    using assms(1) by (auto simp: pw_hash_def generateSalt_def Let_def)
  then show "s' = s\<lparr>draws := draws s + 16\<rparr>" by simp
  have "salt \<noteq> []" using h(2) by auto
  moreover have "computeHash E p salt \<noteq> []" using assms(2) by (simp add: computeHash_def)
  ultimately show "pw_verify E p h"
    by (simp add: h(1) pw_verify_def split_hash_text)
  show "\<not> isLegacyPlaintext h" by (simp add: h(1) hash_text_def isLegacyPlaintext_def)
qed

section \<open>The table of accounts\<close>

text \<open>
  What is relied on of the engine: the documented effect of the statements above. \<open>users db\<close> are the
  rows of the table \<open>user\<close>, if it exists, in the order of insertion.
\<close>

record luser =
  lu_id :: int
  lu_password :: string
  lu_nickname :: string
  lu_headid :: int

definition sqlite_users :: "'db sqlite \<Rightarrow> ('db \<Rightarrow> luser list option) \<Rightarrow> bool" where
  "sqlite_users eng users \<longleftrightarrow>
     (\<forall>db. users (snd (sq_exec eng user_create_sql db)) =
        Some (case users db of None \<Rightarrow> [] | Some rows \<Rightarrow> rows)) \<and>
     (\<forall>db rows. users db = Some rows \<longrightarrow>
        (\<forall>i p n h. \<exists>ok k db'. sq_run eng user_seed_sql [SqlInt i, SqlText p, SqlText n, SqlInt h] db = Some (ok, k, db') \<and>
           users db' = Some (if i \<in> lu_id ` set rows then rows
             else rows @ [\<lparr>lu_id = i, lu_password = p, lu_nickname = n, lu_headid = h\<rparr>])) \<and>
        (\<forall>p n h. \<exists>k db' i. sq_run eng user_insert_sql [SqlText p, SqlText n, SqlInt h] db = Some (True, k, db') \<and>
           0 < i \<and> i \<notin> lu_id ` set rows \<and>
           users db' = Some (rows @ [\<lparr>lu_id = i, lu_password = p, lu_nickname = n, lu_headid = h\<rparr>]) \<and>
           sq_select eng last_rowid_sql [] db' = Some [[SqlInt i]]) \<and>
        (\<forall>i. sq_select eng user_password_sql [SqlInt i] db =
           Some (map (\<lambda>r. [SqlText (lu_password r), SqlText (lu_nickname r), SqlInt (lu_headid r)])
             (filter (\<lambda>r. lu_id r = i) rows))) \<and>
        (\<forall>i. sq_select eng user_by_id_sql [SqlInt i] db =
           Some (map (\<lambda>r. [SqlInt (lu_id r), SqlText (lu_nickname r), SqlInt (lu_headid r)])
             (filter (\<lambda>r. lu_id r = i) rows))) \<and>
        (\<forall>p i. \<exists>k db'. sq_run eng user_upgrade_sql [SqlText p, SqlInt i] db = Some (True, k, db') \<and>
           users db' = Some (map (\<lambda>r. if lu_id r = i then r\<lparr>lu_password := p\<rparr> else r) rows)))"

text \<open>The accounts of a process whose connection is open: no number twice, and all of them an \<open>int\<close>.\<close>

definition accounts :: "('db \<Rightarrow> luser list option) \<Rightarrow> 'db legacy_db \<Rightarrow> luser list \<Rightarrow> bool" where
  "accounts users s rows \<longleftrightarrow> (\<exists>db. default_db s = Some db \<and> users db = Some rows) \<and> distinct (map lu_id rows)"

lemma q_select_open: "default_db s = Some db \<Longrightarrow> sq_select (lsql E) sql ps db = Some rows \<Longrightarrow> q_select E sql ps s = rows"
  by (simp add: q_select_def)

lemma q_run_open:
  "default_db s = Some db \<Longrightarrow> sq_run (lsql E) sql ps db = Some (ok, k, db') \<Longrightarrow> q_run E sql ps s = s\<lparr>default_db := Some db'\<rparr>"
  by (simp add: q_run_def)

definition account_columns :: "luser \<Rightarrow> sqlval list" where
  "account_columns r = [SqlText (lu_password r), SqlText (lu_nickname r), SqlInt (lu_headid r)]"

lemma col_account [simp]:
  "col_text (account_columns r) 0 = lu_password r" "col_text (account_columns r) (Suc 0) = lu_nickname r"
  "col_int (account_columns r) 2 = to_int32 (lu_headid r)"
  by (simp_all add: account_columns_def col_text_def col_int_def)

lemma verify_select:
  assumes "sqlite_users (lsql E) users" "accounts users s rows"
  shows "dao_verifyPassword E e s =
    verify_rows E e (map account_columns (filter (\<lambda>r. lu_id r = e_id e) rows)) s"
proof -
  obtain db where db: "default_db s = Some db" "users db = Some rows" using assms(2) by (auto simp: accounts_def)
  have "sq_select (lsql E) user_password_sql [SqlInt (e_id e)] db =
      Some (map account_columns (filter (\<lambda>r. lu_id r = e_id e) rows))"
    using assms(1) db(2) unfolding sqlite_users_def account_columns_def by meson
  then show ?thesis using q_select_open [OF db(1), of E] by (simp add: dao_verifyPassword_def)
qed

lemma filter_unique: "distinct (map f xs) \<Longrightarrow> x \<in> set xs \<Longrightarrow> filter (\<lambda>y. f y = f x) xs = [x]"
  by (induction xs) (auto simp: filter_empty_conv image_iff)

lemma insert_account:
  assumes c: "sqlite_users (lsql E) users" and a: "accounts users s rows"
    and e: "pw_hash E (e_password e) s = (h, s1)" "s1 = s\<lparr>draws := draws s + 16\<rparr>"
  shows "\<exists>i s'. insertUser E e s = (to_int32 i, s') \<and> 0 < i \<and> i \<notin> lu_id ` set rows \<and>
    accounts users s' (rows @ [\<lparr>lu_id = i, lu_password = h, lu_nickname = e_nickname e, lu_headid = e_headId e\<rparr>])"
proof -
  obtain db where db: "default_db s = Some db" "users db = Some rows" and d: "distinct (map lu_id rows)"
    using a by (auto simp: accounts_def)
  let ?row = "\<lambda>i. \<lparr>lu_id = i, lu_password = h, lu_nickname = e_nickname e, lu_headid = e_headId e\<rparr>"
  obtain k db' i where i: "sq_run (lsql E) user_insert_sql [SqlText h, SqlText (e_nickname e), SqlInt (e_headId e)] db =
      Some (True, k, db')" "0 < i" "i \<notin> lu_id ` set rows" "users db' = Some (rows @ [?row i])"
      "sq_select (lsql E) last_rowid_sql [] db' = Some [[SqlInt i]]"
    using c db(2) unfolding sqlite_users_def by meson
  have "default_db s1 = Some db" using db(1) e(2) by simp
  then have r: "q_run E user_insert_sql [SqlText h, SqlText (e_nickname e), SqlInt (e_headId e)] s1 =
      s1\<lparr>default_db := Some db'\<rparr>" using i(1) by (rule q_run_open)
  have "insertUser E e s = (to_int32 i, s1\<lparr>default_db := Some db'\<rparr>)"
    using i(5) by (simp add: insertUser_def e(1) r q_select_def col_int_def)
  then show ?thesis using i d by (auto simp: accounts_def)
qed

section \<open>A small engine\<close>

record ref_users =
  ru_rows :: "luser list option"
  ru_last :: int

definition fresh_id :: "luser list \<Rightarrow> int" where
  "fresh_id rows = Max (insert 0 (lu_id ` set rows)) + 1"

definition ref_users_select :: "string \<Rightarrow> sqlval list \<Rightarrow> ref_users \<Rightarrow> sqlval list list option" where
  "ref_users_select sql ps db =
     (if sql = last_rowid_sql then Some [[SqlInt (ru_last db)]]
      else case (ru_rows db, ps) of
        (Some rows, [SqlInt i]) \<Rightarrow>
          if sql = user_password_sql then Some (map account_columns (filter (\<lambda>r. lu_id r = i) rows))
          else if sql = user_by_id_sql then
            Some (map (\<lambda>r. [SqlInt (lu_id r), SqlText (lu_nickname r), SqlInt (lu_headid r)])
              (filter (\<lambda>r. lu_id r = i) rows))
          else None
      | _ \<Rightarrow> None)"

definition ref_users_run :: "string \<Rightarrow> sqlval list \<Rightarrow> ref_users \<Rightarrow> (bool \<times> nat \<times> ref_users) option" where
  "ref_users_run sql ps db =
     (case (ru_rows db, ps) of
        (Some rows, [SqlInt i, SqlText p, SqlText n, SqlInt h]) \<Rightarrow>
          if sql = user_seed_sql then
            Some (True, 1, if i \<in> lu_id ` set rows then db
              else \<lparr>ru_rows = Some (rows @ [\<lparr>lu_id = i, lu_password = p, lu_nickname = n, lu_headid = h\<rparr>]), ru_last = i\<rparr>)
          else None
      | (Some rows, [SqlText p, SqlText n, SqlInt h]) \<Rightarrow>
          if sql = user_insert_sql then
            let i = fresh_id rows
            in Some (True, 1,
                 \<lparr>ru_rows = Some (rows @ [\<lparr>lu_id = i, lu_password = p, lu_nickname = n, lu_headid = h\<rparr>]), ru_last = i\<rparr>)
          else None
      | (Some rows, [SqlText p, SqlInt i]) \<Rightarrow>
          if sql = user_upgrade_sql then
            Some (True, 1, db\<lparr>ru_rows := Some (map (\<lambda>r. if lu_id r = i then r\<lparr>lu_password := p\<rparr> else r) rows)\<rparr>)
          else None
      | _ \<Rightarrow> None)"

definition ref_users_engine :: "ref_users sqlite" where
  "ref_users_engine =
     \<lparr>sq_open = \<lambda>_. (True, \<lparr>ru_rows = None, ru_last = 0\<rparr>),
      sq_exec = \<lambda>sql db. if sql = user_create_sql
        then (True, db\<lparr>ru_rows := Some (case ru_rows db of None \<Rightarrow> [] | Some rows \<Rightarrow> rows)\<rparr>) else (False, db),
      sq_select = ref_users_select, sq_run = ref_users_run\<rparr>"

lemma fresh_id: "0 < fresh_id rows" "fresh_id rows \<notin> lu_id ` set rows"
proof -
  have m: "x \<le> Max (insert 0 (lu_id ` set rows))" if "x \<in> insert 0 (lu_id ` set rows)" for x
    using that by (intro Max_ge) auto
  show "0 < fresh_id rows" using m [of 0] by (simp add: fresh_id_def)
  show "fresh_id rows \<notin> lu_id ` set rows" using m [of "fresh_id rows"] by (auto simp: fresh_id_def)
qed

lemma ref_users_ok: "sqlite_users ref_users_engine ru_rows"
  unfolding sqlite_users_def
  by (auto simp: ref_users_engine_def ref_users_select_def ref_users_run_def fresh_id Let_def account_columns_def
      last_rowid_sql_def user_password_sql_def user_by_id_sql_def fun_eq_iff)

definition ref_lenv :: "ref_users lenv" where
  "ref_lenv = \<lparr>lsql = ref_users_engine, lrandom = \<lambda>k. char_of k, lsha256 = \<lambda>s. CHR ''h'' # s, lclock = \<lambda>k. int k\<rparr>"

lemma verify_account:
  assumes c: "sqlite_users (lsql E) users" and a: "accounts users s rows" and r: "r \<in> set rows" "lu_id r = e_id e"
  shows "dao_verifyPassword E e s = verify_rows E e [account_columns r] s"
  using filter_unique [of lu_id rows r] a r by (simp add: verify_select [OF c a] accounts_def)

lemma upgrade_account:
  assumes c: "sqlite_users (lsql E) users" and sha: "\<forall>x. lsha256 E x \<noteq> []" and a: "accounts users s rows"
    and r: "r \<in> set rows" "lu_id r = e_id e" "isLegacyPlaintext (lu_password r)" and p: "e_password e = lu_password r"
  shows "\<exists>h s'. dao_verifyPassword E e s =
      ((True, e\<lparr>e_nickname := lu_nickname r, e_headId := to_int32 (lu_headid r)\<rparr>), s') \<and>
    accounts users s' (map (\<lambda>q. if lu_id q = lu_id r then q\<lparr>lu_password := h\<rparr> else q) rows) \<and>
    \<not> isLegacyPlaintext h \<and> pw_verify E (e_password e) h"
proof -
  obtain h s1 where h: "pw_hash E (e_password e) s = (h, s1)" by fastforce
  note ph = pw_verify_hash [OF h sha]
  obtain db where db: "default_db s = Some db" "users db = Some rows" using a by (auto simp: accounts_def)
  obtain k db' where d: "sq_run (lsql E) user_upgrade_sql [SqlText h, SqlInt (e_id e)] db = Some (True, k, db')"
      "users db' = Some (map (\<lambda>q. if lu_id q = e_id e then q\<lparr>lu_password := h\<rparr> else q) rows)"
    using c db(2) unfolding sqlite_users_def by meson
  have "q_run E user_upgrade_sql [SqlText h, SqlInt (e_id e)] s1 = s1\<lparr>default_db := Some db'\<rparr>"
    using db(1) d(1) by (intro q_run_open) (simp_all add: ph(3))
  then have "dao_verifyPassword E e s =
      ((True, e\<lparr>e_nickname := lu_nickname r, e_headId := to_int32 (lu_headid r)\<rparr>), s1\<lparr>default_db := Some db'\<rparr>)"
    using r p h by (simp add: verify_account [OF c a r(1,2)])
  moreover have "lu_id \<circ> (\<lambda>q :: luser. if lu_id q = e_id e then q\<lparr>lu_password := h\<rparr> else q) = lu_id"
    by (simp add: fun_eq_iff)
  then have "accounts users (s1\<lparr>default_db := Some db'\<rparr>)
      (map (\<lambda>q. if lu_id q = lu_id r then q\<lparr>lu_password := h\<rparr> else q) rows)"
    using a d(2) r by (simp add: accounts_def)
  ultimately show ?thesis using ph by blast
qed

section \<open>Properties\<close>

text \<open>The accounts of the old server. Adding an account gives it a number nobody has and stores a
  salted hash, and the password is then accepted with that number, if it is an \<open>int\<close>, and the
  nickname and picture returned. A number without an account is refused. A password stored as plain text
  accepts only itself, and once it was accepted, a salted hash that accepts it is stored in its place.\<close>

theorem legacy_accounts:
  assumes c: "sqlite_users (lsql E) users" and sha: "\<forall>x. lsha256 E x \<noteq> []" and a: "accounts users s rows"
  shows "(\<exists>i h s'. insertUser E e s = (to_int32 i, s') \<and> 0 < i \<and> i \<notin> lu_id ` set rows \<and>
      accounts users s' (rows @ [\<lparr>lu_id = i, lu_password = h, lu_nickname = e_nickname e, lu_headid = e_headId e\<rparr>]) \<and>
      \<not> isLegacyPlaintext h \<and>
      (\<forall>f. e_id f = i \<and> e_password f = e_password e \<longrightarrow> dao_verifyPassword E f s' =
        ((True, f\<lparr>e_nickname := e_nickname e, e_headId := to_int32 (e_headId e)\<rparr>), s'))) \<and>
    (e_id e \<notin> lu_id ` set rows \<longrightarrow> dao_verifyPassword E e s = ((False, e), s)) \<and>
    (\<forall>r \<in> set rows. lu_id r = e_id e \<and> isLegacyPlaintext (lu_password r) \<longrightarrow>
      (e_password e \<noteq> lu_password r \<longrightarrow> dao_verifyPassword E e s = ((False, e), s)) \<and>
      (e_password e = lu_password r \<longrightarrow> (\<exists>h s'. dao_verifyPassword E e s =
          ((True, e\<lparr>e_nickname := lu_nickname r, e_headId := to_int32 (lu_headid r)\<rparr>), s') \<and>
        accounts users s' (map (\<lambda>q. if lu_id q = lu_id r then q\<lparr>lu_password := h\<rparr> else q) rows) \<and>
        \<not> isLegacyPlaintext h \<and> pw_verify E (e_password e) h)))"
proof (intro conjI ballI impI)
  obtain h s1 where h: "pw_hash E (e_password e) s = (h, s1)" by fastforce
  note ph = pw_verify_hash [OF h sha]
  obtain i s' where i: "insertUser E e s = (to_int32 i, s')" "0 < i" "i \<notin> lu_id ` set rows"
      "accounts users s' (rows @ [\<lparr>lu_id = i, lu_password = h, lu_nickname = e_nickname e, lu_headid = e_headId e\<rparr>])"
    using insert_account [OF c a h ph(3)] by blast
  then have "filter (\<lambda>r. lu_id r = i) rows = []" by (auto simp: filter_empty_conv)
  then have "dao_verifyPassword E f s' = ((True, f\<lparr>e_nickname := e_nickname e, e_headId := to_int32 (e_headId e)\<rparr>), s')"
    if "e_id f = i" "e_password f = e_password e" for f
    using that ph by (simp add: verify_select [OF c i(4)])
  then show "\<exists>i h s'. insertUser E e s = (to_int32 i, s') \<and> 0 < i \<and> i \<notin> lu_id ` set rows \<and>
      accounts users s' (rows @ [\<lparr>lu_id = i, lu_password = h, lu_nickname = e_nickname e, lu_headid = e_headId e\<rparr>]) \<and>
      \<not> isLegacyPlaintext h \<and>
      (\<forall>f. e_id f = i \<and> e_password f = e_password e \<longrightarrow> dao_verifyPassword E f s' =
        ((True, f\<lparr>e_nickname := e_nickname e, e_headId := to_int32 (e_headId e)\<rparr>), s'))"
    using i ph(2) by blast
  assume "e_id e \<notin> lu_id ` set rows"
  then have "filter (\<lambda>r. lu_id r = e_id e) rows = []" by (force simp: filter_empty_conv image_iff)
  then show "dao_verifyPassword E e s = ((False, e), s)" by (simp add: verify_select [OF c a])
next
  fix r assume r: "r \<in> set rows" "lu_id r = e_id e \<and> isLegacyPlaintext (lu_password r)"
  then show "dao_verifyPassword E e s = ((False, e), s)" if "e_password e \<noteq> lu_password r"
    using that by (simp add: verify_account [OF c a])
  assume "e_password e = lu_password r"
  then show "\<exists>h s'. dao_verifyPassword E e s =
        ((True, e\<lparr>e_nickname := lu_nickname r, e_headId := to_int32 (lu_headid r)\<rparr>), s') \<and>
      accounts users s' (map (\<lambda>q. if lu_id q = lu_id r then q\<lparr>lu_password := h\<rparr> else q) rows) \<and>
      \<not> isLegacyPlaintext h \<and> pw_verify E (e_password e) h"
    using r by (intro upgrade_account [OF c sha a]) simp_all
qed

theorem legacy_accounts_witness:
  "\<exists>i s'. insertUser ref_lenv \<lparr>e_id = 0, e_password = ''pw'', e_nickname = ''ann'', e_headId = 3\<rparr>
       (no_db\<lparr>default_db := Some \<lparr>ru_rows = Some [], ru_last = 0\<rparr>\<rparr>) = (to_int32 i, s') \<and>
     fst (fst (dao_verifyPassword ref_lenv \<lparr>e_id = i, e_password = ''pw'', e_nickname = [], e_headId = 0\<rparr> s'))"
proof -
  have "sqlite_users (lsql ref_lenv) ru_rows" "\<forall>x. lsha256 ref_lenv x \<noteq> []"
    using ref_users_ok by (simp_all add: ref_lenv_def)
  moreover have "accounts ru_rows (no_db\<lparr>default_db := Some \<lparr>ru_rows = Some [], ru_last = 0\<rparr>\<rparr>) []"
    by (simp add: accounts_def no_db_def)
  ultimately obtain i s' where
    "insertUser ref_lenv \<lparr>e_id = 0, e_password = ''pw'', e_nickname = ''ann'', e_headId = 3\<rparr>
       (no_db\<lparr>default_db := Some \<lparr>ru_rows = Some [], ru_last = 0\<rparr>\<rparr>) = (to_int32 i, s')"
    "\<And>f. e_id f = i \<and> e_password f = ''pw'' \<longrightarrow> dao_verifyPassword ref_lenv f s' =
        ((True, f\<lparr>e_nickname := ''ann'', e_headId := to_int32 3\<rparr>), s')"
    using legacy_accounts [of ref_lenv ru_rows "no_db\<lparr>default_db := Some \<lparr>ru_rows = Some [], ru_last = 0\<rparr>\<rparr>" "[]"
        "\<lparr>e_id = 0, e_password = ''pw'', e_nickname = ''ann'', e_headId = 3\<rparr>"] by auto
  then show ?thesis by fastforce
qed

end
