(* ===== verification/LegacyNetwork.thy ===== *)
theory LegacyNetwork
  imports LegacyCodec LegacyMsgBuilder LegacyUserDao
begin

text \<open>
  The connections of the old server: \<^verbatim>\<open>legacy/original-server/NetworkThread.cpp\<close>. A connection has a
  thread, which runs a loop: it takes the bytes that came, cuts them into messages, which it puts
  into its queue, and handles the first message of the queue. The main thread puts messages for
  the client into the same queue. What a thread wants of the main thread it emits as a signal.

  One pass of the loop is two steps, \<open>run_top\<close> and \<open>run_pop\<close>, since the main thread can get at the queue
  in between. A thread is known by its number.
\<close>

section \<open>The environment\<close>

text \<open>Qt's conversions, besides those of \<open>lenv\<close>: of objects, and of the bytes received to text.\<close>

record 'db net_env = "'db lenv" +
  q_to_json :: "object \<Rightarrow> string"
  q_from_json :: "string \<Rightarrow> json option"
  q_fromUtf8 :: "u8 list \<Rightarrow> string"

section \<open>State\<close>

datatype run_phase = AtTop | AtPop | Done

text \<open>
  \<open>socket_in\<close> are the bytes the socket holds for reading, \<open>socket_out\<close> those that were written to it,
  \<open>nt_phase\<close> where the thread is in its loop.
\<close>

record NetWorkThread =
  socket_in :: "u8 list"
  socket_out :: "u8 list"
  msgQueue :: "string list"
  inputBuffer :: "u8 list"
  isDisconnected :: bool
  isRead :: bool
  nt_user :: UserData
  nt_phase :: run_phase

definition new_NetWorkThread :: NetWorkThread where
  "new_NetWorkThread =
     \<lparr>socket_in = [], socket_out = [], msgQueue = [], inputBuffer = [], isDisconnected = False,
      isRead = False, nt_user = new_UserData, nt_phase = AtTop\<rparr>"

datatype lsignal =
    LoginSuccessSignal UserData nat
  | SendMsgSignal UserData UserData string
  | UserOfflineSignal UserData
  | CreateGroupSignal string nat
  | SearchGroupSignal nat
  | JoinGroupSignal nat int
  | LeaveGroupSignal nat int
  | SendGroupMsgSignal nat UserData int string

text \<open>What a thread works on: its own state, the accounts, and the signals it emits.\<close>

record 'db nworld =
  nt :: NetWorkThread
  dao :: "'db legacy_db"
  posted :: "lsignal list"

definition emit :: "lsignal \<Rightarrow> 'db nworld \<Rightarrow> 'db nworld" where
  "emit sg w = w\<lparr>posted := posted w @ [sg]\<rparr>"

definition sendJson :: "string \<Rightarrow> 'db nworld \<Rightarrow> 'db nworld" where
  "sendJson jsonStr w =
     w\<lparr>nt := (nt w)\<lparr>socket_out := socket_out (nt w) @ encodeFrame bytes_of_string jsonStr\<rparr>\<rparr>"

section \<open>Messages from the main thread\<close>

definition push_msg :: "string \<Rightarrow> NetWorkThread \<Rightarrow> NetWorkThread" where
  "push_msg m t = t\<lparr>msgQueue := msgQueue t @ [m]\<rparr>"

definition addLoginSuccessInfo ::
  "('db, 'e) net_env_scheme \<Rightarrow> UserData \<Rightarrow> UserData list \<Rightarrow> NetWorkThread \<Rightarrow> NetWorkThread" where
  "addLoginSuccessInfo E user friends t = push_msg (buildLoginSucReturnMsg (q_to_json E) user friends) t"

definition addReceiveMsgInfo ::
  "('db, 'e) net_env_scheme \<Rightarrow> UserData \<Rightarrow> UserData \<Rightarrow> string \<Rightarrow> NetWorkThread \<Rightarrow> NetWorkThread" where
  "addReceiveMsgInfo E from to msg t = push_msg (buildReceiveMsg (q_to_json E) from to msg) t"

definition addUserOnlineInfo :: "('db, 'e) net_env_scheme \<Rightarrow> UserData \<Rightarrow> NetWorkThread \<Rightarrow> NetWorkThread" where
  "addUserOnlineInfo E user t = push_msg (buildUserOnline (q_to_json E) user) t"

definition addUserOfflineInfo :: "('db, 'e) net_env_scheme \<Rightarrow> UserData \<Rightarrow> NetWorkThread \<Rightarrow> NetWorkThread" where
  "addUserOfflineInfo E user t = push_msg (buildUserOffline (q_to_json E) user) t"

definition addCreateGroupReturnInfo :: "('db, 'e) net_env_scheme \<Rightarrow> int \<Rightarrow> NetWorkThread \<Rightarrow> NetWorkThread" where
  "addCreateGroupReturnInfo E groupId t = push_msg (buildCreateGroupReturn (q_to_json E) groupId) t"

definition addSearchGroupReturnInfo ::
  "('db, 'e) net_env_scheme \<Rightarrow> int list \<Rightarrow> string list \<Rightarrow> NetWorkThread \<Rightarrow> NetWorkThread" where
  "addSearchGroupReturnInfo E ids names t = push_msg (buildSearchGroupReturn (q_to_json E) ids names) t"

definition addJoinGroupReturnInfo ::
  "('db, 'e) net_env_scheme \<Rightarrow> int \<Rightarrow> UserData list \<Rightarrow> NetWorkThread \<Rightarrow> NetWorkThread" where
  "addJoinGroupReturnInfo E groupId groupFriends t =
     push_msg (buildJoinGroupReturn (q_to_json E) groupId groupFriends) t"

definition addUserJoinGroupInfo ::
  "('db, 'e) net_env_scheme \<Rightarrow> UserData \<Rightarrow> int \<Rightarrow> NetWorkThread \<Rightarrow> NetWorkThread" where
  "addUserJoinGroupInfo E user groupId t = push_msg (buildUserJoinGroup (q_to_json E) user groupId) t"

definition addUserLeaveGroupInfo ::
  "('db, 'e) net_env_scheme \<Rightarrow> UserData \<Rightarrow> int \<Rightarrow> NetWorkThread \<Rightarrow> NetWorkThread" where
  "addUserLeaveGroupInfo E user groupId t = push_msg (buildUserLeaveGroup (q_to_json E) user groupId) t"

definition addReceiveGroupMsgInfo ::
  "('db, 'e) net_env_scheme \<Rightarrow> UserData \<Rightarrow> int \<Rightarrow> string \<Rightarrow> NetWorkThread \<Rightarrow> NetWorkThread" where
  "addReceiveGroupMsgInfo E to from msg t = push_msg (buildReceiveGroupMsg (q_to_json E) from to msg) t"

definition readyRead :: "NetWorkThread \<Rightarrow> NetWorkThread" where
  "readyRead t = t\<lparr>isRead := True\<rparr>"

definition disconnected :: "NetWorkThread \<Rightarrow> NetWorkThread" where
  "disconnected t = t\<lparr>isDisconnected := True\<rparr>"

section \<open>Handling a message\<close>

definition dealRegisterUser :: "('db, 'e) net_env_scheme \<Rightarrow> string \<Rightarrow> 'db nworld \<Rightarrow> 'db nworld" where
  "dealRegisterUser E jsonStr w =
     (let data = parseRegisterUserMsg (q_from_json E) jsonStr;
          ue = \<lparr>e_id = 0, e_password = l_password data, e_nickname = l_nickname data, e_headId = l_headId data\<rparr>;
          (i, d) = insertUser E ue (UserDao_getInstance E (dao w))
      in sendJson (buildRegisterUserReturnMsg (q_to_json E) i) (w\<lparr>dao := d\<rparr>))"

definition dealLogin :: "('db, 'e) net_env_scheme \<Rightarrow> nat \<Rightarrow> string \<Rightarrow> 'db nworld \<Rightarrow> 'db nworld" where
  "dealLogin E self jsonStr w =
     (let data = parseLoginMsg (q_from_json E) jsonStr;
          ue = \<lparr>e_id = l_id data, e_password = l_password data, e_nickname = [], e_headId = 0\<rparr>;
          ((ok, ue), d) = dao_verifyPassword E ue (UserDao_getInstance E (dao w));
          w = w\<lparr>dao := d\<rparr>
      in if ok then
           let data = data\<lparr>l_nickname := e_nickname ue, l_headId := e_headId ue\<rparr>
           in emit (LoginSuccessSignal data self) (w\<lparr>nt := (nt w)\<lparr>nt_user := data\<rparr>\<rparr>)
         else sendJson (buildLoginLoseReturnMsg (q_to_json E)) w)"

definition dealSendMsg :: "('db, 'e) net_env_scheme \<Rightarrow> string \<Rightarrow> 'db nworld \<Rightarrow> 'db nworld" where
  "dealSendMsg E jsonStr w =
     (let (msg, from, to) = parseSendMsg (q_from_json E) jsonStr new_UserData new_UserData
      in emit (SendMsgSignal from to msg) w)"

definition dealCreateGroup :: "('db, 'e) net_env_scheme \<Rightarrow> nat \<Rightarrow> string \<Rightarrow> 'db nworld \<Rightarrow> 'db nworld" where
  "dealCreateGroup E self jsonStr w =
     (let name = parseCreateGroup (q_from_json E) jsonStr in emit (CreateGroupSignal name self) w)"

definition dealSearchGroup :: "nat \<Rightarrow> string \<Rightarrow> 'db nworld \<Rightarrow> 'db nworld" where
  "dealSearchGroup self jsonStr w = emit (SearchGroupSignal self) w"

definition dealJoinGroup :: "('db, 'e) net_env_scheme \<Rightarrow> nat \<Rightarrow> string \<Rightarrow> 'db nworld \<Rightarrow> 'db nworld" where
  "dealJoinGroup E self jsonStr w =
     (let (user, groupId) = parseJoinGroup (q_from_json E) jsonStr in emit (JoinGroupSignal self groupId) w)"

definition dealLeaveGroup :: "('db, 'e) net_env_scheme \<Rightarrow> nat \<Rightarrow> string \<Rightarrow> 'db nworld \<Rightarrow> 'db nworld" where
  "dealLeaveGroup E self jsonStr w =
     (let (groupId, user) = parseLeaveGroup (q_from_json E) jsonStr in emit (LeaveGroupSignal self groupId) w)"

definition dealSendGroupMsg :: "('db, 'e) net_env_scheme \<Rightarrow> nat \<Rightarrow> string \<Rightarrow> 'db nworld \<Rightarrow> 'db nworld" where
  "dealSendGroupMsg E self jsonStr w =
     (let (msg, user, groupId) = parseSendGroupMsg (q_from_json E) jsonStr
      in emit (SendGroupMsgSignal self user groupId msg) w)"

text \<open>The messages of the main thread are sent to the client as they are.\<close>

definition dealLoginSuc :: "string \<Rightarrow> 'db nworld \<Rightarrow> 'db nworld" where
  "dealLoginSuc jsonStr w = sendJson jsonStr w"

definition dealReceiveMsg :: "string \<Rightarrow> 'db nworld \<Rightarrow> 'db nworld" where
  "dealReceiveMsg jsonStr w = sendJson jsonStr w"

definition dealUserOnline :: "string \<Rightarrow> 'db nworld \<Rightarrow> 'db nworld" where
  "dealUserOnline jsonStr w = sendJson jsonStr w"

definition dealUserOffline :: "string \<Rightarrow> 'db nworld \<Rightarrow> 'db nworld" where
  "dealUserOffline jsonStr w = sendJson jsonStr w"

definition dealCreateGroupReturn :: "string \<Rightarrow> 'db nworld \<Rightarrow> 'db nworld" where
  "dealCreateGroupReturn jsonStr w = sendJson jsonStr w"

definition dealSearchGroupReturn :: "string \<Rightarrow> 'db nworld \<Rightarrow> 'db nworld" where
  "dealSearchGroupReturn jsonStr w = sendJson jsonStr w"

definition dealJoinGroupReturn :: "string \<Rightarrow> 'db nworld \<Rightarrow> 'db nworld" where
  "dealJoinGroupReturn jsonStr w = sendJson jsonStr w"

definition dealUserJoinGroup :: "string \<Rightarrow> 'db nworld \<Rightarrow> 'db nworld" where
  "dealUserJoinGroup jsonStr w = sendJson jsonStr w"

definition dealUserLeaveGroup :: "string \<Rightarrow> 'db nworld \<Rightarrow> 'db nworld" where
  "dealUserLeaveGroup jsonStr w = sendJson jsonStr w"

definition dealReceiveGroupMsg :: "string \<Rightarrow> 'db nworld \<Rightarrow> 'db nworld" where
  "dealReceiveGroupMsg jsonStr w = sendJson jsonStr w"

definition deal :: "('db, 'e) net_env_scheme \<Rightarrow> nat \<Rightarrow> string \<Rightarrow> 'db nworld \<Rightarrow> 'db nworld" where
  "deal E self data w =
     (let ty = msgType (q_from_json E) data
      in if ty = legacy_value registerUser then dealRegisterUser E data w
         else if ty = legacy_value login then dealLogin E self data w
         else if ty = legacy_value loginSucReturn then dealLoginSuc data w
         else if ty = legacy_value sendMsg then dealSendMsg E data w
         else if ty = legacy_value receiveMsg then dealReceiveMsg data w
         else if ty = legacy_value userOnline then dealUserOnline data w
         else if ty = legacy_value userOffline then dealUserOffline data w
         else if ty = legacy_value createGroup then dealCreateGroup E self data w
         else if ty = legacy_value createGroupReturn then dealCreateGroupReturn data w
         else if ty = legacy_value searchGroup then dealSearchGroup self data w
         else if ty = legacy_value searchGroupReturn then dealSearchGroupReturn data w
         else if ty = legacy_value joinGroup then dealJoinGroup E self data w
         else if ty = legacy_value joinGroupReturn then dealJoinGroupReturn data w
         else if ty = legacy_value userJoinGroup then dealUserJoinGroup data w
         else if ty = legacy_value leaveGroup then dealLeaveGroup E self data w
         else if ty = legacy_value userLeaveGroup then dealUserLeaveGroup data w
         else if ty = legacy_value sendGroupMsg then dealSendGroupMsg E self data w
         else if ty = legacy_value receiveGroupMsg then dealReceiveGroupMsg data w
         else sendJson (buildErrorMsg (q_to_json E) 400 ''invalid message type'') w)"

section \<open>The loop\<close>

text \<open>
  The top of the loop, up to the point where the queue is locked to take a message. Reading takes
  all bytes the socket holds, so that its loop runs at most once.
\<close>

definition read_frames :: "('db, 'e) net_env_scheme \<Rightarrow> NetWorkThread \<Rightarrow> NetWorkThread" where
  "read_frames E t =
     (if socket_in t = [] then t
      else
        let (frames, rest) = decodeFrames (q_fromUtf8 E) (inputBuffer t @ socket_in t)
        in t\<lparr>socket_in := [], inputBuffer := rest, msgQueue := msgQueue t @ frames\<rparr>)"

definition run_top :: "('db, 'e) net_env_scheme \<Rightarrow> 'db nworld \<Rightarrow> 'db nworld" where
  "run_top E w =
     (if isDisconnected (nt w) then
        emit (UserOfflineSignal (nt_user (nt w))) (w\<lparr>nt := (nt w)\<lparr>nt_phase := Done\<rparr>\<rparr>)
      else
        let t = (if isRead (nt w) then read_frames E ((nt w)\<lparr>isRead := False\<rparr>) else nt w)
        in w\<lparr>nt := t\<lparr>nt_phase := AtPop\<rparr>\<rparr>)"

definition run_pop :: "('db, 'e) net_env_scheme \<Rightarrow> nat \<Rightarrow> 'db nworld \<Rightarrow> 'db nworld" where
  "run_pop E self w =
     (let w = w\<lparr>nt := (nt w)\<lparr>nt_phase := AtTop\<rparr>\<rparr>
      in case msgQueue (nt w) of
           [] \<Rightarrow> w
         | data # q \<Rightarrow> deal E self data (w\<lparr>nt := (nt w)\<lparr>msgQueue := q\<rparr>\<rparr>))"

lemmas deal_defs = deal_def dealRegisterUser_def dealLogin_def dealLoginSuc_def dealSendMsg_def dealReceiveMsg_def
  dealUserOnline_def dealUserOffline_def dealCreateGroup_def dealCreateGroupReturn_def dealSearchGroup_def
  dealSearchGroupReturn_def dealJoinGroup_def dealJoinGroupReturn_def dealUserJoinGroup_def dealLeaveGroup_def
  dealUserLeaveGroup_def dealSendGroupMsg_def dealReceiveGroupMsg_def

lemmas add_defs = addLoginSuccessInfo_def addReceiveMsgInfo_def addUserOnlineInfo_def addUserOfflineInfo_def
  addCreateGroupReturnInfo_def addSearchGroupReturnInfo_def addJoinGroupReturnInfo_def addUserJoinGroupInfo_def
  addUserLeaveGroupInfo_def addReceiveGroupMsgInfo_def

end
