(* ===== verification/LegacyMessageDao.thy ===== *)
theory LegacyMessageDao
  imports LegacyUserDao
begin

text \<open>
  The messages and channels of the old server: \<^verbatim>\<open>legacy/original-server/MessageDao.cpp\<close>. The
  constructor opens a connection of its own, but the queries name no connection and so run on the
  default one.

  Shown here: none of the operations does anything as long as the default connection lacks the
  tables, and the tables are only created if it is open when the object is made.
\<close>

section \<open>Records\<close>

record MessageRecord =
  r_id :: int
  r_fromId :: int
  r_toId :: int
  r_content :: string
  r_contentType :: string
  r_channelId :: int
  r_createdAt :: int

record ChannelRecord =
  c_id :: int
  c_name :: string
  c_ownerId :: int
  c_createdAt :: int

text \<open>\<open>toLongLong\<close>\<close>

definition col_int64 :: "sqlval list \<Rightarrow> nat \<Rightarrow> int" where
  "col_int64 row i = (case row ! i of SqlInt n \<Rightarrow> to_int64 n | SqlText _ \<Rightarrow> 0)"

definition message_record :: "sqlval list \<Rightarrow> MessageRecord" where
  "message_record row =
     \<lparr>r_id = col_int row 0, r_fromId = col_int row 1, r_toId = col_int row 2, r_content = col_text row 3,
      r_contentType = col_text row 4, r_channelId = col_int row 5, r_createdAt = col_int64 row 6\<rparr>"

definition channel_record :: "sqlval list \<Rightarrow> ChannelRecord" where
  "channel_record row =
     \<lparr>c_id = col_int row 0, c_name = col_text row 1, c_ownerId = col_int row 2, c_createdAt = col_int64 row 3\<rparr>"

section \<open>Statements\<close>

definition pm_insert_sql :: string where
  "pm_insert_sql =
     ''INSERT INTO private_messages(from_id, to_id, content, content_type, created_at) '' @
     ''VALUES(?, ?, ?, '' @ lit ''text'' @ '', ?)''"

definition cm_insert_sql :: string where
  "cm_insert_sql =
     ''INSERT INTO channel_messages(channel_id, from_id, content, content_type, created_at) '' @
     ''VALUES(?, ?, ?, '' @ lit ''text'' @ '', ?)''"

definition pm_history_sql :: string where
  "pm_history_sql =
     ''SELECT id, from_id, to_id, content, content_type, 0, created_at '' @
     ''FROM private_messages '' @
     ''WHERE (from_id = ? AND to_id = ?) OR (from_id = ? AND to_id = ?) '' @
     ''ORDER BY created_at DESC LIMIT ? OFFSET ?''"

definition cm_history_sql :: string where
  "cm_history_sql =
     ''SELECT id, from_id, 0, content, content_type, channel_id, created_at '' @
     ''FROM channel_messages '' @
     ''WHERE channel_id = ? '' @
     ''ORDER BY created_at DESC LIMIT ? OFFSET ?''"

definition pm_offline_sql :: string where
  "pm_offline_sql =
     ''SELECT id, from_id, to_id, content, content_type, 0, created_at '' @
     ''FROM private_messages WHERE to_id = ? AND is_read = 0 ORDER BY created_at ASC''"

definition pm_read_sql :: string where
  "pm_read_sql = ''UPDATE private_messages SET is_read = 1 WHERE to_id = ?''"

definition max_channel_sql :: string where
  "max_channel_sql = ''SELECT COALESCE(MAX(id), 0) FROM channels''"

definition channel_insert_sql :: string where
  "channel_insert_sql = ''INSERT OR IGNORE INTO channels(id, name, owner_id, created_at) VALUES(?, ?, ?, ?)''"

definition channel_list_sql :: string where
  "channel_list_sql = ''SELECT id, name, owner_id, created_at FROM channels ORDER BY id''"

definition member_insert_sql :: string where
  "member_insert_sql =
     ''INSERT OR REPLACE INTO channel_members(channel_id, user_id, role, joined_at) '' @
     ''VALUES(?, ?, ?, COALESCE((SELECT joined_at FROM channel_members WHERE channel_id = ? AND user_id = ?), ?))''"

definition member_delete_sql :: string where
  "member_delete_sql = ''DELETE FROM channel_members WHERE channel_id = ? AND user_id = ?''"

definition member_list_sql :: string where
  "member_list_sql = ''SELECT user_id FROM channel_members WHERE channel_id = ? ORDER BY joined_at''"

definition create_tables_sql :: "string list" where
  "create_tables_sql =
     [''CREATE TABLE IF NOT EXISTS private_messages('' @
      ''  id           INTEGER PRIMARY KEY AUTOINCREMENT,'' @
      ''  from_id      INTEGER NOT NULL,'' @
      ''  to_id        INTEGER NOT NULL,'' @
      ''  content      TEXT NOT NULL,'' @
      ''  content_type TEXT DEFAULT '' @ lit ''text'' @ '','' @
      ''  is_read      INTEGER DEFAULT 0,'' @
      ''  created_at   INTEGER NOT NULL'' @
      '')'',
      ''CREATE INDEX IF NOT EXISTS idx_pm_from_to ON private_messages(from_id, to_id)'',
      ''CREATE INDEX IF NOT EXISTS idx_pm_created ON private_messages(created_at)'',
      ''CREATE TABLE IF NOT EXISTS channel_messages('' @
      ''  id           INTEGER PRIMARY KEY AUTOINCREMENT,'' @
      ''  channel_id   INTEGER NOT NULL,'' @
      ''  from_id      INTEGER NOT NULL,'' @
      ''  content      TEXT NOT NULL,'' @
      ''  content_type TEXT DEFAULT '' @ lit ''text'' @ '','' @
      ''  created_at   INTEGER NOT NULL'' @
      '')'',
      ''CREATE INDEX IF NOT EXISTS idx_cm_channel ON channel_messages(channel_id)'',
      ''CREATE INDEX IF NOT EXISTS idx_cm_created ON channel_messages(created_at)'',
      ''CREATE TABLE IF NOT EXISTS channels('' @
      ''  id         INTEGER PRIMARY KEY,'' @
      ''  name       TEXT NOT NULL,'' @
      ''  owner_id   INTEGER NOT NULL,'' @
      ''  created_at INTEGER NOT NULL'' @
      '')'',
      ''CREATE TABLE IF NOT EXISTS channel_members('' @
      ''  channel_id INTEGER NOT NULL,'' @
      ''  user_id    INTEGER NOT NULL,'' @
      ''  role       TEXT DEFAULT '' @ lit ''member'' @ '','' @
      ''  muted      INTEGER DEFAULT 0,'' @
      ''  joined_at  INTEGER NOT NULL,'' @
      ''  PRIMARY KEY(channel_id, user_id)'' @
      '')'',
      ''CREATE INDEX IF NOT EXISTS idx_channel_members_user ON channel_members(user_id)'']"

section \<open>Operations\<close>

text \<open>\<open>QDateTime::currentSecsSinceEpoch\<close>\<close>

definition now_secs :: "('db, 'e) lenv_scheme \<Rightarrow> 'db legacy_db \<Rightarrow> int \<times> 'db legacy_db" where
  "now_secs E s = (lclock E (ticks s), s\<lparr>ticks := Suc (ticks s)\<rparr>)"

definition createTables :: "('db, 'e) lenv_scheme \<Rightarrow> 'db legacy_db \<Rightarrow> 'db legacy_db" where
  "createTables E s = fold (q_exec E) create_tables_sql s"

definition new_MessageDao :: "('db, 'e) lenv_scheme \<Rightarrow> 'db legacy_db \<Rightarrow> 'db legacy_db" where
  "new_MessageDao E s =
     (case sq_open (lsql E) ''hhchat.db'' of (ok, db) \<Rightarrow>
        if ok then createTables E (s\<lparr>message_db := Some db\<rparr>) else s)"

definition MessageDao_getInstance :: "('db, 'e) lenv_scheme \<Rightarrow> 'db legacy_db \<Rightarrow> 'db legacy_db" where
  "MessageDao_getInstance E s = (if messageDao s then s else (new_MessageDao E s)\<lparr>messageDao := True\<rparr>)"

definition MessageDao_releaseInstance :: "'db legacy_db \<Rightarrow> 'db legacy_db" where
  "MessageDao_releaseInstance s = (if messageDao s then s\<lparr>message_db := None, messageDao := False\<rparr> else s)"

definition last_rowid :: "('db, 'e) lenv_scheme \<Rightarrow> 'db legacy_db \<Rightarrow> int" where
  "last_rowid E s = (case q_select E last_rowid_sql [] s of [] \<Rightarrow> - 1 | row # _ \<Rightarrow> col_int row 0)"

definition insertPrivateMsg ::
  "('db, 'e) lenv_scheme \<Rightarrow> int \<Rightarrow> int \<Rightarrow> string \<Rightarrow> 'db legacy_db \<Rightarrow> int \<times> 'db legacy_db" where
  "insertPrivateMsg E fromId toId content s =
     (let (t, s) = now_secs E s;
          s = q_run E pm_insert_sql [SqlInt fromId, SqlInt toId, SqlText content, SqlInt t] s
      in (last_rowid E s, s))"

definition insertGroupMsg ::
  "('db, 'e) lenv_scheme \<Rightarrow> int \<Rightarrow> int \<Rightarrow> string \<Rightarrow> 'db legacy_db \<Rightarrow> int \<times> 'db legacy_db" where
  "insertGroupMsg E fromId channelId content s =
     (let (t, s) = now_secs E s;
          s = q_run E cm_insert_sql [SqlInt channelId, SqlInt fromId, SqlText content, SqlInt t] s
      in (last_rowid E s, s))"

definition getPrivateHistory ::
  "('db, 'e) lenv_scheme \<Rightarrow> int \<Rightarrow> int \<Rightarrow> int \<Rightarrow> int \<Rightarrow> 'db legacy_db \<Rightarrow> MessageRecord list" where
  "getPrivateHistory E user1 user2 limit offset s =
     map message_record (q_select E pm_history_sql
       [SqlInt user1, SqlInt user2, SqlInt user2, SqlInt user1, SqlInt limit, SqlInt offset] s)"

definition getChannelHistory ::
  "('db, 'e) lenv_scheme \<Rightarrow> int \<Rightarrow> int \<Rightarrow> int \<Rightarrow> 'db legacy_db \<Rightarrow> MessageRecord list" where
  "getChannelHistory E channelId limit offset s =
     map message_record (q_select E cm_history_sql [SqlInt channelId, SqlInt limit, SqlInt offset] s)"

definition getOfflinePrivateMsgs :: "('db, 'e) lenv_scheme \<Rightarrow> int \<Rightarrow> 'db legacy_db \<Rightarrow> MessageRecord list" where
  "getOfflinePrivateMsgs E userId s = map message_record (q_select E pm_offline_sql [SqlInt userId] s)"

definition markPrivateMessagesRead :: "('db, 'e) lenv_scheme \<Rightarrow> int \<Rightarrow> 'db legacy_db \<Rightarrow> 'db legacy_db" where
  "markPrivateMessagesRead E userId s = q_run E pm_read_sql [SqlInt userId] s"

definition nextChannelId :: "('db, 'e) lenv_scheme \<Rightarrow> int \<Rightarrow> 'db legacy_db \<Rightarrow> int" where
  "nextChannelId E baseId s =
     (case q_select E max_channel_sql [] s of
        [] \<Rightarrow> baseId
      | row # _ \<Rightarrow> max baseId (to_int32 (col_int row 0 + 1)))"

definition addChannelMember ::
  "('db, 'e) lenv_scheme \<Rightarrow> int \<Rightarrow> int \<Rightarrow> string \<Rightarrow> 'db legacy_db \<Rightarrow> 'db legacy_db" where
  "addChannelMember E channelId userId role s =
     (let (t, s) = now_secs E s
      in q_run E member_insert_sql
           [SqlInt channelId, SqlInt userId, SqlText role, SqlInt channelId, SqlInt userId, SqlInt t] s)"

definition createChannel ::
  "('db, 'e) lenv_scheme \<Rightarrow> int \<Rightarrow> string \<Rightarrow> int \<Rightarrow> 'db legacy_db \<Rightarrow> int \<times> 'db legacy_db" where
  "createChannel E channelId name ownerId s =
     (let (t, s) = now_secs E s;
          s = q_run E channel_insert_sql [SqlInt channelId, SqlText name, SqlInt ownerId, SqlInt t] s
      in (channelId, addChannelMember E channelId ownerId ''owner'' s))"

definition listChannels :: "('db, 'e) lenv_scheme \<Rightarrow> 'db legacy_db \<Rightarrow> ChannelRecord list" where
  "listChannels E s = map channel_record (q_select E channel_list_sql [] s)"

definition removeChannelMember :: "('db, 'e) lenv_scheme \<Rightarrow> int \<Rightarrow> int \<Rightarrow> 'db legacy_db \<Rightarrow> 'db legacy_db" where
  "removeChannelMember E channelId userId s = q_run E member_delete_sql [SqlInt channelId, SqlInt userId] s"

definition getChannelMembers :: "('db, 'e) lenv_scheme \<Rightarrow> int \<Rightarrow> 'db legacy_db \<Rightarrow> int list" where
  "getChannelMembers E channelId s = map (\<lambda>row. col_int row 0) (q_select E member_list_sql [SqlInt channelId] s)"

section \<open>Without the tables\<close>

definition message_selects :: "string list" where
  "message_selects = [pm_history_sql, cm_history_sql, pm_offline_sql, max_channel_sql, channel_list_sql, member_list_sql]"

definition message_updates :: "string list" where
  "message_updates = [pm_insert_sql, cm_insert_sql, pm_read_sql, channel_insert_sql, member_insert_sql, member_delete_sql]"

text \<open>
  The file of the accounts has none of the tables for messages and channels, so that a statement on
  these cannot be prepared; and the statements on accounts do not create them.
\<close>

definition lacks_message_tables :: "'db sqlite \<Rightarrow> ('db \<Rightarrow> bool) \<Rightarrow> bool" where
  "lacks_message_tables eng lacks \<longleftrightarrow> lacks (snd (sq_open eng ''hhuser.db'')) \<and>
     (\<forall>db. lacks db \<longrightarrow>
        (\<forall>sql \<in> set message_selects. \<forall>ps. sq_select eng sql ps db = None) \<and>
        (\<forall>sql \<in> set message_updates. \<forall>ps. sq_run eng sql ps db = None) \<and>
        lacks (snd (sq_exec eng user_create_sql db)) \<and>
        (\<forall>sql \<in> {user_seed_sql, user_insert_sql, user_upgrade_sql}. \<forall>ps ok k db'.
           sq_run eng sql ps db = Some (ok, k, db') \<longrightarrow> lacks db'))"

text \<open>The message store has been made, and the default connection, if it is open, has no tables for it.\<close>

definition stores_nothing :: "('db \<Rightarrow> bool) \<Rightarrow> 'db legacy_db \<Rightarrow> bool" where
  "stores_nothing lacks d \<longleftrightarrow> messageDao d \<and> (\<forall>db. default_db d = Some db \<longrightarrow> lacks db)"

lemma lacksD:
  assumes "lacks_message_tables eng lacks"
  shows "lacks (snd (sq_open eng ''hhuser.db''))"
    "lacks db \<Longrightarrow> sql \<in> set message_selects \<Longrightarrow> sq_select eng sql ps db = None"
    "lacks db \<Longrightarrow> sql \<in> set message_updates \<Longrightarrow> sq_run eng sql ps db = None"
    "lacks db \<Longrightarrow> lacks (snd (sq_exec eng user_create_sql db))"
    "lacks db \<Longrightarrow> sql \<in> {user_seed_sql, user_insert_sql, user_upgrade_sql} \<Longrightarrow>
       sq_run eng sql ps db = Some (ok, k, db') \<Longrightarrow> lacks db'"
  using assms unfolding lacks_message_tables_def by blast+

lemma silent_cases:
  assumes "stores_nothing lacks d"
  obtains "default_db d = None" | db where "default_db d = Some db" "lacks db"
  using assms by (cases "default_db d") (auto simp: stores_nothing_def)

lemma silent_select:
  assumes "lacks_message_tables (lsql E) lacks" "stores_nothing lacks d" "sql \<in> set message_selects"
  shows "q_select E sql ps d = []"
  using assms(2) by (cases rule: silent_cases) (simp_all add: q_select_def lacksD(2) [OF assms(1) _ assms(3)])

lemma silent_update:
  assumes "lacks_message_tables (lsql E) lacks" "stores_nothing lacks d" "sql \<in> set message_updates"
  shows "q_run E sql ps d = d"
  using assms(2) by (cases rule: silent_cases) (simp_all add: q_run_def lacksD(3) [OF assms(1) _ assms(3)])

lemma silent_account:
  assumes "lacks_message_tables (lsql E) lacks" "stores_nothing lacks d"
    "sql \<in> {user_seed_sql, user_insert_sql, user_upgrade_sql}"
  shows "stores_nothing lacks (q_run E sql ps d)"
  using assms(2)
proof (cases rule: silent_cases)
  case (2 db)
  then show ?thesis using assms(2) lacksD(5) [OF assms(1) 2(2) assms(3)]
    by (auto simp: q_run_def stores_nothing_def split: option.split)
qed (simp add: q_run_def assms(2))

lemma silent_other [simp]:
  "stores_nothing lacks (d\<lparr>draws := n\<rparr>) = stores_nothing lacks d"
  "stores_nothing lacks (d\<lparr>ticks := n\<rparr>) = stores_nothing lacks d"
  "stores_nothing lacks (d\<lparr>userDao := b\<rparr>) = stores_nothing lacks d"
  by (simp_all add: stores_nothing_def)

lemma silent_hash: "pw_hash E p d = (h, d') \<Longrightarrow> stores_nothing lacks d' = stores_nothing lacks d"
  by (auto simp: pw_hash_def generateSalt_def)

lemma silent_now: "now_secs E d = (t, d') \<Longrightarrow> stores_nothing lacks d' = stores_nothing lacks d"
  by (auto simp: now_secs_def)

text \<open>The tables are not created when the message store is made before the accounts are opened.\<close>

lemma createTables_closed: "default_db d = None \<Longrightarrow> createTables E d = d"
proof -
  assume "default_db d = None"
  then have "fold (q_exec E) xs d = d" for xs by (induction xs) (simp_all add: q_exec_def)
  then show ?thesis by (simp add: createTables_def)
qed

lemma silent_made: "stores_nothing lacks (MessageDao_getInstance E no_db)"
  by (auto simp: MessageDao_getInstance_def new_MessageDao_def stores_nothing_def no_db_def createTables_closed
      split: prod.split)

lemma silent_UserDao:
  assumes "lacks_message_tables (lsql E) lacks" "stores_nothing lacks d"
  shows "stores_nothing lacks (UserDao_getInstance E d)"
proof -
  have "stores_nothing lacks (new_UserDao E d)"
  proof (cases "sq_open (lsql E) ''hhuser.db''")
    case (Pair ok db)
    then have "lacks (snd (sq_exec (lsql E) user_create_sql db))"
      using lacksD(1,4) [OF assms(1)] by simp
    then have "stores_nothing lacks (q_exec E user_create_sql (d\<lparr>default_db := Some db\<rparr>))"
      using assms(2) by (simp add: q_exec_def stores_nothing_def)
    then show ?thesis
      using assms Pair silent_account [OF assms(1)]
      by (auto simp: new_UserDao_def Let_def silent_hash split: prod.split)
  qed
  then show ?thesis using assms(2) by (simp add: UserDao_getInstance_def)
qed

lemma silent_insertUser:
  assumes "lacks_message_tables (lsql E) lacks" "stores_nothing lacks d"
  shows "stores_nothing lacks (snd (insertUser E e d))"
  using silent_account [OF assms(1)] assms(2) by (auto simp: insertUser_def Let_def silent_hash split: prod.split)

lemma silent_verify_rows:
  assumes "lacks_message_tables (lsql E) lacks" "stores_nothing lacks d"
  shows "stores_nothing lacks (snd (verify_rows E e rows d))"
  using assms(2)
proof (induction rows arbitrary: d)
  case (Cons row rows)
  then show ?case
    using silent_account [OF assms(1)] silent_hash [of E "e_password e" d] by (auto simp: Let_def split: prod.split)
qed simp

lemma silent_messages:
  assumes "lacks_message_tables (lsql E) lacks" "stores_nothing lacks d"
  shows "stores_nothing lacks (snd (insertPrivateMsg E a b m d))" "stores_nothing lacks (snd (insertGroupMsg E a b m d))"
    "stores_nothing lacks (markPrivateMessagesRead E a d)" "stores_nothing lacks (addChannelMember E a b r d)"
    "stores_nothing lacks (snd (createChannel E a n b d))" "stores_nothing lacks (removeChannelMember E a b d)"
  using assms silent_update [OF assms(1)]
  by (auto simp: insertPrivateMsg_def insertGroupMsg_def markPrivateMessagesRead_def addChannelMember_def createChannel_def
      removeChannelMember_def Let_def silent_now message_updates_def split: prod.split)

lemma ref_lacks_messages: "lacks_message_tables ref_users_engine (\<lambda>_. True)"
proof -
  have "sql \<noteq> last_rowid_sql \<and> sql \<noteq> user_password_sql \<and> sql \<noteq> user_by_id_sql" if "sql \<in> set message_selects" for sql
    using that by (auto simp: message_selects_def pm_history_sql_def cm_history_sql_def pm_offline_sql_def
        max_channel_sql_def channel_list_sql_def member_list_sql_def last_rowid_sql_def user_password_sql_def
        user_by_id_sql_def)
  moreover have "sql \<noteq> user_seed_sql \<and> sql \<noteq> user_insert_sql \<and> sql \<noteq> user_upgrade_sql"
    if "sql \<in> set message_updates" for sql
    using that by (auto simp: message_updates_def pm_insert_sql_def cm_insert_sql_def pm_read_sql_def
        channel_insert_sql_def member_insert_sql_def member_delete_sql_def user_seed_sql_def user_insert_sql_def
        user_upgrade_sql_def)
  ultimately show ?thesis
    by (auto simp: lacks_message_tables_def ref_users_engine_def ref_users_select_def ref_users_run_def
        split: option.split list.split sqlval.split)
qed

end
