(* ===== verification/LegacyServer.thy ===== *)
theory LegacyServer
  imports LegacyNetwork LegacyMessageDao
begin

text \<open>
  The main thread of the old server: \<^verbatim>\<open>legacy/original-server/MainWindow.cpp\<close>. It accepts connections,
  starts their threads, and handles the signals of the threads one after the other, in the order
  in which they were emitted. What it shows and logs is in \<open>LegacyLog\<close>.

  \<open>lserver\<close> is the state of the process, \<open>levent\<close> what can happen in it: connections and bytes arrive,
  a thread makes a step, the main thread handles a signal. \<open>lreach\<close> are the states the process can
  get into.

  Shown here: the tables of users and groups only refer to threads that exist; a private message
  reaches its recipient under whatever sender it names; and nothing is ever stored.
\<close>

section \<open>State\<close>

record GroupKey =
  gk_groupId :: int
  gk_name :: string

definition GroupKey_less :: "GroupKey \<Rightarrow> GroupKey \<Rightarrow> bool" where
  "GroupKey_less a b \<longleftrightarrow> gk_groupId a < gk_groupId b"

text \<open>The two \<open>std::map\<close>s are the lists of their entries, in order.\<close>

record 'db lserver =
  lthreads :: "NetWorkThread list"
  signals :: "lsignal list"
  ldb :: "'db legacy_db"
  usersOnline :: "(UserData \<times> nat) list"
  createGroupId :: int
  activeConnections :: int
  lgroups :: "(GroupKey \<times> nat list) list"

text \<open>\<open>usersOnline.count\<close>, \<open>[]\<close>, \<open>insert\<close> and \<open>erase\<close>: users are the same if their numbers are.\<close>

definition same_user :: "UserData \<Rightarrow> UserData \<Rightarrow> bool" where
  "same_user a b \<longleftrightarrow> \<not> UserData_less a b \<and> \<not> UserData_less b a"

definition users_find :: "UserData \<Rightarrow> (UserData \<times> nat) list \<Rightarrow> nat option" where
  "users_find u us = map_option snd (find (\<lambda>(v, _). same_user u v) us)"

fun users_insert :: "UserData \<Rightarrow> nat \<Rightarrow> (UserData \<times> nat) list \<Rightarrow> (UserData \<times> nat) list" where
  "users_insert u t [] = [(u, t)]"
| "users_insert u t ((v, t') # us) =
     (if UserData_less u v then (u, t) # (v, t') # us
      else if UserData_less v u then (v, t') # users_insert u t us
      else (v, t') # us)"

definition users_erase :: "UserData \<Rightarrow> (UserData \<times> nat) list \<Rightarrow> (UserData \<times> nat) list" where
  "users_erase u us = filter (\<lambda>(v, _). \<not> same_user u v) us"

text \<open>\<open>groups[gk]\<close> as a value, empty for a new key, and assigned to; an existing key stays as it is.\<close>

definition groups_get :: "GroupKey \<Rightarrow> (GroupKey \<times> nat list) list \<Rightarrow> nat list" where
  "groups_get k gs = (case find (\<lambda>(k', _). gk_groupId k' = gk_groupId k) gs of None \<Rightarrow> [] | Some (_, ms) \<Rightarrow> ms)"

fun groups_put :: "GroupKey \<Rightarrow> nat list \<Rightarrow> (GroupKey \<times> nat list) list \<Rightarrow> (GroupKey \<times> nat list) list" where
  "groups_put k ms [] = [(k, ms)]"
| "groups_put k ms ((k', ms') # gs) =
     (if GroupKey_less k k' then (k, ms) # (k', ms') # gs
      else if GroupKey_less k' k then (k', ms') # groups_put k ms gs
      else (k', ms) # gs)"

definition tell :: "(NetWorkThread \<Rightarrow> NetWorkThread) \<Rightarrow> nat \<Rightarrow> 'db lserver \<Rightarrow> 'db lserver" where
  "tell f i s = s\<lparr>lthreads := (lthreads s)[i := f (lthreads s ! i)]\<rparr>"

definition getUserData :: "nat \<Rightarrow> 'db lserver \<Rightarrow> UserData" where
  "getUserData i s = nt_user (lthreads s ! i)"

text \<open>\<open>MessageDao::getInstance()\<close>, and a call on it that changes the store.\<close>

definition mdao :: "('db, 'e) net_env_scheme \<Rightarrow> 'db lserver \<Rightarrow> 'db lserver" where
  "mdao E s = s\<lparr>ldb := MessageDao_getInstance E (ldb s)\<rparr>"

definition on_mdao ::
  "('db, 'e) net_env_scheme \<Rightarrow> ('db legacy_db \<Rightarrow> 'db legacy_db) \<Rightarrow> 'db lserver \<Rightarrow> 'db lserver" where
  "on_mdao E f s = (let s = mdao E s in s\<lparr>ldb := f (ldb s)\<rparr>)"

section \<open>The slots\<close>

definition new_MainWindow :: "('db, 'e) net_env_scheme \<Rightarrow> 'db lserver" where
  "new_MainWindow E =
     (let s = mdao E \<lparr>lthreads = [], signals = [], ldb = no_db, usersOnline = [], createGroupId = 200000,
            activeConnections = 0, lgroups = []\<rparr>
      in s\<lparr>createGroupId := nextChannelId E (createGroupId s) (ldb s)\<rparr>)"

definition newConnection :: "'db lserver \<Rightarrow> 'db lserver" where
  "newConnection s =
     s\<lparr>activeConnections := to_int32 (activeConnections s + 1), lthreads := lthreads s @ [new_NetWorkThread]\<rparr>"

definition loginSuccess :: "('db, 'e) net_env_scheme \<Rightarrow> UserData \<Rightarrow> nat \<Rightarrow> 'db lserver \<Rightarrow> 'db lserver" where
  "loginSuccess E user thread s =
     (if users_find user (usersOnline s) \<noteq> None then s
      else
        let data = map fst (usersOnline s);
            s = fold (\<lambda>(_, t). tell (addUserOnlineInfo E user) t) (usersOnline s) s;
            s = tell (addLoginSuccessInfo E user data) thread s;
            s = s\<lparr>usersOnline := users_insert user thread (usersOnline s)\<rparr>;
            s = mdao E s;
            offlineMsgs = getOfflinePrivateMsgs E (l_id user) (ldb s);
            s = fold (\<lambda>m. tell (addReceiveMsgInfo E (new_UserData\<lparr>l_id := r_fromId m\<rparr>) user (r_content m)) thread)
                  offlineMsgs s
        in on_mdao E (markPrivateMessagesRead E (l_id user)) s)"

definition slot_sendMsg ::
  "('db, 'e) net_env_scheme \<Rightarrow> UserData \<Rightarrow> UserData \<Rightarrow> string \<Rightarrow> 'db lserver \<Rightarrow> 'db lserver" where
  "slot_sendMsg E from to msg s =
     (let s = on_mdao E (\<lambda>d. snd (insertPrivateMsg E (l_id from) (l_id to) msg d)) s
      in case users_find to (usersOnline s) of
           None \<Rightarrow> s
         | Some t \<Rightarrow> tell (addReceiveMsgInfo E from to msg) t s)"

definition slot_userOffline :: "('db, 'e) net_env_scheme \<Rightarrow> UserData \<Rightarrow> 'db lserver \<Rightarrow> 'db lserver" where
  "slot_userOffline E user s =
     (let s = s\<lparr>usersOnline := users_erase user (usersOnline s)\<rparr>;
          s = (if activeConnections s > 0 then s\<lparr>activeConnections := activeConnections s - 1\<rparr> else s)
      in fold (\<lambda>(_, t). tell (addUserOfflineInfo E user) t) (usersOnline s) s)"

definition groupKeyById :: "('db, 'e) net_env_scheme \<Rightarrow> int \<Rightarrow> 'db lserver \<Rightarrow> GroupKey \<times> 'db lserver" where
  "groupKeyById E groupId s =
     (case find (\<lambda>(k, _). gk_groupId k = groupId) (lgroups s) of
        Some (k, _) \<Rightarrow> (k, s)
      | None \<Rightarrow>
          let s = mdao E s
          in case find (\<lambda>c. c_id c = groupId) (listChannels E (ldb s)) of
               Some c \<Rightarrow> (\<lparr>gk_groupId = c_id c, gk_name = c_name c\<rparr>, s)
             | None \<Rightarrow> (\<lparr>gk_groupId = groupId, gk_name = []\<rparr>, s))"

definition slot_createGroup :: "('db, 'e) net_env_scheme \<Rightarrow> string \<Rightarrow> nat \<Rightarrow> 'db lserver \<Rightarrow> 'db lserver" where
  "slot_createGroup E name thread s =
     (let gk = \<lparr>gk_groupId = createGroupId s, gk_name = name\<rparr>;
          s = s\<lparr>createGroupId := to_int32 (createGroupId s + 1), lgroups := groups_put gk [] (lgroups s)\<rparr>;
          s = on_mdao E (\<lambda>d. snd (createChannel E (gk_groupId gk) name (l_id (getUserData thread s)) d)) s
      in tell (addCreateGroupReturnInfo E (gk_groupId gk)) thread s)"

definition slot_searchGroup :: "('db, 'e) net_env_scheme \<Rightarrow> nat \<Rightarrow> 'db lserver \<Rightarrow> 'db lserver" where
  "slot_searchGroup E thread s =
     (let s = mdao E s; channels = listChannels E (ldb s)
      in tell (addSearchGroupReturnInfo E (map c_id channels) (map c_name channels)) thread s)"

definition slot_joinGroup :: "('db, 'e) net_env_scheme \<Rightarrow> nat \<Rightarrow> int \<Rightarrow> 'db lserver \<Rightarrow> 'db lserver" where
  "slot_joinGroup E thread groupId s =
     (let (gk, s) = groupKeyById E groupId s;
          members = groups_get gk (lgroups s);
          members = (if thread \<in> set members then members else members @ [thread]);
          s = s\<lparr>lgroups := groups_put gk members (lgroups s)\<rparr>;
          me = getUserData thread s;
          s = on_mdao E (addChannelMember E groupId (l_id me) ''member'') s;
          groupFriends = map (\<lambda>i. getUserData i s) members;
          s = fold (\<lambda>i. if i \<noteq> thread then tell (addUserJoinGroupInfo E me groupId) i else (\<lambda>s. s)) members s
      in tell (addJoinGroupReturnInfo E groupId groupFriends) thread s)"

definition slot_leaveGroup :: "('db, 'e) net_env_scheme \<Rightarrow> nat \<Rightarrow> int \<Rightarrow> 'db lserver \<Rightarrow> 'db lserver" where
  "slot_leaveGroup E thread groupId s =
     (let (gk, s) = groupKeyById E groupId s;
          me = getUserData thread s;
          s = on_mdao E (removeChannelMember E groupId (l_id me)) s;
          others = filter (\<lambda>i. i \<noteq> thread) (groups_get gk (lgroups s));
          s = s\<lparr>lgroups := groups_put gk others (lgroups s)\<rparr>
      in fold (tell (addUserLeaveGroupInfo E me groupId)) others s)"

definition slot_sendGroupMsg ::
  "('db, 'e) net_env_scheme \<Rightarrow> nat \<Rightarrow> UserData \<Rightarrow> int \<Rightarrow> string \<Rightarrow> 'db lserver \<Rightarrow> 'db lserver" where
  "slot_sendGroupMsg E thread from to msg s =
     (let s = on_mdao E (\<lambda>d. snd (insertGroupMsg E (l_id from) to msg d)) s;
          (gk, s) = groupKeyById E to s;
          threads = groups_get gk (lgroups s);
          s = s\<lparr>lgroups := groups_put gk threads (lgroups s)\<rparr>
      in fold (\<lambda>i. if thread = i then (\<lambda>s. s) else tell (addReceiveGroupMsgInfo E from to msg) i) threads s)"

text \<open>\<open>connect\<close>: which slot a signal is connected to.\<close>

definition slot :: "('db, 'e) net_env_scheme \<Rightarrow> lsignal \<Rightarrow> 'db lserver \<Rightarrow> 'db lserver" where
  "slot E sg s =
     (case sg of
        LoginSuccessSignal user t \<Rightarrow> loginSuccess E user t s
      | SendMsgSignal from to msg \<Rightarrow> slot_sendMsg E from to msg s
      | UserOfflineSignal user \<Rightarrow> slot_userOffline E user s
      | CreateGroupSignal name t \<Rightarrow> slot_createGroup E name t s
      | SearchGroupSignal t \<Rightarrow> slot_searchGroup E t s
      | JoinGroupSignal t g \<Rightarrow> slot_joinGroup E t g s
      | LeaveGroupSignal t g \<Rightarrow> slot_leaveGroup E t g s
      | SendGroupMsgSignal t from g msg \<Rightarrow> slot_sendGroupMsg E t from g msg s)"

section \<open>What can happen\<close>

datatype levent =
    Connect
  | Arrive nat "u8 list"
  | ReadyRead nat
  | Disconnected nat
  | Top nat
  | Pop nat
  | Slot

definition on_thread :: "nat \<Rightarrow> ('db nworld \<Rightarrow> 'db nworld) \<Rightarrow> 'db lserver \<Rightarrow> 'db lserver" where
  "on_thread i f s =
     (let w = f \<lparr>nt = lthreads s ! i, dao = ldb s, posted = []\<rparr>
      in s\<lparr>lthreads := (lthreads s)[i := nt w], ldb := dao w, signals := signals s @ posted w\<rparr>)"

definition lpossible :: "levent \<Rightarrow> 'db lserver \<Rightarrow> bool" where
  "lpossible ev s =
     (case ev of
        Connect \<Rightarrow> True
      | Arrive i bs \<Rightarrow> i < length (lthreads s)
      | ReadyRead i \<Rightarrow> i < length (lthreads s)
      | Disconnected i \<Rightarrow> i < length (lthreads s)
      | Top i \<Rightarrow> i < length (lthreads s) \<and> nt_phase (lthreads s ! i) = AtTop
      | Pop i \<Rightarrow> i < length (lthreads s) \<and> nt_phase (lthreads s ! i) = AtPop
      | Slot \<Rightarrow> signals s \<noteq> [])"

definition lhandle :: "('db, 'e) net_env_scheme \<Rightarrow> levent \<Rightarrow> 'db lserver \<Rightarrow> 'db lserver" where
  "lhandle E ev s =
     (case ev of
        Connect \<Rightarrow> newConnection s
      | Arrive i bs \<Rightarrow> tell (\<lambda>t. t\<lparr>socket_in := socket_in t @ bs\<rparr>) i s
      | ReadyRead i \<Rightarrow> tell readyRead i s
      | Disconnected i \<Rightarrow> tell disconnected i s
      | Top i \<Rightarrow> on_thread i (run_top E) s
      | Pop i \<Rightarrow> on_thread i (run_pop E i) s
      | Slot \<Rightarrow> slot E (hd (signals s)) (s\<lparr>signals := tl (signals s)\<rparr>))"

text \<open>A sequence of events, if they can happen one after the other.\<close>

primrec lrun :: "('db, 'e) net_env_scheme \<Rightarrow> levent list \<Rightarrow> 'db lserver \<Rightarrow> 'db lserver option" where
  "lrun E [] s = Some s"
| "lrun E (ev # evs) s = (if lpossible ev s then lrun E evs (lhandle E ev s) else None)"

inductive lreach :: "('db, 'e) net_env_scheme \<Rightarrow> 'db lserver \<Rightarrow> bool" for E where
  start: "lreach E (new_MainWindow E)"
| step: "lreach E s \<Longrightarrow> lpossible ev s \<Longrightarrow> lreach E (lhandle E ev s)"

section \<open>What slots leave alone\<close>

lemma tell_simps [simp]:
  "usersOnline (tell f i s) = usersOnline s" "lgroups (tell f i s) = lgroups s" "signals (tell f i s) = signals s"
  "ldb (tell f i s) = ldb s" "length (lthreads (tell f i s)) = length (lthreads s)"
  "createGroupId (tell f i s) = createGroupId s"
  by (simp_all add: tell_def)

lemma mdao_simps [simp]:
  "usersOnline (mdao E s) = usersOnline s" "lgroups (mdao E s) = lgroups s" "signals (mdao E s) = signals s"
  "lthreads (mdao E s) = lthreads s" "createGroupId (mdao E s) = createGroupId s"
  "usersOnline (on_mdao E f s) = usersOnline s" "lgroups (on_mdao E f s) = lgroups s"
  "signals (on_mdao E f s) = signals s" "lthreads (on_mdao E f s) = lthreads s"
  "createGroupId (on_mdao E f s) = createGroupId s"
  by (simp_all add: mdao_def on_mdao_def Let_def)

lemma fold_same: "(\<And>x s. Q (g x s) = Q s) \<Longrightarrow> Q (fold g xs s) = Q s"
  by (induction xs arbitrary: s) simp_all

lemma fold_tell [simp]:
  "usersOnline (fold (\<lambda>x. tell (f x) (i x)) xs s) = usersOnline s"
  "lgroups (fold (\<lambda>x. tell (f x) (i x)) xs s) = lgroups s"
  "signals (fold (\<lambda>x. tell (f x) (i x)) xs s) = signals s"
  "ldb (fold (\<lambda>x. tell (f x) (i x)) xs s) = ldb s"
  "length (lthreads (fold (\<lambda>x. tell (f x) (i x)) xs s)) = length (lthreads s)"
  by (simp_all add: fold_same [of usersOnline] fold_same [of lgroups] fold_same [of signals] fold_same [of ldb]
      fold_same [of "\<lambda>s. length (lthreads s)"])

text \<open>Telling those of a list for which a condition holds is telling the members of a shorter list.\<close>

lemma fold_tell_if:
  "fold (\<lambda>i. if c i then tell (f i) i else (\<lambda>s. s)) xs = fold (\<lambda>i. tell (f i) i) (filter c xs)"
  by (induction xs) auto

lemma fold_tell_if_not:
  "fold (\<lambda>i. if c i then (\<lambda>s. s) else tell (f i) i) xs = fold (\<lambda>i. tell (f i) i) (filter (\<lambda>i. \<not> c i) xs)"
  by (induction xs) auto

lemma fold_tell_pair: "fold (\<lambda>(u, t). tell f t) xs = fold (\<lambda>x. tell f (snd x)) xs"
  by (simp add: split_def)

lemmas tell_lists = fold_tell_if fold_tell_if_not fold_tell_pair

lemma groupKeyById_same:
  assumes "groupKeyById E g s = (k, s')"
  shows "usersOnline s' = usersOnline s" "lgroups s' = lgroups s" "signals s' = signals s" "lthreads s' = lthreads s"
    "gk_groupId k = g" "s' = s \<or> s' = mdao E s"
  using assms by (auto simp: groupKeyById_def Let_def dest: find_SomeD split: option.splits prod.splits)

section \<open>The invariant\<close>

definition signal_threads :: "lsignal \<Rightarrow> nat set" where
  "signal_threads sg =
     (case sg of
        LoginSuccessSignal user t \<Rightarrow> {t}
      | SendMsgSignal from to msg \<Rightarrow> {}
      | UserOfflineSignal user \<Rightarrow> {}
      | CreateGroupSignal name t \<Rightarrow> {t}
      | SearchGroupSignal t \<Rightarrow> {t}
      | JoinGroupSignal t g \<Rightarrow> {t}
      | LeaveGroupSignal t g \<Rightarrow> {t}
      | SendGroupMsgSignal t from g msg \<Rightarrow> {t})"

definition online_ok :: "nat \<Rightarrow> (UserData \<times> nat) list \<Rightarrow> bool" where
  "online_ok n us \<longleftrightarrow> sorted_wrt (<) (map (\<lambda>x. l_id (fst x)) us) \<and> (\<forall>x \<in> set us. snd x < n)"

definition groups_ok :: "nat \<Rightarrow> (GroupKey \<times> nat list) list \<Rightarrow> bool" where
  "groups_ok n gs \<longleftrightarrow> sorted_wrt (<) (map (\<lambda>x. gk_groupId (fst x)) gs) \<and>
     (\<forall>x \<in> set gs. distinct (snd x) \<and> set (snd x) \<subseteq> {..<n})"

definition linv :: "'db lserver \<Rightarrow> bool" where
  "linv s \<longleftrightarrow>
     online_ok (length (lthreads s)) (usersOnline s) \<and> groups_ok (length (lthreads s)) (lgroups s) \<and>
     (\<forall>sg \<in> set (signals s). signal_threads sg \<subseteq> {..<length (lthreads s)})"

lemma users_insert_in: "set (users_insert u t us) \<subseteq> insert (u, t) (set us)"
  by (induction u t us rule: users_insert.induct) auto

lemma users_insert_ok: "online_ok n us \<Longrightarrow> t < n \<Longrightarrow> online_ok n (users_insert u t us)"
proof (induction u t us rule: users_insert.induct)
  case (2 u t v t' us)
  then show ?case using users_insert_in [of u t us] by (auto simp: online_ok_def UserData_less_def)
qed (simp add: online_ok_def)

lemma users_erase_ok: "online_ok n us \<Longrightarrow> online_ok n (users_erase u us)"
  by (auto simp: online_ok_def users_erase_def sorted_wrt_map sorted_wrt_filter)

lemma groups_put_in: "set (groups_put k ms gs) \<subseteq> insert (k, ms) (set gs) \<union> {(k', ms) | k'. k' \<in> fst ` set gs}"
  by (induction k ms gs rule: groups_put.induct) auto

lemma groups_put_keys: "x \<in> set (groups_put k ms gs) \<Longrightarrow> gk_groupId (fst x) \<in> insert (gk_groupId k) ((\<lambda>x. gk_groupId (fst x)) ` set gs)"
  by (induction k ms gs rule: groups_put.induct) (auto split: if_splits)

lemma groups_put_ok:
  "groups_ok n gs \<Longrightarrow> distinct ms \<Longrightarrow> set ms \<subseteq> {..<n} \<Longrightarrow> groups_ok n (groups_put k ms gs)"
proof (induction k ms gs rule: groups_put.induct)
  case (2 k ms k' ms' gs)
  have "gk_groupId k' < gk_groupId (fst x)" if "GroupKey_less k' k" "x \<in> set (groups_put k ms gs)" for x
    using groups_put_keys [OF that(2)] that(1) 2(2) by (auto simp: groups_ok_def GroupKey_less_def)
  then show ?case using 2 by (auto simp: groups_ok_def GroupKey_less_def)
qed (simp add: groups_ok_def)

lemma groups_get_ok: "groups_ok n gs \<Longrightarrow> distinct (groups_get k gs) \<and> set (groups_get k gs) \<subseteq> {..<n}"
proof (cases "find (\<lambda>(k', _). gk_groupId k' = gk_groupId k) gs")
  case (Some x)
  assume "groups_ok n gs"
  then have "distinct (snd x) \<and> set (snd x) \<subseteq> {..<n}" using find_SomeD [OF Some] by (simp add: groups_ok_def)
  then show ?thesis by (cases x) (simp add: groups_get_def Some)
qed (simp add: groups_get_def)

lemma groups_ok_mono: "groups_ok n gs \<Longrightarrow> n \<le> m \<Longrightarrow> groups_ok m gs"
  by (fastforce simp: groups_ok_def)

lemma online_ok_mono: "online_ok n us \<Longrightarrow> n \<le> m \<Longrightarrow> online_ok m us"
  by (fastforce simp: online_ok_def)

lemma linv_tell [simp]: "linv (tell f i s) = linv s" "linv (fold (\<lambda>x. tell (g x) (h x)) xs s) = linv s"
  "linv (mdao E s) = linv s" "linv (on_mdao E k s) = linv s"
  by (simp_all add: linv_def)

lemma linv_signals: "linv s \<Longrightarrow> linv (s\<lparr>signals := tl (signals s)\<rparr>)"
  by (cases "signals s") (auto simp: linv_def)

lemma linv_users: "linv s \<Longrightarrow> online_ok (length (lthreads s)) us \<Longrightarrow> linv (s\<lparr>usersOnline := us\<rparr>)"
  by (simp add: linv_def)

lemma linv_groups: "linv s \<Longrightarrow> groups_ok (length (lthreads s)) gs \<Longrightarrow> linv (s\<lparr>lgroups := gs\<rparr>)"
  by (simp add: linv_def)

lemma linv_other [simp]: "linv (s\<lparr>activeConnections := a\<rparr>) = linv s" "linv (s\<lparr>createGroupId := c\<rparr>) = linv s"
  "linv (s\<lparr>ldb := d\<rparr>) = linv s"
  by (simp_all add: linv_def)

lemma linvD:
  assumes "linv s"
  shows "online_ok (length (lthreads s)) (usersOnline s)" "groups_ok (length (lthreads s)) (lgroups s)"
    "sg \<in> set (signals s) \<Longrightarrow> signal_threads sg \<subseteq> {..<length (lthreads s)}"
  using assms by (auto simp: linv_def)

lemma linv_groupKeyById: "groupKeyById E g s = (k, s') \<Longrightarrow> linv s' = linv s"
  using groupKeyById_same [of E g s k s'] by (simp add: linv_def)

lemma linv_loginSuccess: "linv s \<Longrightarrow> t < length (lthreads s) \<Longrightarrow> linv (loginSuccess E user t s)"
  by (auto simp: loginSuccess_def Let_def tell_lists intro!: linv_users users_insert_ok dest: linvD(1))

lemma linv_sendMsg: "linv s \<Longrightarrow> linv (slot_sendMsg E from to msg s)"
  by (auto simp: slot_sendMsg_def Let_def split: option.split)

lemma linv_userOffline: "linv s \<Longrightarrow> linv (slot_userOffline E user s)"
  by (auto simp: slot_userOffline_def Let_def tell_lists intro!: linv_users users_erase_ok dest: linvD(1))

lemma linv_createGroup: "linv s \<Longrightarrow> linv (slot_createGroup E name t s)"
  by (auto simp: slot_createGroup_def Let_def intro!: linv_groups groups_put_ok dest: linvD(2))

lemma linv_searchGroup: "linv s \<Longrightarrow> linv (slot_searchGroup E t s)"
  by (auto simp: slot_searchGroup_def Let_def)

lemma linv_groups_put:
  "linv s \<Longrightarrow> distinct ms \<Longrightarrow> set ms \<subseteq> {..<length (lthreads s)} \<Longrightarrow> linv (s\<lparr>lgroups := groups_put k ms (lgroups s)\<rparr>)"
  by (intro linv_groups groups_put_ok linvD)

lemma linv_joinGroup:
  assumes "linv s" "t < length (lthreads s)"
  shows "linv (slot_joinGroup E t g s)"
proof -
  obtain k s' where k: "groupKeyById E g s = (k, s')" by fastforce
  let ?ms = "if t \<in> set (groups_get k (lgroups s')) then groups_get k (lgroups s') else groups_get k (lgroups s') @ [t]"
  have s': "linv s'" "length (lthreads s') = length (lthreads s)"
    using assms(1) linv_groupKeyById [OF k] groupKeyById_same(4) [OF k] by simp_all
  then have "linv (s'\<lparr>lgroups := groups_put k ?ms (lgroups s')\<rparr>)"
    using groups_get_ok [OF linvD(2) [OF s'(1)]] assms(2) by (intro linv_groups_put) auto
  then show ?thesis by (simp add: slot_joinGroup_def k tell_lists Let_def)
qed

lemma linv_leaveGroup:
  assumes "linv s"
  shows "linv (slot_leaveGroup E t g s)"
proof -
  obtain k s' where k: "groupKeyById E g s = (k, s')" by fastforce
  define s'' where "s'' = on_mdao E (removeChannelMember E g (l_id (getUserData t s'))) s'"
  have s: "linv s''" using assms linv_groupKeyById [OF k] by (simp add: s''_def)
  then have "linv (s''\<lparr>lgroups := groups_put k (filter (\<lambda>i. i \<noteq> t) (groups_get k (lgroups s''))) (lgroups s'')\<rparr>)"
    using groups_get_ok [OF linvD(2) [OF s], of k] by (intro linv_groups_put) auto
  then show ?thesis by (simp add: slot_leaveGroup_def k Let_def s''_def)
qed

lemma linv_sendGroupMsg:
  assumes "linv s"
  shows "linv (slot_sendGroupMsg E t from g msg s)"
proof -
  let ?s = "on_mdao E (\<lambda>d. snd (insertGroupMsg E (l_id from) g msg d)) s"
  obtain k s' where k: "groupKeyById E g ?s = (k, s')" by fastforce
  then have s: "linv s'" using assms linv_groupKeyById [OF k] by simp
  then have "linv (s'\<lparr>lgroups := groups_put k (groups_get k (lgroups s')) (lgroups s')\<rparr>)"
    using groups_get_ok [OF linvD(2) [OF s], of k] by (intro linv_groups_put) auto
  then show ?thesis by (simp add: slot_sendGroupMsg_def k Let_def tell_lists)
qed

lemma linv_slot:
  "linv s \<Longrightarrow> signal_threads sg \<subseteq> {..<length (lthreads s)} \<Longrightarrow> linv (slot E sg s)"
  by (auto simp: slot_def signal_threads_def linv_loginSuccess linv_sendMsg linv_userOffline linv_createGroup
      linv_searchGroup linv_joinGroup linv_leaveGroup linv_sendGroupMsg split: lsignal.splits)

text \<open>A thread only emits signals that name itself.\<close>

lemma sendJson_posted [simp]: "posted (sendJson m w) = posted w" "dao (sendJson m w) = dao w"
  by (simp_all add: sendJson_def)

lemma emit_posted [simp]: "posted (emit sg w) = posted w @ [sg]" "dao (emit sg w) = dao w" "nt (emit sg w) = nt w"
  by (simp_all add: emit_def)

lemma deal_posted: "\<forall>sg \<in> set (posted (deal E i data w)). sg \<in> set (posted w) \<or> signal_threads sg \<subseteq> {i}"
  by (simp add: deal_defs Let_def signal_threads_def split: prod.split)

lemma run_top_posted: "\<forall>sg \<in> set (posted (run_top E w)). sg \<in> set (posted w) \<or> signal_threads sg \<subseteq> {i}"
  by (simp add: run_top_def Let_def signal_threads_def)

lemma run_pop_posted: "\<forall>sg \<in> set (posted (run_pop E i w)). sg \<in> set (posted w) \<or> signal_threads sg \<subseteq> {i}"
  unfolding run_pop_def Let_def
proof (cases "msgQueue (nt (w\<lparr>nt := nt w\<lparr>nt_phase := AtTop\<rparr>\<rparr>))")
  case (Cons d q)
  let ?w = "w\<lparr>nt := (nt w)\<lparr>nt_phase := AtTop, msgQueue := q\<rparr>\<rparr>"
  show "\<forall>sg \<in> set (posted (case msgQueue (nt (w\<lparr>nt := nt w\<lparr>nt_phase := AtTop\<rparr>\<rparr>)) of
      [] \<Rightarrow> w\<lparr>nt := nt w\<lparr>nt_phase := AtTop\<rparr>\<rparr>
    | data # q \<Rightarrow> deal E i data (w\<lparr>nt := nt w\<lparr>nt_phase := AtTop\<rparr>, nt := nt (w\<lparr>nt := nt w\<lparr>nt_phase := AtTop\<rparr>\<rparr>)\<lparr>msgQueue := q\<rparr>\<rparr>))).
    sg \<in> set (posted w) \<or> signal_threads sg \<subseteq> {i}"
    using deal_posted [of E i d ?w] Cons by simp
qed simp

lemma linv_on_thread:
  assumes "linv s" "i < length (lthreads s)"
    "\<forall>sg \<in> set (posted (f \<lparr>nt = lthreads s ! i, dao = ldb s, posted = []\<rparr>)). signal_threads sg \<subseteq> {i}"
  shows "linv (on_thread i f s)"
  using assms by (fastforce simp: linv_def on_thread_def Let_def)

section \<open>The stores\<close>

text \<open>
  What holds of the store when the window is made and is kept by the calls the server makes on the
  two data access objects holds in every state the server gets into.
\<close>

locale dao_invariant =
  fixes E :: "('db, 'e) net_env_scheme"
    and P :: "'db legacy_db \<Rightarrow> bool"
  assumes made: "P (MessageDao_getInstance E no_db)"
    and keeps_getInstance: "P d \<Longrightarrow> P (MessageDao_getInstance E d)" "P d \<Longrightarrow> P (UserDao_getInstance E d)"
    and keeps_insertUser: "P d \<Longrightarrow> P (snd (insertUser E ue d))"
    and keeps_verifyPassword: "P d \<Longrightarrow> P (snd (dao_verifyPassword E ue d))"
    and keeps_insert: "P d \<Longrightarrow> P (snd (insertPrivateMsg E a b m d))" "P d \<Longrightarrow> P (snd (insertGroupMsg E a b m d))"
    and keeps_read: "P d \<Longrightarrow> P (markPrivateMessagesRead E a d)"
    and keeps_channel: "P d \<Longrightarrow> P (snd (createChannel E a m b d))" "P d \<Longrightarrow> P (addChannelMember E a b r d)"
      "P d \<Longrightarrow> P (removeChannelMember E a b d)"
begin

lemma keeps_mdao: "P (ldb s) \<Longrightarrow> P (ldb (mdao E s))"
  "(\<And>d. P d \<Longrightarrow> P (f d)) \<Longrightarrow> P (ldb s) \<Longrightarrow> P (ldb (on_mdao E f s))"
  by (simp_all add: mdao_def on_mdao_def keeps_getInstance)

lemma keeps_key: "groupKeyById E g s = (k, s') \<Longrightarrow> P (ldb s) \<Longrightarrow> P (ldb s')"
  using groupKeyById_same(6) keeps_mdao(1) by blast

lemma keeps_slot: "P (ldb s) \<Longrightarrow> P (ldb (slot E sg s))"
  by (auto simp: slot_def loginSuccess_def slot_sendMsg_def slot_userOffline_def slot_createGroup_def
      slot_searchGroup_def slot_joinGroup_def slot_leaveGroup_def slot_sendGroupMsg_def Let_def tell_lists
      split: lsignal.split option.split prod.split
      intro!: keeps_mdao keeps_insert keeps_read keeps_channel dest: keeps_key)

lemma keeps_deal: "P (dao w) \<Longrightarrow> P (dao (deal E i data w))"
  using keeps_insertUser [OF keeps_getInstance(2)] keeps_verifyPassword [OF keeps_getInstance(2)]
  by (simp add: deal_defs Let_def split_beta)

lemma keeps_run: "P (dao w) \<Longrightarrow> P (dao (run_top E w))" "P (dao w) \<Longrightarrow> P (dao (run_pop E i w))"
  by (auto simp: run_top_def run_pop_def Let_def intro!: keeps_deal split: list.split)

lemma reachable: "lreach E s \<Longrightarrow> P (ldb s)"
proof (induction rule: lreach.induct)
  case start
  then show ?case using made by (simp add: new_MainWindow_def mdao_def Let_def)
next
  case (step s ev)
  then show ?case
    by (auto simp: lhandle_def on_thread_def newConnection_def Let_def intro!: keeps_slot keeps_run split: levent.split)
qed

end

interpretation nothing_stored: dao_invariant E "\<lambda>d. lacks_message_tables (lsql E) lacks \<longrightarrow> stores_nothing lacks d"
  for E :: "('db, 'e) net_env_scheme" and lacks :: "'db \<Rightarrow> bool"
proof
  fix d :: "'db legacy_db"
  assume "lacks_message_tables (lsql E) lacks \<longrightarrow> stores_nothing lacks d"
  then show "lacks_message_tables (lsql E) lacks \<longrightarrow> stores_nothing lacks (MessageDao_getInstance E d)"
    by (simp add: MessageDao_getInstance_def stores_nothing_def)
qed (simp_all add: silent_made silent_UserDao silent_insertUser silent_verify_rows silent_messages
    dao_verifyPassword_def)

definition ref_net_env :: "ref_users net_env" where
  "ref_net_env = lenv.extend ref_lenv
     \<lparr>q_to_json = serialize_object, q_from_json = mini_from_json, q_fromUtf8 = string_of_bytes\<rparr>"

section \<open>A private message\<close>

lemma decode_one:
  assumes "0 < length m" "length m \<le> 4194304" "f (bytes_of_string m) = m"
  shows "decodeFrames f (encodeFrame bytes_of_string m) = ([m], [])"
  using assms decode_frame [of "bytes_of_string m" f "[]"] encodeFrame_body [of bytes_of_string m]
  by (simp add: body_ok_def decodeFrames.simps [of f "[]"])

lemma deal_sendMsg:
  assumes "qt_json (q_to_json E) (q_from_json E)" "user_ok from" "user_ok to" "is_utf8 msg"
  shows "deal E i (buildSendMsg (q_to_json E) from to msg) w =
    emit (SendMsgSignal (new_UserData\<lparr>l_id := l_id from\<rparr>) (new_UserData\<lparr>l_id := l_id to\<rparr>) msg) w"
proof -
  have "msgType (q_from_json E) (buildSendMsg (q_to_json E) from to msg) = legacy_value sendMsg"
    unfolding buildSendMsg_def
    by (rule qt_json.types [OF assms(1)]) (use assms in \<open>simp_all add: is_utf8_ascii user_ids\<close>)
  then show ?thesis using qt_json.user_messages(1) [OF assms] by (simp add: deal_def dealSendMsg_def)
qed

lemma deal_receiveMsg:
  assumes "qt_json (q_to_json E) (q_from_json E)" "user_ok from" "user_ok to" "is_utf8 msg"
  shows "deal E i (buildReceiveMsg (q_to_json E) from to msg) w = sendJson (buildReceiveMsg (q_to_json E) from to msg) w"
proof -
  have "msgType (q_from_json E) (buildReceiveMsg (q_to_json E) from to msg) = legacy_value receiveMsg"
    unfolding buildReceiveMsg_def
    by (rule qt_json.types [OF assms(1)]) (use assms in \<open>simp_all add: is_utf8_ascii user_ids\<close>)
  then show ?thesis by (simp add: deal_def dealReceiveMsg_def)
qed

text \<open>A thread that waits for its client, with nothing pending.\<close>

definition idle :: "NetWorkThread \<Rightarrow> bool" where
  "idle t \<longleftrightarrow> nt_phase t = AtTop \<and> \<not> isDisconnected t \<and> socket_in t = [] \<and> inputBuffer t = [] \<and> msgQueue t = []"

lemma lrun_append: "lrun E (xs @ ys) s = (case lrun E xs s of None \<Rightarrow> None | Some s' \<Rightarrow> lrun E ys s')"
  by (induction xs arbitrary: s) simp_all

lemma lrun_snoc:
  "lrun E xs s = Some s' \<Longrightarrow> lrun E (xs @ [ev]) s = (if lpossible ev s' then Some (lhandle E ev s') else None)"
  by (simp add: lrun_append)

lemma receive_one:
  assumes i: "i < length (lthreads s)" "idle (lthreads s ! i)"
    and m: "0 < length m" "length m \<le> 4194304" "q_fromUtf8 E (bytes_of_string m) = m"
    and d: "\<And>w. deal E i m w = emit sg w"
  shows "\<exists>t. lrun E [Arrive i (encodeFrame bytes_of_string m), ReadyRead i, Top i, Pop i] s =
      Some (s\<lparr>lthreads := (lthreads s)[i := t], signals := signals s @ [sg]\<rparr>) \<and> idle t"
proof -
  have "encodeFrame bytes_of_string m \<noteq> []" by (simp add: encodeFrame_def Let_def length_bytes_def)
  then show ?thesis
    using i decode_one [of m "q_fromUtf8 E", OF m]
    by (intro exI [of _ "(lthreads s ! i)\<lparr>isRead := False, socket_in := [], inputBuffer := [], nt_phase := AtTop,
          msgQueue := []\<rparr>"])
      (simp add: lpossible_def lhandle_def tell_def on_thread_def run_top_def readyRead_def read_frames_def
        run_pop_def Let_def d emit_def idle_def)
qed

text \<open>The steps from the arrival of the frame on connection \<open>i\<close> to the queue of the recipient's thread \<open>j\<close>.\<close>

lemma private_message_steps:
  assumes json: "qt_json (q_to_json E) (q_from_json E)"
    and m: "m = buildSendMsg (q_to_json E) from to msg" "0 < length m" "length m \<le> 4194304"
      "q_fromUtf8 E (bytes_of_string m) = m"
    and ok: "user_ok from" "user_ok to" "is_utf8 msg"
    and i: "i < length (lthreads s)" "idle (lthreads s ! i)" "signals s = []"
    and j: "users_find to (usersOnline s) = Some j" "j < length (lthreads s)"
    and r: "r = buildReceiveMsg (q_to_json E) from to msg"
  shows "\<exists>s' t. lrun E [Arrive i (encodeFrame bytes_of_string m), ReadyRead i, Top i, Pop i, Slot] s = Some s' \<and>
    idle t \<and> signals s' = [] \<and> lthreads s' = ((lthreads s)[i := t])[j := push_msg r ((lthreads s)[i := t] ! j)]"
proof -
  let ?sg = "SendMsgSignal (new_UserData\<lparr>l_id := l_id from\<rparr>) (new_UserData\<lparr>l_id := l_id to\<rparr>) msg"
  have "deal E i m w = emit ?sg w" for w :: "'a nworld" using deal_sendMsg [OF json ok] m(1) by simp
  from receive_one [OF i(1,2) m(2-4) this] obtain t where
    t: "lrun E [Arrive i (encodeFrame bytes_of_string m), ReadyRead i, Top i, Pop i] s =
        Some (s\<lparr>lthreads := (lthreads s)[i := t], signals := [?sg]\<rparr>)" "idle t"
    using i(3) by auto
  let ?s = "s\<lparr>lthreads := (lthreads s)[i := t], signals := []\<rparr>"
  from lrun_snoc [OF t(1)] have "lrun E [Arrive i (encodeFrame bytes_of_string m), ReadyRead i, Top i, Pop i, Slot] s =
      Some (slot E ?sg ?s)" by (simp add: lhandle_def lpossible_def)
  moreover have rr: "buildReceiveMsg (q_to_json E) (new_UserData\<lparr>l_id := l_id from\<rparr>) (new_UserData\<lparr>l_id := l_id to\<rparr>) msg = r"
    by (simp add: r buildReceiveMsg_def)
  moreover have "users_find (new_UserData\<lparr>l_id := l_id to\<rparr>) (usersOnline s) = Some j"
    using j(1) by (simp add: users_find_def same_user_def UserData_less_def)
  then have "lthreads (slot E ?sg ?s) = (lthreads ?s)[j := push_msg r (lthreads ?s ! j)]"
    using rr by (simp add: slot_def slot_sendMsg_def tell_def addReceiveMsgInfo_def)
  moreover have "signals (slot E ?sg ?s) = []" by (simp add: slot_def slot_sendMsg_def Let_def split: option.split)
  ultimately show ?thesis using t(2) by (intro exI [of _ "slot E ?sg ?s"] exI [of _ t]) (simp del: lrun.simps)
qed

text \<open>A thread whose queue holds one message for the client sends it.\<close>

lemma unread: "\<not> isRead t \<Longrightarrow> t\<lparr>isRead := False\<rparr> = (t :: NetWorkThread)"
  by (cases t) simp

lemma send_one:
  assumes j: "j < length (lthreads s)" "idle ((lthreads s ! j)\<lparr>msgQueue := []\<rparr>)" "msgQueue (lthreads s ! j) = [r]"
    and d: "\<And>w. deal E j r w = sendJson r w"
  shows "\<exists>t. lrun E [Top j, Pop j] s = Some (s\<lparr>lthreads := (lthreads s)[j := t]\<rparr>) \<and> idle t \<and>
    socket_out t = socket_out (lthreads s ! j) @ encodeFrame bytes_of_string r"
  using j
  by (intro exI [of _ "(lthreads s ! j)\<lparr>isRead := False, nt_phase := AtTop, msgQueue := [],
        socket_out := socket_out (lthreads s ! j) @ encodeFrame bytes_of_string r\<rparr>"])
    (simp add: lpossible_def lhandle_def on_thread_def run_top_def read_frames_def run_pop_def Let_def d sendJson_def idle_def unread)

section \<open>Properties\<close>

text \<open>C26: In every state the old server can get into, the main thread's tables are consistent: the
  users that are online have increasing numbers, so no user is there twice, the groups likewise, no
  thread is twice a member of a group, and users, groups and pending signals only refer to threads
  that exist.\<close>

theorem legacy_invariant: "lreach E s \<Longrightarrow> linv s"
proof (induction rule: lreach.induct)
  case start
  show ?case by (simp add: new_MainWindow_def Let_def linv_def online_ok_def groups_ok_def)
next
  case (step s ev)
  let ?w = "\<lambda>i. \<lparr>nt = lthreads s ! i, dao = ldb s, posted = []\<rparr>"
  show ?case
  proof (cases ev)
    case Connect
    then show ?thesis using step.IH
      by (fastforce simp: lhandle_def newConnection_def linv_def intro: online_ok_mono groups_ok_mono)
  next
    case Slot
    then have sg: "hd (signals s) \<in> set (signals s)" using step.hyps(2) by (simp add: lpossible_def)
    have "linv (slot E (hd (signals s)) (s\<lparr>signals := tl (signals s)\<rparr>))"
      using linvD(3) [OF step.IH sg] by (intro linv_slot linv_signals step.IH) simp
    then show ?thesis using Slot by (simp add: lhandle_def)
  next
    case (Top i)
    then show ?thesis using step linv_on_thread [of s i "run_top E"] run_top_posted [of E "?w i" i]
      by (simp add: lhandle_def lpossible_def)
  next
    case (Pop i)
    then show ?thesis using step linv_on_thread [of s i "run_pop E i"] run_pop_posted [of E i "?w i"]
      by (simp add: lhandle_def lpossible_def)
  qed (use step.IH in \<open>simp_all add: lhandle_def\<close>)
qed

theorem legacy_invariant_witness: "linv (lhandle ref_net_env Connect (new_MainWindow ref_net_env))"
  using legacy_invariant [OF lreach.step [OF lreach.start [of ref_net_env], of Connect]] by (simp add: lpossible_def)

text \<open>C37: The old server stores no message and no channel. The message store is made with the window,
  before the accounts are opened; its queries run on the default connection, which is the file of the accounts,
  and so its tables are created nowhere. In every state the server can get into, started on a file of accounts
  without these tables, the history and the messages waiting for a user are empty, no channel is
  listed, and storing a message or a channel leaves the database as it is.\<close>

theorem legacy_messages_not_stored:
  assumes "lacks_message_tables (lsql E) lacks" "lreach E s"
  shows "getOfflinePrivateMsgs E u (ldb s) = [] \<and> getPrivateHistory E u v l off (ldb s) = [] \<and>
    getChannelHistory E c l off (ldb s) = [] \<and> listChannels E (ldb s) = [] \<and> getChannelMembers E c (ldb s) = [] \<and>
    default_db (snd (insertPrivateMsg E u v m (ldb s))) = default_db (ldb s) \<and>
    default_db (snd (createChannel E c n u (ldb s))) = default_db (ldb s)"
proof -
  have "stores_nothing lacks (ldb s)" using nothing_stored.reachable [OF assms(2)] assms(1) by blast
  then show ?thesis
    using silent_select [OF assms(1)] silent_update [OF assms(1)]
    by (simp add: getOfflinePrivateMsgs_def getPrivateHistory_def getChannelHistory_def listChannels_def
        getChannelMembers_def insertPrivateMsg_def createChannel_def addChannelMember_def now_secs_def Let_def
        message_selects_def message_updates_def)
qed

theorem legacy_messages_not_stored_witness:
  "listChannels ref_net_env (ldb (lhandle ref_net_env Connect (new_MainWindow ref_net_env))) = []"
proof -
  have "lacks_message_tables (lsql ref_net_env) (\<lambda>_. True)"
    using ref_lacks_messages by (simp add: ref_net_env_def ref_lenv_def lenv.extend_def)
  moreover have "lreach ref_net_env (lhandle ref_net_env Connect (new_MainWindow ref_net_env))"
    by (rule lreach.step [OF lreach.start]) (simp add: lpossible_def)
  ultimately show ?thesis using legacy_messages_not_stored by blast
qed

text \<open>C28: The old server passes a private message on, under whatever sender it names. When a
  frame with a message for a user who is online arrives on any connection, logged in or not, then
  the connection's thread and the main thread put it, with the text and both numbers as they came,
  at the end of the queue of the recipient's thread and nowhere else; and when its turn comes, that
  thread sends it to the client as one frame.\<close>

theorem legacy_private_message:
  assumes json: "qt_json (q_to_json E) (q_from_json E)"
    and m: "m = buildSendMsg (q_to_json E) from to msg" "0 < length m" "length m \<le> 4194304"
      "q_fromUtf8 E (bytes_of_string m) = m"
    and ok: "user_ok from" "user_ok to" "is_utf8 msg"
    and i: "i < length (lthreads s)" "idle (lthreads s ! i)" "signals s = []"
    and j: "users_find to (usersOnline s) = Some j" "j < length (lthreads s)"
    and r: "r = buildReceiveMsg (q_to_json E) from to msg"
  shows "(\<exists>s'. lrun E [Arrive i (encodeFrame bytes_of_string m), ReadyRead i, Top i, Pop i, Slot] s = Some s' \<and>
      signals s' = [] \<and>
      (\<forall>k < length (lthreads s). msgQueue (lthreads s' ! k) = msgQueue (lthreads s ! k) @ (if k = j then [r] else []))) \<and>
    (\<forall>w q. msgQueue (nt w) = r # q \<longrightarrow>
      socket_out (nt (run_pop E j w)) = socket_out (nt w) @ encodeFrame bytes_of_string r \<and>
      msgQueue (nt (run_pop E j w)) = q)"
proof
  from private_message_steps [OF assms] obtain s' t where
    s': "lrun E [Arrive i (encodeFrame bytes_of_string m), ReadyRead i, Top i, Pop i, Slot] s = Some s'" "signals s' = []"
    and t: "idle t" "lthreads s' = ((lthreads s)[i := t])[j := push_msg r ((lthreads s)[i := t] ! j)]"
    by blast
  have "msgQueue ((lthreads s)[i := t] ! k) = msgQueue (lthreads s ! k)" for k
    using i(1,2) t(1) by (cases "k = i") (simp_all add: idle_def)
  then show "\<exists>s'. lrun E [Arrive i (encodeFrame bytes_of_string m), ReadyRead i, Top i, Pop i, Slot] s = Some s' \<and>
      signals s' = [] \<and>
      (\<forall>k < length (lthreads s). msgQueue (lthreads s' ! k) = msgQueue (lthreads s ! k) @ (if k = j then [r] else []))"
    using j(2) s' t(2) by (auto simp: push_msg_def nth_list_update simp del: lrun.simps)
  show "\<forall>w q. msgQueue (nt w) = r # q \<longrightarrow>
      socket_out (nt (run_pop E j w)) = socket_out (nt w) @ encodeFrame bytes_of_string r \<and>
      msgQueue (nt (run_pop E j w)) = q"
    using deal_receiveMsg [OF json ok] by (simp add: run_pop_def r sendJson_def)
qed

theorem legacy_private_message_witness:
  "let a = new_UserData\<lparr>l_id := 7\<rparr>; b = new_UserData\<lparr>l_id := 8\<rparr>;
       s = (new_MainWindow ref_net_env)\<lparr>lthreads := [new_NetWorkThread, new_NetWorkThread], usersOnline := [(b, 1)]\<rparr>
   in \<exists>s'. lrun ref_net_env [Arrive 0 (encodeFrame bytes_of_string (buildSendMsg serialize_object a b ''hi'')),
          ReadyRead 0, Top 0, Pop 0, Slot] s = Some s' \<and>
        msgQueue (lthreads s' ! 1) = [buildReceiveMsg serialize_object a b ''hi'']"
proof -
  let ?a = "new_UserData\<lparr>l_id := 7\<rparr>" and ?b = "new_UserData\<lparr>l_id := 8\<rparr>"
  let ?s = "(new_MainWindow ref_net_env)\<lparr>lthreads := [new_NetWorkThread, new_NetWorkThread], usersOnline := [(?b, 1)]\<rparr>"
  let ?m = "buildSendMsg serialize_object ?a ?b ''hi''"
  have env [simp]: "q_to_json ref_net_env = serialize_object" "q_from_json ref_net_env = mini_from_json"
    "q_fromUtf8 ref_net_env = string_of_bytes"
    by (simp_all add: ref_net_env_def lenv.extend_def)
  have json: "qt_json (q_to_json ref_net_env) (q_from_json ref_net_env)" using mini_json.qt_json_axioms by simp
  have "length ?m = 41" by code_simp
  then have m: "?m = buildSendMsg (q_to_json ref_net_env) ?a ?b ''hi''" "0 < length ?m" "length ?m \<le> 4194304"
    "q_fromUtf8 ref_net_env (bytes_of_string ?m) = ?m" by simp_all
  have ok: "user_ok ?a" "user_ok ?b" "is_utf8 ''hi''" by (simp_all add: user_ok_def in_int32_def new_UserData_def)
  have "0 < length (lthreads ?s)" "idle (lthreads ?s ! 0)" "signals ?s = []" "users_find ?b (usersOnline ?s) = Some 1"
    "1 < length (lthreads ?s)"
    by (simp_all add: idle_def new_NetWorkThread_def new_MainWindow_def Let_def users_find_def same_user_def
        UserData_less_def)
  from legacy_private_message [OF json m ok this refl] obtain s' where
    "lrun ref_net_env [Arrive 0 (encodeFrame bytes_of_string ?m), ReadyRead 0, Top 0, Pop 0, Slot] ?s = Some s'"
    "\<forall>k < length (lthreads ?s). msgQueue (lthreads s' ! k) =
       msgQueue (lthreads ?s ! k) @ (if k = 1 then [buildReceiveMsg (q_to_json ref_net_env) ?a ?b ''hi''] else [])"
    by blast
  then show ?thesis unfolding Let_def by (intro exI [of _ s']) (simp add: new_NetWorkThread_def del: lrun.simps)
qed

end
