(* ===== verification/LegacyClientSocket.thy ===== *)
theory LegacyClientSocket
  imports LegacyCodec LegacyMsgBuilder
begin

text \<open>
  The connection of the old client: \<^verbatim>\<open>legacy/original-client/HHTcpSocket.cpp\<close> and \<^verbatim>\<open>HHTcpSocket.h\<close>.
  The base class \<open>QTcpSocket\<close> and the timer are Qt's. Of the socket the model keeps the state that
  decides which signals can come (\<open>qs_state\<close>), the bytes that wait to be read (\<open>qs_in\<close>) and those that were taken
  for writing (\<open>qs_out\<close>); of the timer whether it runs, and with which interval. A \<open>QHostAddress\<close> is its text, and
  the reading of a text as an address is the parameter \<open>addr\<close>.

  \<open>socket_event\<close> is what can happen to the connection. Qt emits \<open>connected\<close> when an attempt
  succeeds, \<open>disconnected\<close> when an established connection ends, and neither of them when an attempt fails.

  Shown here: the delays between attempts as the code computes them, how often an attempt is
  made at all, and what becomes of a message that was cut off by the loss of the connection.
\<close>

section \<open>State\<close>

datatype SocketState = UnconnectedState | ConnectingState | ConnectedState

record HHTcpSocket =
  hostData :: UserData
  readBuffer :: "u8 list"
  serverHost :: string
  serverPort :: "16 word"
  reconnectDelayMs :: int
  reconnectTimer :: "int option"
  qs_state :: SocketState
  qs_in :: "u8 list"
  qs_out :: "u8 list"

definition new_HHTcpSocket :: HHTcpSocket where
  "new_HHTcpSocket =
     \<lparr>hostData = new_UserData, readBuffer = [], serverHost = [], serverPort = 0, reconnectDelayMs = 1000,
      reconnectTimer = None, qs_state = UnconnectedState, qs_in = [], qs_out = []\<rparr>"

section \<open>Operations\<close>

text \<open>The singleton: \<open>instance\<close> is a pointer that may be null.\<close>

definition getInstance :: "HHTcpSocket option \<Rightarrow> HHTcpSocket" where
  "getInstance inst = (case inst of None \<Rightarrow> new_HHTcpSocket | Some s \<Rightarrow> s)"

definition releaseInstance :: "HHTcpSocket option \<Rightarrow> HHTcpSocket option" where
  "releaseInstance inst = None"

definition setHostData :: "UserData \<Rightarrow> HHTcpSocket \<Rightarrow> HHTcpSocket" where
  "setHostData data s = s\<lparr>hostData := data\<rparr>"

text \<open>\<open>QAbstractSocket::connectToHost\<close> does nothing but warn unless the socket is unconnected.\<close>

definition connectToHost :: "string \<Rightarrow> 16 word \<Rightarrow> HHTcpSocket \<Rightarrow> HHTcpSocket" where
  "connectToHost host port s =
     (if qs_state s = UnconnectedState then s\<lparr>qs_state := ConnectingState, qs_in := []\<rparr> else s)"

definition connectToServer :: "string \<Rightarrow> 16 word \<Rightarrow> HHTcpSocket \<Rightarrow> HHTcpSocket" where
  "connectToServer address port s =
     connectToHost address port (s\<lparr>serverHost := address, serverPort := port, reconnectDelayMs := 1000\<rparr>)"

text \<open>\<open>write\<close> gives the number of bytes taken, and - 1 on a socket that is not connected.\<close>

definition client_sendJson :: "string \<Rightarrow> HHTcpSocket \<Rightarrow> int \<times> HHTcpSocket" where
  "client_sendJson json s =
     (let data = encodeFrame bytes_of_string json
      in if qs_state s = UnconnectedState then (- 1, s)
         else (int (length data), s\<lparr>qs_out := qs_out s @ data\<rparr>))"

definition readJsonFrames :: "(u8 list \<Rightarrow> string) \<Rightarrow> HHTcpSocket \<Rightarrow> string list \<times> HHTcpSocket" where
  "readJsonFrames fromUtf8 s =
     (let (frames, rest) = decodeFrames fromUtf8 (readBuffer s @ qs_in s)
      in (frames, s\<lparr>readBuffer := rest, qs_in := []\<rparr>))"

definition connectedToServer :: "HHTcpSocket \<Rightarrow> HHTcpSocket" where
  "connectedToServer s = s\<lparr>reconnectDelayMs := 1000, reconnectTimer := None\<rparr>"

definition scheduleReconnect :: "HHTcpSocket \<Rightarrow> HHTcpSocket" where
  "scheduleReconnect s =
     (if serverHost s = [] \<or> serverPort s = 0 then s
      else if reconnectTimer s = None then
        s\<lparr>reconnectTimer := Some (reconnectDelayMs s), reconnectDelayMs := min (reconnectDelayMs s * 2) 30000\<rparr>
      else s)"

definition reconnectNow :: "(string \<Rightarrow> string) \<Rightarrow> HHTcpSocket \<Rightarrow> HHTcpSocket" where
  "reconnectNow addr s =
     (if serverHost s = [] \<or> serverPort s = 0 then s
      else connectToHost (addr (serverHost s)) (serverPort s) s)"

section \<open>What can happen\<close>

datatype socket_event =
    is_Dial: Dial string "16 word"
  | Established
  | Refused
  | Incoming "u8 list"
  | Lost
  | Timeout

definition socket_possible :: "socket_event \<Rightarrow> HHTcpSocket \<Rightarrow> bool" where
  "socket_possible ev s =
     (case ev of
        Dial host port \<Rightarrow> True
      | Established \<Rightarrow> qs_state s = ConnectingState
      | Refused \<Rightarrow> qs_state s = ConnectingState
      | Incoming bs \<Rightarrow> qs_state s = ConnectedState
      | Lost \<Rightarrow> qs_state s = ConnectedState
      | Timeout \<Rightarrow> reconnectTimer s \<noteq> None)"

text \<open>The constructor connects \<open>connected\<close>, \<open>disconnected\<close> and \<open>timeout\<close> to the three slots; the timer is a single shot.\<close>

definition socket_handle :: "(string \<Rightarrow> string) \<Rightarrow> socket_event \<Rightarrow> HHTcpSocket \<Rightarrow> HHTcpSocket" where
  "socket_handle addr ev s =
     (case ev of
        Dial host port \<Rightarrow> connectToServer host port s
      | Established \<Rightarrow> connectedToServer (s\<lparr>qs_state := ConnectedState\<rparr>)
      | Refused \<Rightarrow> s\<lparr>qs_state := UnconnectedState\<rparr>
      | Incoming bs \<Rightarrow> s\<lparr>qs_in := qs_in s @ bs\<rparr>
      | Lost \<Rightarrow> scheduleReconnect (s\<lparr>qs_state := UnconnectedState\<rparr>)
      | Timeout \<Rightarrow> reconnectNow addr (s\<lparr>reconnectTimer := None\<rparr>))"

primrec socket_run :: "(string \<Rightarrow> string) \<Rightarrow> socket_event list \<Rightarrow> HHTcpSocket \<Rightarrow> HHTcpSocket option" where
  "socket_run addr [] s = Some s"
| "socket_run addr (ev # evs) s =
     (if socket_possible ev s then socket_run addr evs (socket_handle addr ev s) else None)"

inductive socket_reach :: "(string \<Rightarrow> string) \<Rightarrow> HHTcpSocket \<Rightarrow> bool" for addr where
  start: "socket_reach addr new_HHTcpSocket"
| step: "socket_reach addr s \<Longrightarrow> socket_possible ev s \<Longrightarrow> socket_reach addr (socket_handle addr ev s)"

lemmas socket_defs = socket_possible_def socket_handle_def connectToServer_def connectToHost_def
  connectedToServer_def scheduleReconnect_def reconnectNow_def

section \<open>Delays\<close>

text \<open>A delay that doubles at every failure and stays at the limit.\<close>

lemma backoff_step: "min (min (1000 * 2 ^ k) 30000 * 2) 30000 = min (1000 * 2 ^ Suc k) (30000 :: int)"
  by (simp add: min_def)

text \<open>A loss of the connection and the end of the timer, \<open>k\<close> times without a connection in between.\<close>

definition failed_attempt :: "HHTcpSocket \<Rightarrow> HHTcpSocket" where
  "failed_attempt s = (scheduleReconnect s)\<lparr>reconnectTimer := None\<rparr>"

lemma failed_attempts:
  assumes "serverHost s \<noteq> []" "serverPort s \<noteq> 0" "reconnectDelayMs s = 1000" "reconnectTimer s = None"
  shows "(failed_attempt ^^ k) s = s\<lparr>reconnectDelayMs := min (1000 * 2 ^ k) 30000\<rparr>"
proof (induction k)
  case (Suc k)
  have "(failed_attempt ^^ Suc k) s = failed_attempt (s\<lparr>reconnectDelayMs := min (1000 * 2 ^ k) 30000\<rparr>)"
    by (simp only: funpow.simps comp_apply Suc.IH)
  also have "\<dots> = s\<lparr>reconnectDelayMs := min (min (1000 * 2 ^ k) 30000 * 2) 30000\<rparr>"
    using assms by (simp add: failed_attempt_def scheduleReconnect_def)
  finally show ?case by (simp only: backoff_step)
qed (use assms in simp)

text \<open>What the timer and the delay are in the states the connection gets into.\<close>

definition socket_inv :: "HHTcpSocket \<Rightarrow> bool" where
  "socket_inv s \<longleftrightarrow>
     reconnectDelayMs s \<in> {1000, 2000} \<and> reconnectTimer s \<in> {None, Some 1000} \<and>
     (qs_state s = ConnectedState \<longrightarrow> reconnectDelayMs s = 1000 \<and> reconnectTimer s = None)"

lemma socket_invariant: "socket_reach addr s \<Longrightarrow> socket_inv s"
proof (induction rule: socket_reach.induct)
  case (step s ev)
  then show ?case by (cases ev) (auto simp: socket_inv_def socket_defs)
qed (simp add: socket_inv_def new_HHTcpSocket_def)

section \<open>Properties\<close>

text \<open>The delay before the next attempt to reconnect doubles with every loss that is scheduled without a
  connection in between, from one second up to thirty and no further: after \<open>k\<close> of them it is
  \<open>min (1000 * 2^k) 30000\<close> milliseconds, that is also what the timer is started with, and a connection sets it
  back to one second.\<close>

theorem reconnect_delay:
  assumes "serverHost s \<noteq> []" "serverPort s \<noteq> 0" "reconnectDelayMs s = 1000" "reconnectTimer s = None"
  shows "reconnectTimer (scheduleReconnect ((failed_attempt ^^ k) s)) = Some (min (1000 * 2 ^ k) 30000) \<and>
    reconnectDelayMs (connectedToServer ((failed_attempt ^^ k) s)) = 1000 \<and>
    scheduleReconnect (scheduleReconnect s) = scheduleReconnect s"
  using failed_attempts [OF assms, of k] assms by (simp add: scheduleReconnect_def connectedToServer_def)

theorem reconnect_delay_witness:
  "let s = connectToServer ''10.0.0.1'' 12345 new_HHTcpSocket
   in reconnectTimer (scheduleReconnect ((failed_attempt ^^ 7) s)) = Some 30000"
  using reconnect_delay [of "connectToServer ''10.0.0.1'' 12345 new_HHTcpSocket" 7]
  by (simp add: connectToServer_def connectToHost_def new_HHTcpSocket_def)

text \<open>The client tries to reconnect once. \<open>scheduleReconnect\<close> is only run at the end of an
  established connection, and that is why, in every state the connection can get into, the timer was started
  with one second if it runs, and the delay is one or two seconds. After the attempt that the timer makes is
  refused, nothing but the user can start another one: the timer does not run and the socket stays unconnected.\<close>

theorem reconnect_tried_once:
  assumes "socket_reach addr s" "qs_state s = ConnectedState" "serverHost s \<noteq> []" "serverPort s \<noteq> 0"
  shows "\<exists>s'. socket_run addr [Lost, Timeout, Refused] s = Some s' \<and>
      reconnectTimer (socket_handle addr Lost s) = Some 1000 \<and>
      (\<forall>ev. socket_possible ev s' \<longleftrightarrow> (\<exists>host port. ev = Dial host port))"
proof -
  have "reconnectDelayMs s = 1000" "reconnectTimer s = None"
    using socket_invariant [OF assms(1)] assms(2) by (auto simp: socket_inv_def)
  then show ?thesis using assms(2-4) by (auto simp: socket_defs split: socket_event.split)
qed

theorem reconnect_tried_once_witness:
  "\<exists>s s'. socket_run id [Dial ''10.0.0.1'' 12345, Established] new_HHTcpSocket = Some s \<and>
     socket_run id [Lost, Timeout, Refused] s = Some s' \<and> \<not> socket_possible Timeout s'"
proof -
  let ?d = "socket_handle id (Dial ''10.0.0.1'' 12345) new_HHTcpSocket"
  let ?s = "socket_handle id Established ?d"
  have p: "socket_possible Established ?d" by (simp add: socket_defs new_HHTcpSocket_def)
  have "socket_reach id ?s"
    by (intro socket_reach.step socket_reach.start p) (simp add: socket_possible_def)
  moreover have "qs_state ?s = ConnectedState" "serverHost ?s \<noteq> []" "serverPort ?s \<noteq> 0"
    by (simp_all add: socket_defs new_HHTcpSocket_def)
  ultimately obtain s' where "socket_run id [Lost, Timeout, Refused] ?s = Some s'"
      "\<forall>ev. socket_possible ev s' \<longleftrightarrow> (\<exists>host port. ev = Dial host port)"
    using reconnect_tried_once [of id ?s] by blast
  moreover have "socket_run id [Dial ''10.0.0.1'' 12345, Established] new_HHTcpSocket = Some ?s"
    using p by (simp add: socket_possible_def)
  ultimately show ?thesis by (intro exI conjI) (assumption+, blast)
qed

text \<open>C39: A message that the loss of a connection cuts off spoils what comes after it. The bytes read of
  it stay in the buffer, also when the connection is made again, and its missing bytes are taken from the
  new stream: after at least the length of the message was read of it, the first message that is handed out is
  the beginning of the lost one continued with the first bytes of the new connection, and the decoding goes on
  behind them, in the middle of a frame.\<close>

theorem reconnect_splices_frames:
  assumes m: "body_ok m" "encodeFrame id m = p @ q" "4 \<le> length p" "q \<noteq> []"
    and s: "readBuffer s = p" "qs_in s = []" "qs_state s = ConnectedState" "reconnectTimer s = None"
      "serverHost s \<noteq> []" "serverPort s \<noteq> 0"
    and bs: "length q \<le> length bs"
  shows "\<exists>s'. socket_run addr [Lost, Timeout, Established, Incoming bs] s = Some s' \<and>
    fst (readJsonFrames f s') = f (drop 4 p @ take (length q) bs) # fst (decodeFrames f (drop (length q) bs))"
proof -
  let ?b = "drop 4 p @ take (length q) bs"
  have len: "length m = length ?b" "length m + 4 = length p + length q"
    using arg_cong [OF m(2), of length] m(3) bs by (simp_all add: encodeFrame_def Let_def)
  then have b: "body_ok ?b" using m(1) by (simp add: body_ok_def)
  have "take 4 p = length_bytes (word_of_nat (length m))"
    using arg_cong [OF m(2), of "take 4"] m(3) by (simp add: encodeFrame_def Let_def)
  then have "p = length_bytes (word_of_nat (length ?b)) @ drop 4 p"
    using append_take_drop_id [of 4 p] len(1) by simp
  then have "p @ bs = encodeFrame id ?b @ drop (length q) bs"
    by (simp add: encodeFrame_def Let_def)
  then have "fst (decodeFrames f (p @ bs)) = f ?b # fst (decodeFrames f (drop (length q) bs))"
    using decode_frame [OF b, of f] by (simp add: split_beta)
  then show ?thesis using s by (auto simp: socket_defs readJsonFrames_def split_beta Let_def)
qed

theorem reconnect_splices_frames_witness:
  "let s = new_HHTcpSocket\<lparr>readBuffer := [0, 0, 0, 3, 65], qs_state := ConnectedState, serverHost := ''h'', serverPort := 1\<rparr>
   in \<exists>s'. socket_run id [Lost, Timeout, Established, Incoming (encodeFrame id [66])] s = Some s' \<and>
        fst (readJsonFrames string_of_bytes s') = [string_of_bytes [65, 0, 0]]"
proof -
  let ?s = "new_HHTcpSocket\<lparr>readBuffer := [0, 0, 0, 3, 65], qs_state := ConnectedState, serverHost := ''h'', serverPort := 1\<rparr>"
  have e: "encodeFrame id [65, 66, 67] = [0, 0, 0, 3, 65] @ [66, 67 :: u8]" "encodeFrame id [66] = [0, 0, 0, 1, 66 :: u8]"
    by code_simp+
  have "decodeFrames string_of_bytes [0, 1, 66 :: u8] = ([], [0, 1, 66])" by (simp add: decodeFrames.simps)
  then show ?thesis
    using reconnect_splices_frames [OF _ e(1), of ?s "encodeFrame id [66]" id string_of_bytes]
    by (simp add: body_ok_def new_HHTcpSocket_def e(2))
qed

end
