(* ===== verification/LegacyClientWidgets.thy ===== *)
theory LegacyClientWidgets
  imports LegacyClientSocket
begin

text \<open>
  The parts of the old client's windows, under \<^verbatim>\<open>legacy/original-client\<close>: \<^verbatim>\<open>MsgMarke.cpp\<close>, \<^verbatim>\<open>FriendItem.cpp\<close>,
  \<^verbatim>\<open>ChatItem.cpp\<close>, \<^verbatim>\<open>ChatWidget.cpp\<close>, \<^verbatim>\<open>ChatDialog.cpp\<close>, \<^verbatim>\<open>GroupChatDialog.cpp\<close>, \<^verbatim>\<open>CreateGroupDialog.cpp\<close> and
  \<^verbatim>\<open>SearchGroupDialog.cpp\<close>. A widget is what it shows and what it keeps; a list widget is the list of its rows.
  Fonts, sizes other than the places of a message and its picture, and layouts are left out.

  Qt's functions are the fields of \<open>client_env\<close>; what is relied on of those that work on texts is the
  contract \<open>qt_text\<close>.

  Shown here: the loop that removes a member from a list is a filter as long as nobody is in it twice, and the row of
  the list of groups leads back to the group it was made of unless its name has a blank.
\<close>

section \<open>The environment\<close>

text \<open>
  \<open>qc_arg\<close> is \<open>QString::arg\<close>, \<open>qc_toInt\<close> is \<open>QString::toInt\<close>, \<open>qc_address\<close> the text of the \<open>QHostAddress\<close> made of a
  text, and \<open>qc_width\<close> the width a label takes for a text after \<open>adjustSize\<close>.
\<close>

record client_env =
  qc_to_json :: "object \<Rightarrow> string"
  qc_from_json :: "string \<Rightarrow> json option"
  qc_fromUtf8 :: "u8 list \<Rightarrow> string"
  qc_arg :: "string \<Rightarrow> string \<Rightarrow> string"
  qc_toInt :: "string \<Rightarrow> int"
  qc_address :: "string \<Rightarrow> string"
  qc_width :: "string \<Rightarrow> int"

text \<open>What ends the client: a call on a null, freed or uninitialised pointer, or an index out of range.\<close>

datatype client_error = NullDialog | FreedDialog | UninitialisedDialog | FreedSocket | BadIndex

text \<open>\<open>QString::split\<close>, which keeps empty parts.\<close>

primrec split_on :: "char \<Rightarrow> string \<Rightarrow> string list" where
  "split_on c [] = [[]]"
| "split_on c (x # xs) =
     (if x = c then [] # split_on c xs else (x # hd (split_on c xs)) # tl (split_on c xs))"

section \<open>Friends\<close>

definition head_picture :: "int \<Rightarrow> string" where
  "head_picture headId =
     (if headId = 1 then '':/heads/head10.jpg''
      else if headId = 2 then '':/heads/head20.jpg''
      else '':/heads/head1.jpg'')"

text \<open>The number in the red mark, if the mark is visible.\<close>

definition setNum :: "int \<Rightarrow> int option" where
  "setNum num = (if num = 0 then None else Some (if num \<ge> 99 then 99 else num))"

record FriendItem =
  fi_user :: UserData
  label_head :: string
  label_name :: string
  waitMsgs :: "string list"
  mm :: "int option"

definition show_name :: "client_env \<Rightarrow> string \<Rightarrow> string \<Rightarrow> int \<Rightarrow> string" where
  "show_name C format name i = qc_arg C (qc_arg C format name) (to_string i)"

definition new_FriendItem :: "client_env \<Rightarrow> UserData \<Rightarrow> FriendItem" where
  "new_FriendItem C user =
     \<lparr>fi_user = user, label_head = head_picture (l_headId user),
      label_name = show_name C ''%1(%2)'' (l_nickname user) (l_id user), waitMsgs = [], mm = None\<rparr>"

definition getWaitMsgs :: "FriendItem \<Rightarrow> string list \<times> FriendItem" where
  "getWaitMsgs fi = (waitMsgs fi, fi\<lparr>waitMsgs := [], mm := setNum 0\<rparr>)"

definition addWaitMsg :: "string \<Rightarrow> FriendItem \<Rightarrow> FriendItem" where
  "addWaitMsg msg fi =
     (let msgs = waitMsgs fi @ [msg] in fi\<lparr>waitMsgs := msgs, mm := setNum (int (length msgs))\<rparr>)"

text \<open>The words in the label of a friend with new messages, in UTF-8.\<close>

definition new_message_format :: string where
  "new_message_format =
     ''('' @ [CHR 0xE6, CHR 0x96, CHR 0xB0, CHR 0xE6, CHR 0xB6, CHR 0x88, CHR 0xE6, CHR 0x81, CHR 0xAF] @ '')%1(%2)''"

definition msgAlarm :: "client_env \<Rightarrow> bool \<Rightarrow> FriendItem \<Rightarrow> FriendItem" where
  "msgAlarm C on fi =
     (if on then fi\<lparr>label_name := show_name C new_message_format (l_nickname (fi_user fi)) (l_id (fi_user fi))\<rparr>
      else fi\<lparr>label_name := show_name C ''%1(%2)'' (l_nickname (fi_user fi)) (l_id (fi_user fi))\<rparr>)"

text \<open>
  The loop of \<open>removeFromFriendList\<close> and \<open>removeGroupFriend\<close>: a row that is removed makes room for the next
  one, which the loop does not look at.
\<close>

function remove_rows :: "int \<Rightarrow> nat \<Rightarrow> FriendItem list \<Rightarrow> FriendItem list" where
  "remove_rows u i items =
     (if i < length items then
        if l_id (fi_user (items ! i)) = u then remove_rows u (i + 1) (take i items @ drop (i + 1) items)
        else remove_rows u (i + 1) items
      else items)"
  by pat_completeness auto
termination by (relation "measure (\<lambda>(_, i, items). length items - i)") auto

declare remove_rows.simps [simp del]

section \<open>Messages\<close>

datatype ChatRole = role_host | role_guest

definition ITEM_WIDTH :: int where "ITEM_WIDTH = 600"

definition HEAD_WIDTH :: int where "HEAD_WIDTH = 50"

text \<open>The text, the picture, whose message it is, and where the picture and the text begin.\<close>

record ChatItem =
  labelMsg :: string
  labelHead :: string
  ci_role :: ChatRole
  head_x :: int
  msg_x :: int

definition hostSet :: "client_env \<Rightarrow> ChatItem \<Rightarrow> ChatItem" where
  "hostSet C it = it\<lparr>head_x := ITEM_WIDTH - HEAD_WIDTH, msg_x := ITEM_WIDTH - HEAD_WIDTH - qc_width C (labelMsg it)\<rparr>"

definition guestSet :: "ChatItem \<Rightarrow> ChatItem" where
  "guestSet it = it\<lparr>head_x := 0, msg_x := HEAD_WIDTH\<rparr>"

definition new_ChatItem :: "client_env \<Rightarrow> string \<Rightarrow> int \<Rightarrow> ChatRole \<Rightarrow> ChatItem" where
  "new_ChatItem C msg headId role =
     (let it = \<lparr>labelMsg = msg, labelHead = head_picture headId, ci_role = role, head_x = 0, msg_x = 0\<rparr>
      in case role of role_host \<Rightarrow> hostSet C it | role_guest \<Rightarrow> guestSet it)"

definition addMsg :: "client_env \<Rightarrow> string \<Rightarrow> int \<Rightarrow> ChatRole \<Rightarrow> ChatItem list \<Rightarrow> ChatItem list" where
  "addMsg C msg headId role items = items @ [new_ChatItem C msg headId role]"

section \<open>The window of a conversation\<close>

text \<open>\<open>cd_text\<close> is what the user typed. The pointer to the friend's row is kept by the code and never used.\<close>

record ChatDialog =
  cd_user :: UserData
  cd_title :: string
  cd_chat :: "ChatItem list"
  cd_text :: string

definition new_ChatDialog :: "client_env \<Rightarrow> string list \<Rightarrow> UserData \<Rightarrow> ChatDialog" where
  "new_ChatDialog C msgs user =
     \<lparr>cd_user = user, cd_title = show_name C ''%1(%2)'' (l_nickname user) (l_id user),
      cd_chat = fold (\<lambda>m. addMsg C m (l_headId user) role_guest) msgs [], cd_text = []\<rparr>"

definition cd_addReceiveMsg :: "client_env \<Rightarrow> UserData \<Rightarrow> string \<Rightarrow> ChatDialog \<Rightarrow> ChatDialog" where
  "cd_addReceiveMsg C from msg d = d\<lparr>cd_chat := addMsg C msg (l_headId (cd_user d)) role_guest (cd_chat d)\<rparr>"

definition cd_send_clicked :: "client_env \<Rightarrow> ChatDialog \<Rightarrow> HHTcpSocket \<Rightarrow> ChatDialog \<times> HHTcpSocket" where
  "cd_send_clicked C d s =
     (let msg = cd_text d; d = d\<lparr>cd_text := []\<rparr>
      in if msg = [] then (d, s)
         else
           let (_, s) = client_sendJson (buildSendMsg (qc_to_json C) (hostData s) (cd_user d) msg) s
           in (d\<lparr>cd_chat := addMsg C msg (l_headId (hostData s)) role_host (cd_chat d)\<rparr>, s))"

section \<open>The window of a group\<close>

record GroupChatDialog =
  gc_groupId :: int
  gc_name :: string
  gc_title :: string
  gc_friends :: "FriendItem list"
  gc_chat :: "ChatItem list"
  gc_text :: string

definition new_GroupChatDialog :: "client_env \<Rightarrow> int \<Rightarrow> string \<Rightarrow> GroupChatDialog" where
  "new_GroupChatDialog C groupId name =
     \<lparr>gc_groupId = groupId, gc_name = name, gc_title = show_name C ''%1(%2)'' name groupId, gc_friends = [],
      gc_chat = [], gc_text = []\<rparr>"

definition addGroupFriend :: "client_env \<Rightarrow> UserData \<Rightarrow> GroupChatDialog \<Rightarrow> GroupChatDialog" where
  "addGroupFriend C groupFriend d = d\<lparr>gc_friends := gc_friends d @ [new_FriendItem C groupFriend]\<rparr>"

definition addGroupFriends :: "client_env \<Rightarrow> UserData list \<Rightarrow> GroupChatDialog \<Rightarrow> GroupChatDialog" where
  "addGroupFriends C groupFriends d = fold (addGroupFriend C) groupFriends d"

definition removeGroupFriend :: "UserData \<Rightarrow> GroupChatDialog \<Rightarrow> GroupChatDialog" where
  "removeGroupFriend groupFriend d = d\<lparr>gc_friends := remove_rows (l_id groupFriend) 0 (gc_friends d)\<rparr>"

definition gc_addReceiveMsg :: "client_env \<Rightarrow> UserData \<Rightarrow> string \<Rightarrow> GroupChatDialog \<Rightarrow> GroupChatDialog" where
  "gc_addReceiveMsg C user msg d = d\<lparr>gc_chat := addMsg C msg (l_headId user) role_guest (gc_chat d)\<rparr>"

definition gc_send_clicked ::
  "client_env \<Rightarrow> GroupChatDialog \<Rightarrow> HHTcpSocket \<Rightarrow> GroupChatDialog \<times> HHTcpSocket" where
  "gc_send_clicked C d s =
     (let msg = gc_text d
      in if msg = [] then (d, s)
         else
           let (_, s) = client_sendJson (buildSendGroupMsg (qc_to_json C) (hostData s) (gc_groupId d) msg) s;
               d = d\<lparr>gc_text := []\<rparr>
           in (d\<lparr>gc_chat := addMsg C msg (l_headId (hostData s)) role_host (gc_chat d)\<rparr>, s))"

section \<open>Creating and finding groups\<close>

record CreateGroupDialog =
  label_groupId :: string

definition new_CreateGroupDialog :: CreateGroupDialog where
  "new_CreateGroupDialog = \<lparr>label_groupId = []\<rparr>"

text \<open>The words around the number are the bytes of the source, which are not those of a readable text.\<close>

definition group_id_format :: string where
  "group_id_format =
     [CHR 0xE7, CHR 0xBC, CHR 0x87, CHR 0xE3, CHR 0x82, CHR 0x85, CHR 0xE5, CHR 0xBD, CHR 0xBF] @ '' %1 '' @
     [CHR 0xE8, CHR 0xB9, CHR 0x87, CHR 0xEE, CHR 0x82, CHR 0xA2, CHR 0xE5, CHR 0xB9, CHR 0x93, CHR 0xE9, CHR 0x8F,
      CHR 0x8C, CHR 0xE3, CHR 0x83, CHR 0xA6, CHR 0xE5, CHR 0xA3, CHR 0x98, CHR 0xE7, CHR 0xBC, CHR 0x87, CHR 0xE3,
      CHR 0x82, CHR 0x85, CHR 0xE6, CHR 0x83, CHR 0x82] @ ''!''"

definition showGroupId :: "client_env \<Rightarrow> int \<Rightarrow> CreateGroupDialog \<Rightarrow> CreateGroupDialog" where
  "showGroupId C groupId d = d\<lparr>label_groupId := qc_arg C group_id_format (to_string groupId)\<rparr>"

definition create_clicked :: "client_env \<Rightarrow> string \<Rightarrow> HHTcpSocket \<Rightarrow> HHTcpSocket" where
  "create_clicked C name s = snd (client_sendJson (buildCreateGroup (qc_to_json C) name) s)"

record SearchGroupDialog =
  sg_items :: "string list"

definition new_SearchGroupDialog :: SearchGroupDialog where
  "new_SearchGroupDialog = \<lparr>sg_items = []\<rparr>"

definition setGroups :: "client_env \<Rightarrow> int list \<Rightarrow> string list \<Rightarrow> SearchGroupDialog \<Rightarrow> SearchGroupDialog" where
  "setGroups C ids names d =
     d\<lparr>sg_items := sg_items d @ map (\<lambda>(i, name). show_name C ''%1 %2'' name i) (zip ids names)\<rparr>"

text \<open>The number and the name with which the signal \<open>createGroupChatDialog\<close> is emitted.\<close>

definition sg_itemDoubleClicked :: "client_env \<Rightarrow> string \<Rightarrow> client_error + int \<times> string" where
  "sg_itemDoubleClicked C itemStr =
     (let parts = split_on (CHR '' '') itemStr
      in if length parts < 2 then Inl BadIndex else Inr (qc_toInt C (parts ! 1), parts ! 0))"

section \<open>The removing loop\<close>

text \<open>What the loop does to the rest of the rows, as a recursion over them.\<close>

fun skip_filter :: "('a \<Rightarrow> bool) \<Rightarrow> 'a list \<Rightarrow> 'a list" where
  "skip_filter p [] = []"
| "skip_filter p [x] = (if p x then [] else [x])"
| "skip_filter p (x # y # xs) = (if p x then y # skip_filter p xs else x # skip_filter p (y # xs))"

lemma remove_rows_skip:
  "remove_rows u (length xs) (xs @ ys) = xs @ skip_filter (\<lambda>fi. l_id (fi_user fi) = u) ys"
proof (induction "\<lambda>fi :: FriendItem. l_id (fi_user fi) = u" ys arbitrary: xs rule: skip_filter.induct)
  case 1
  then show ?case by (simp add: remove_rows.simps)
next
  case (2 x)
  then show ?case by (simp add: remove_rows.simps [of u "length xs"] remove_rows.simps [of u "Suc (length xs)"])
next
  case (3 x y ys)
  then show ?case
    using "3.hyps"(1) [of "xs @ [y]"] "3.hyps"(2) [of "xs @ [x]"]
    by (simp add: remove_rows.simps [of u "length xs"])
qed

text \<open>It is a filter exactly if no two neighbours are to be removed.\<close>

lemma filter_head: "filter (\<lambda>x. \<not> p x) xs = y # ys \<Longrightarrow> \<not> p y"
  using filter_set [of "\<lambda>x. \<not> p x" xs] by (auto simp: set_eq_iff)

lemma skip_filter_iff:
  "skip_filter p xs = filter (\<lambda>x. \<not> p x) xs \<longleftrightarrow> successively (\<lambda>x y. \<not> (p x \<and> p y)) xs"
proof (induction p xs rule: skip_filter.induct)
  case (3 p x y xs)
  have "successively (\<lambda>x y. \<not> (p x \<and> p y)) (y # xs) = successively (\<lambda>x y. \<not> (p x \<and> p y)) xs" if "\<not> p y"
    using that by (cases xs) simp_all
  then show ?case using 3 filter_head [of p xs y "skip_filter p xs"] by (cases "p y") auto
qed simp_all

lemma successively_distinct:
  "distinct (map f xs) \<Longrightarrow> successively (\<lambda>x y. \<not> (f x = u \<and> f y = u)) xs"
  by (induction xs rule: induct_list012) auto

text \<open>C34: Removing a user from a list of friends or of members. The loop over the rows equals the
  specification, keeping the rows of all others in order, exactly if no two neighbouring rows are the user's: the row
  after a removed one is not looked at. In particular it does when no user is in the list twice.\<close>

theorem removal_equals_filter:
  fixes items :: "FriendItem list"
  shows "(remove_rows u 0 items = filter (\<lambda>fi. l_id (fi_user fi) \<noteq> u) items) =
      successively (\<lambda>x y. \<not> (l_id (fi_user x) = u \<and> l_id (fi_user y) = u)) items \<and>
    (distinct (map (\<lambda>fi. l_id (fi_user fi)) items) \<longrightarrow>
      remove_rows u 0 items = filter (\<lambda>fi. l_id (fi_user fi) \<noteq> u) items)"
  using remove_rows_skip [of u "[]" items] skip_filter_iff [of "\<lambda>fi. l_id (fi_user fi) = u" items]
    successively_distinct [of "\<lambda>fi. l_id (fi_user fi)" items u]
  by simp

theorem removal_equals_filter_witness:
  "let x = \<lambda>i. \<lparr>fi_user = new_UserData\<lparr>l_id := i\<rparr>, label_head = [], label_name = [], waitMsgs = [], mm = None\<rparr>
   in remove_rows 2 0 [x 1, x 2, x 3] = [x 1, x 3] \<and> remove_rows 2 0 [x 2, x 2] \<noteq> []"
  using removal_equals_filter [of 2 "map (\<lambda>i. \<lparr>fi_user = new_UserData\<lparr>l_id := i\<rparr>, label_head = [], label_name = [],
      waitMsgs = [], mm = None\<rparr>) [1, 2, 3]"]
    removal_equals_filter [of 2 "map (\<lambda>i. \<lparr>fi_user = new_UserData\<lparr>l_id := i\<rparr>, label_head = [], label_name = [],
      waitMsgs = [], mm = None\<rparr>) [2, 2]"]
  by simp

section \<open>Texts\<close>

lemma split_on_nonempty [simp]: "split_on c xs \<noteq> []"
  by (cases xs) simp_all

lemma split_on_word: "c \<notin> set a \<Longrightarrow> split_on c a = [a]"
  by (induction a) auto

lemma split_on_first: "c \<notin> set a \<Longrightarrow> split_on c (a @ c # b) = a # split_on c b"
  by (induction a) auto

text \<open>
  What Qt documents of \<open>arg\<close>, for the formats used here: the marker with the lowest number is replaced; and
  of \<open>toInt\<close>: it reads a number as it is written, and gives 0 for a text that is none.
\<close>

locale qt_text =
  fixes arg :: "string \<Rightarrow> string \<Rightarrow> string"
    and toInt :: "string \<Rightarrow> int"
  assumes arg_first: "c \<notin> {CHR ''%'', CHR ''L''} \<Longrightarrow> \<not> isdigit c \<Longrightarrow> arg (''%1'' @ [c] @ ''%2'') a = a @ [c] @ ''%2''"
    and arg_second: "CHR ''%'' \<notin> set s \<Longrightarrow> arg (s @ ''%2'') a = s @ a"
    and toInt_number: "in_int32 i \<Longrightarrow> toInt (to_string i) = i"
    and toInt_no_number: "x \<in> set s \<Longrightarrow> \<not> isdigit x \<Longrightarrow> x \<notin> set '' +-'' \<Longrightarrow> toInt s = 0"
begin

lemma row_text: "CHR ''%'' \<notin> set name \<Longrightarrow> arg (arg ''%1 %2'' name) t = name @ '' '' @ t"
  using arg_first [of "CHR '' ''" name] arg_second [of "name @ '' ''" t] by (simp add: isdigit_def)

end

text \<open>
  Functions that satisfy the contract. A marker is a percent sign with one or two digits; \<open>marker_at\<close> gives its number
  and how many characters follow the first, \<open>put_arg\<close> replaces every marker of a number.
\<close>

fun marker_at :: "string \<Rightarrow> (nat \<times> nat) option" where
  "marker_at (c # d # r) =
     (if c = CHR ''%'' \<and> isdigit d \<and> d \<noteq> CHR ''0'' then
        case r of
          [] \<Rightarrow> Some (of_char d - 48, 1)
        | e # _ \<Rightarrow> if isdigit e then Some (10 * (of_char d - 48) + (of_char e - 48), 2) else Some (of_char d - 48, 1)
      else None)"
| "marker_at _ = None"

primrec lowest_marker :: "string \<Rightarrow> nat option" where
  "lowest_marker [] = None"
| "lowest_marker (c # r) =
     (case marker_at (c # r) of
        None \<Rightarrow> lowest_marker r
      | Some (n, _) \<Rightarrow> Some (case lowest_marker r of None \<Rightarrow> n | Some m \<Rightarrow> min n m))"

primrec put_arg :: "nat \<Rightarrow> string \<Rightarrow> nat \<Rightarrow> string \<Rightarrow> string" where
  "put_arg n a k [] = []"
| "put_arg n a k (c # r) =
     (if 0 < k then put_arg n a (k - 1) r
      else case marker_at (c # r) of
             None \<Rightarrow> c # put_arg n a 0 r
           | Some (m, l) \<Rightarrow> if m = n then a @ put_arg n a l r else c # put_arg n a 0 r)"

definition ref_arg :: "string \<Rightarrow> string \<Rightarrow> string" where
  "ref_arg s a = (case lowest_marker s of None \<Rightarrow> s | Some n \<Rightarrow> put_arg n a 0 s)"

definition ref_toInt :: "string \<Rightarrow> int" where
  "ref_toInt s = (case stoll s of Inl _ \<Rightarrow> 0 | Inr i \<Rightarrow> if in_int32 i \<and> to_string i = s then i else 0)"

lemma no_marker [simp]: "c \<noteq> CHR ''%'' \<Longrightarrow> marker_at (c # r) = None"
  by (cases r) simp_all

lemma second_marker:
  "CHR ''%'' \<notin> set s \<Longrightarrow> lowest_marker (s @ ''%2'') = Some 2"
  "CHR ''%'' \<notin> set s \<Longrightarrow> put_arg 2 a 0 (s @ ''%2'') = s @ a"
  by (induction s) (auto simp: isdigit_def)

lemma to_string_chars: "x \<in> set (to_string i) \<Longrightarrow> isdigit x \<or> x = CHR ''-''"
  using digits_props [of i] digits_props [of "- i"] by (auto simp: to_string_def split: if_splits)

interpretation ref_text: qt_text ref_arg ref_toInt
proof
  fix c :: char and a s :: string and i :: int and x :: char
  show "ref_arg (''%1'' @ [c] @ ''%2'') a = a @ [c] @ ''%2''"
    if "c \<notin> {CHR ''%'', CHR ''L''}" "\<not> isdigit c"
    using that by (simp add: ref_arg_def) (simp add: isdigit_def)
  show "ref_arg (s @ ''%2'') a = s @ a" if "CHR ''%'' \<notin> set s"
    using that by (simp add: ref_arg_def second_marker)
  show "ref_toInt (to_string i) = i" if "in_int32 i"
    using that by (simp add: ref_toInt_def stoll_to_string in_int32_int64)
  show "ref_toInt s = 0" if "x \<in> set s" "\<not> isdigit x" "x \<notin> set '' +-''"
    using that to_string_chars by (auto simp: ref_toInt_def split: sum.split)
qed

section \<open>Rows of groups\<close>

lemma row_parts:
  assumes "qt_text (qc_arg C) (qc_toInt C)" "CHR ''%'' \<notin> set name"
  shows "show_name C ''%1 %2'' name i = name @ '' '' @ to_string i"
  using qt_text.row_text [OF assms] by (simp add: show_name_def)

lemma row_of_word:
  assumes "qt_text (qc_arg C) (qc_toInt C)" "CHR ''%'' \<notin> set name" "CHR '' '' \<notin> set name" "in_int32 i"
  shows "sg_itemDoubleClicked C (show_name C ''%1 %2'' name i) = Inr (i, name)"
proof -
  have "CHR '' '' \<notin> set (to_string i)" using to_string_chars [of "CHR '' ''" i] by (auto simp: isdigit_def)
  then show ?thesis
    using row_parts [OF assms(1,2), of i] assms(3) qt_text.toInt_number [OF assms(1,4)]
    by (simp add: sg_itemDoubleClicked_def split_on_first split_on_word)
qed

lemma row_of_words:
  assumes "qt_text (qc_arg C) (qc_toInt C)" "CHR ''%'' \<notin> set (a @ b)" "CHR '' '' \<notin> set a" "CHR '' '' \<notin> set b"
    "x \<in> set b" "\<not> isdigit x" "x \<notin> set '' +-''"
  shows "sg_itemDoubleClicked C (show_name C ''%1 %2'' (a @ '' '' @ b) i) = Inr (0, a)"
  using row_parts [OF assms(1), of "a @ '' '' @ b" i] assms(2-4) qt_text.toInt_no_number [OF assms(1,5-7)]
  by (simp add: sg_itemDoubleClicked_def split_on_first)

text \<open>In the list of groups found, a double click on a row asks for the group of that row, by its number
  and its name, if the name has no blank and no percent sign. A name of two words, the second not a number, is cut at
  the blank: whichever group it was, the client asks for group 0 under the first word.\<close>

theorem search_row_group:
  assumes qt: "qt_text (qc_arg C) (qc_toInt C)"
    and n: "length ids = length names" "k < length ids" "in_int32 (ids ! k)" "CHR ''%'' \<notin> set (names ! k)"
  shows "(CHR '' '' \<notin> set (names ! k) \<longrightarrow>
      sg_itemDoubleClicked C (sg_items (setGroups C ids names new_SearchGroupDialog) ! k) = Inr (ids ! k, names ! k)) \<and>
    (\<forall>a b x. names ! k = a @ '' '' @ b \<and> CHR '' '' \<notin> set (a @ b) \<and> x \<in> set b \<and> \<not> isdigit x \<and> x \<notin> set '' +-'' \<longrightarrow>
      sg_itemDoubleClicked C (sg_items (setGroups C ids names new_SearchGroupDialog) ! k) = Inr (0, a))"
proof -
  have "sg_items (setGroups C ids names new_SearchGroupDialog) ! k = show_name C ''%1 %2'' (names ! k) (ids ! k)"
    using n(1,2) by (simp add: setGroups_def new_SearchGroupDialog_def)
  then show ?thesis using row_of_word [OF qt n(4) _ n(3)] row_of_words [OF qt] n(4) by auto
qed

definition ref_client_env :: client_env where
  "ref_client_env =
     \<lparr>qc_to_json = serialize_object, qc_from_json = mini_from_json, qc_fromUtf8 = string_of_bytes, qc_arg = ref_arg,
      qc_toInt = ref_toInt, qc_address = id, qc_width = (\<lambda>s. min 550 (7 * int (length s)))\<rparr>"

theorem search_row_group_witness:
  "let d = setGroups ref_client_env [200000, 200001] [''cats'', ''my room''] new_SearchGroupDialog
   in sg_itemDoubleClicked ref_client_env (sg_items d ! 0) = Inr (200000, ''cats'') \<and>
      sg_itemDoubleClicked ref_client_env (sg_items d ! 1) = Inr (0, ''my'')"
proof -
  have qt: "qt_text (qc_arg ref_client_env) (qc_toInt ref_client_env)"
    using ref_text.qt_text_axioms by (simp add: ref_client_env_def)
  note g = search_row_group [OF qt, of "[200000, 200001]" "[''cats'', ''my room'']"]
  show ?thesis
    using g [of 0, simplified] spec [OF spec [OF spec [OF conjunct2 [OF g [of 1]], of "''my''"], of "''room''"], of "CHR ''r''"]
    by (simp add: in_int32_def isdigit_def)
qed

end
