(* ===== verification/LegacyClientWindow.thy ===== *)
theory LegacyClientWindow
  imports LegacyClientWidgets
begin

text \<open>
  The main window of the old client: \<^verbatim>\<open>legacy/original-client/MainWindow.cpp\<close>. It keeps the list of the users that are
  online, the open conversations and groups, and up to one dialog each for creating and finding groups, and it
  handles the messages of the server after the login.

  The two \<open>std::map\<close>s are maps from numbers, since users are ordered by their numbers. A pointer to a dialog that may be null
  is an option. A slot that calls a method on a null pointer gives \<open>Inl NullDialog\<close>. Dialogs that were closed are not
  deleted by the code; nothing refers to them any more and they are left out.

  Shown here: exactly which messages make the client crash, that the messages received while no conversation is open
  are shown, in order, when it is opened, and that what the window keeps is consistent.
\<close>

section \<open>State\<close>

record MainWindow =
  friends :: "FriendItem list"
  label_hostname :: string
  chatFriends :: "int \<rightharpoonup> ChatDialog"
  createGroupDialog :: "CreateGroupDialog option"
  searchGroupDialog :: "SearchGroupDialog option"
  groupChats :: "int \<rightharpoonup> GroupChatDialog"

section \<open>Friends\<close>

definition addFriendsList :: "client_env \<Rightarrow> UserData \<Rightarrow> MainWindow \<Rightarrow> MainWindow" where
  "addFriendsList C user w = w\<lparr>friends := friends w @ [new_FriendItem C user]\<rparr>"

definition initFriendsList :: "client_env \<Rightarrow> UserData list \<Rightarrow> MainWindow \<Rightarrow> MainWindow" where
  "initFriendsList C users w = fold (addFriendsList C) users w"

definition client_MainWindow :: "client_env \<Rightarrow> UserData list \<Rightarrow> HHTcpSocket \<Rightarrow> MainWindow" where
  "client_MainWindow C users s =
     (let w = initFriendsList C users
            \<lparr>friends = [], label_hostname = [], chatFriends = Map.empty, createGroupDialog = None,
             searchGroupDialog = None, groupChats = Map.empty\<rparr>
      in w\<lparr>label_hostname := show_name C ''%1(%2)'' (l_nickname (hostData s)) (l_id (hostData s))\<rparr>)"

definition removeFromFriendList :: "UserData \<Rightarrow> MainWindow \<Rightarrow> MainWindow" where
  "removeFromFriendList user w = w\<lparr>friends := remove_rows (l_id user) 0 (friends w)\<rparr>"

section \<open>Messages of the server\<close>

definition mw_createGroupReturn :: "client_env \<Rightarrow> string \<Rightarrow> MainWindow \<Rightarrow> client_error + MainWindow" where
  "mw_createGroupReturn C jsonStr w =
     (let groupId = parseCreateGroupReturn (qc_from_json C) jsonStr
      in case createGroupDialog w of
           None \<Rightarrow> Inl NullDialog
         | Some d \<Rightarrow> Inr (w\<lparr>createGroupDialog := Some (showGroupId C groupId d)\<rparr>))"

definition mw_searchGroupReturn :: "client_env \<Rightarrow> string \<Rightarrow> MainWindow \<Rightarrow> client_error + MainWindow" where
  "mw_searchGroupReturn C jsonStr w =
     (let (ids, names) = parseSearchGroupReturn (qc_from_json C) jsonStr [] []
      in case searchGroupDialog w of
           None \<Rightarrow> Inl NullDialog
         | Some d \<Rightarrow> Inr (w\<lparr>searchGroupDialog := Some (setGroups C ids names d)\<rparr>))"

definition mw_joinGroupReturn :: "client_env \<Rightarrow> string \<Rightarrow> MainWindow \<Rightarrow> client_error + MainWindow" where
  "mw_joinGroupReturn C jsonStr w =
     (let (groupId, groupFriends) = parseJoinGroupReturn (qc_from_json C) jsonStr []
      in case groupChats w groupId of
           None \<Rightarrow> Inr w
         | Some d \<Rightarrow> Inr (w\<lparr>groupChats := (groupChats w)(groupId \<mapsto> addGroupFriends C groupFriends d)\<rparr>))"

text \<open>
  In the three that follow, \<open>groupChats[groupId]\<close> enters a null pointer for a group that is not in the map,
  on which the method is called.
\<close>

definition mw_userJoinGroup :: "client_env \<Rightarrow> string \<Rightarrow> MainWindow \<Rightarrow> client_error + MainWindow" where
  "mw_userJoinGroup C jsonStr w =
     (let (groupFriend, groupId) = parseUserJoinGroup (qc_from_json C) jsonStr
      in case groupChats w groupId of
           None \<Rightarrow> Inl NullDialog
         | Some d \<Rightarrow> Inr (w\<lparr>groupChats := (groupChats w)(groupId \<mapsto> addGroupFriend C groupFriend d)\<rparr>))"

definition mw_userLeaveGroup :: "client_env \<Rightarrow> string \<Rightarrow> MainWindow \<Rightarrow> client_error + MainWindow" where
  "mw_userLeaveGroup C jsonStr w =
     (let (user, groupId) = parseUserLeaveGroup (qc_from_json C) jsonStr
      in case groupChats w groupId of
           None \<Rightarrow> Inl NullDialog
         | Some d \<Rightarrow> Inr (w\<lparr>groupChats := (groupChats w)(groupId \<mapsto> removeGroupFriend user d)\<rparr>))"

definition mw_receiveGroupMsg :: "client_env \<Rightarrow> string \<Rightarrow> MainWindow \<Rightarrow> client_error + MainWindow" where
  "mw_receiveGroupMsg C jsonStr w =
     (let (msg, groupId, user) = parseReceiveGroupMsg (qc_from_json C) jsonStr
      in case groupChats w groupId of
           None \<Rightarrow> Inl NullDialog
         | Some d \<Rightarrow> Inr (w\<lparr>groupChats := (groupChats w)(groupId \<mapsto> gc_addReceiveMsg C user msg d)\<rparr>))"

definition mw_receiveMsg :: "client_env \<Rightarrow> string \<Rightarrow> MainWindow \<Rightarrow> MainWindow" where
  "mw_receiveMsg C jsonStr w =
     (let (msg, from, to) = parseReceiveMsg (qc_from_json C) jsonStr new_UserData new_UserData
      in case chatFriends w (l_id from) of
           Some d \<Rightarrow> w\<lparr>chatFriends := (chatFriends w)(l_id from \<mapsto> cd_addReceiveMsg C from msg d)\<rparr>
         | None \<Rightarrow>
             w\<lparr>friends := map (\<lambda>fi. if l_id (fi_user fi) = l_id from then msgAlarm C True (addWaitMsg msg fi) else fi)
                 (friends w)\<rparr>)"

text \<open>The body of the loop of \<open>readyRead\<close>, and the loop over the frames that were read.\<close>

definition mw_frame :: "client_env \<Rightarrow> string \<Rightarrow> MainWindow \<Rightarrow> client_error + MainWindow" where
  "mw_frame C data w =
     (let ty = msgType (qc_from_json C) data
      in if ty = legacy_value userOnline then
           Inr (addFriendsList C (parseUserOnline (qc_from_json C) data) w)
         else if ty = legacy_value userOffline then
           Inr (removeFromFriendList (parseUserOffline (qc_from_json C) data) w)
         else if ty = legacy_value receiveMsg then Inr (mw_receiveMsg C data w)
         else if ty = legacy_value createGroupReturn then mw_createGroupReturn C data w
         else if ty = legacy_value searchGroupReturn then mw_searchGroupReturn C data w
         else if ty = legacy_value joinGroupReturn then mw_joinGroupReturn C data w
         else if ty = legacy_value userJoinGroup then mw_userJoinGroup C data w
         else if ty = legacy_value userLeaveGroup then mw_userLeaveGroup C data w
         else if ty = legacy_value receiveGroupMsg then mw_receiveGroupMsg C data w
         else Inr w)"

primrec mw_frames :: "client_env \<Rightarrow> string list \<Rightarrow> MainWindow \<Rightarrow> client_error + MainWindow" where
  "mw_frames C [] w = Inr w"
| "mw_frames C (data # fs) w = (case mw_frame C data w of Inl e \<Rightarrow> Inl e | Inr w' \<Rightarrow> mw_frames C fs w')"

definition mw_readyRead ::
  "client_env \<Rightarrow> MainWindow \<Rightarrow> HHTcpSocket \<Rightarrow> client_error + MainWindow \<times> HHTcpSocket" where
  "mw_readyRead C w s =
     (let (fs, s) = readJsonFrames (qc_fromUtf8 C) s
      in case mw_frames C fs w of Inl e \<Rightarrow> Inl e | Inr w \<Rightarrow> Inr (w, s))"

section \<open>The user's actions\<close>

text \<open>A double click on row \<open>i\<close> of the list of friends.\<close>

definition friends_itemDoubleClicked :: "client_env \<Rightarrow> nat \<Rightarrow> MainWindow \<Rightarrow> MainWindow" where
  "friends_itemDoubleClicked C i w =
     (let user = fi_user (friends w ! i)
      in if chatFriends w (l_id user) \<noteq> None then w
         else
           let (msgs, fi) = getWaitMsgs (friends w ! i);
               dialog = new_ChatDialog C msgs user;
               fi = msgAlarm C False fi
           in w\<lparr>friends := (friends w)[i := fi], chatFriends := (chatFriends w)(l_id user \<mapsto> dialog)\<rparr>)"

definition chat_rejected :: "int \<Rightarrow> MainWindow \<Rightarrow> MainWindow" where
  "chat_rejected u w = w\<lparr>chatFriends := (chatFriends w)(u := None)\<rparr>"

definition createGroupDialogRejected :: "MainWindow \<Rightarrow> MainWindow" where
  "createGroupDialogRejected w = w\<lparr>createGroupDialog := None\<rparr>"

definition searchGroupDialogRejected :: "MainWindow \<Rightarrow> MainWindow" where
  "searchGroupDialogRejected w = w\<lparr>searchGroupDialog := None\<rparr>"

definition groupChatDialogRejected ::
  "client_env \<Rightarrow> int \<Rightarrow> MainWindow \<Rightarrow> HHTcpSocket \<Rightarrow> MainWindow \<times> HHTcpSocket" where
  "groupChatDialogRejected C groupId w s =
     (let s = snd (client_sendJson (buildLeaveGroup (qc_to_json C) (hostData s) groupId) s)
      in (w\<lparr>groupChats := (groupChats w)(groupId := None)\<rparr>, s))"

definition createGroupChatDialog ::
  "client_env \<Rightarrow> int \<Rightarrow> string \<Rightarrow> MainWindow \<Rightarrow> HHTcpSocket \<Rightarrow> MainWindow \<times> HHTcpSocket" where
  "createGroupChatDialog C i name w s =
     (if groupChats w i \<noteq> None then (w, s)
      else
        let w = w\<lparr>groupChats := (groupChats w)(i \<mapsto> new_GroupChatDialog C i name)\<rparr>;
            s = snd (client_sendJson (buildJoinGroup (qc_to_json C) (hostData s) i) s)
        in (w, s))"

definition createGroup_clicked :: "MainWindow \<Rightarrow> MainWindow" where
  "createGroup_clicked w =
     (if createGroupDialog w \<noteq> None then w else w\<lparr>createGroupDialog := Some new_CreateGroupDialog\<rparr>)"

definition searchGroup_clicked :: "client_env \<Rightarrow> MainWindow \<Rightarrow> HHTcpSocket \<Rightarrow> MainWindow \<times> HHTcpSocket" where
  "searchGroup_clicked C w s =
     (if searchGroupDialog w \<noteq> None then (w, s)
      else
        let w = w\<lparr>searchGroupDialog := Some new_SearchGroupDialog\<rparr>;
            s = snd (client_sendJson (buildSearchGroup (qc_to_json C)) s)
        in (w, s))"

text \<open>A double click on row \<open>i\<close> of the list of groups found, whose signal is connected to the window.\<close>

definition search_row_clicked ::
  "client_env \<Rightarrow> nat \<Rightarrow> SearchGroupDialog \<Rightarrow> MainWindow \<Rightarrow> HHTcpSocket \<Rightarrow> client_error + MainWindow \<times> HHTcpSocket" where
  "search_row_clicked C i d w s =
     (case sg_itemDoubleClicked C (sg_items d ! i) of
        Inl e \<Rightarrow> Inl e
      | Inr (g, name) \<Rightarrow> Inr (createGroupChatDialog C g name w s))"

lemmas window_defs = mw_createGroupReturn_def mw_searchGroupReturn_def mw_joinGroupReturn_def mw_userJoinGroup_def
  mw_userLeaveGroup_def mw_receiveGroupMsg_def mw_receiveMsg_def addFriendsList_def removeFromFriendList_def

lemmas action_defs = friends_itemDoubleClicked_def chat_rejected_def createGroupDialogRejected_def
  searchGroupDialogRejected_def groupChatDialogRejected_def createGroupChatDialog_def createGroup_clicked_def
  searchGroup_clicked_def search_row_clicked_def

section \<open>Crashes\<close>

text \<open>The group a message is about that the window looks up without asking whether it is there.\<close>

definition named_group :: "client_env \<Rightarrow> string \<Rightarrow> int option" where
  "named_group C data =
     (let ty = msgType (qc_from_json C) data; g = toInt_or 0 (qvalue (qt_parseObject (qc_from_json C) data) ''groupId'')
      in if ty \<in> {legacy_value userJoinGroup, legacy_value userLeaveGroup, legacy_value receiveGroupMsg} then Some g
         else None)"

definition frame_crashes :: "client_env \<Rightarrow> string \<Rightarrow> MainWindow \<Rightarrow> bool" where
  "frame_crashes C data w \<longleftrightarrow>
     (case named_group C data of Some g \<Rightarrow> groupChats w g = None | None \<Rightarrow> False) \<or>
     msgType (qc_from_json C) data = legacy_value createGroupReturn \<and> createGroupDialog w = None \<or>
     msgType (qc_from_json C) data = legacy_value searchGroupReturn \<and> searchGroupDialog w = None"

lemma frame_crash: "mw_frame C data w = Inl e \<longleftrightarrow> e = NullDialog \<and> frame_crashes C data w"
  by (auto simp: mw_frame_def window_defs frame_crashes_def named_group_def parseUserJoinGroup_def
      parseUserLeaveGroup_def parseReceiveGroupMsg_def Let_def split: option.split prod.splits)

text \<open>Handling a message neither opens nor closes a dialog, and so changes nothing about which messages crash.\<close>

lemma frame_keeps_dialogs:
  assumes "mw_frame C data w = Inr w'"
  shows "(groupChats w' g = None) = (groupChats w g = None)" "(createGroupDialog w' = None) = (createGroupDialog w = None)"
    "(searchGroupDialog w' = None) = (searchGroupDialog w = None)"
  using assms by (auto simp: mw_frame_def window_defs Let_def split: if_splits option.splits prod.splits)

lemma frame_keeps_crashes: "mw_frame C data w = Inr w' \<Longrightarrow> frame_crashes C d w' = frame_crashes C d w"
  using frame_keeps_dialogs [of C data w w'] by (auto simp: frame_crashes_def split: option.split)

lemma frames_crash: "mw_frames C fs w = Inl e \<longleftrightarrow> e = NullDialog \<and> (\<exists>data \<in> set fs. frame_crashes C data w)"
proof (induction fs arbitrary: w)
  case (Cons data fs)
  show ?case
  proof (cases "mw_frame C data w")
    case (Inl e')
    then show ?thesis using frame_crash [of C data w e'] by auto
  next
    case (Inr w')
    then have "\<not> frame_crashes C data w" using frame_crash [of C data w NullDialog] by auto
    then show ?thesis using Inr Cons.IH [of w'] by (auto simp: frame_keeps_crashes)
  qed
qed simp

section \<open>Private messages\<close>

text \<open>What a message does to the row of its sender.\<close>

definition wait_row :: "client_env \<Rightarrow> string \<Rightarrow> FriendItem \<Rightarrow> FriendItem" where
  "wait_row C msg fi = msgAlarm C True (addWaitMsg msg fi)"

lemma wait_row_simps [simp]:
  "fi_user (wait_row C msg fi) = fi_user fi" "waitMsgs (wait_row C msg fi) = waitMsgs fi @ [msg]"
  "mm (wait_row C msg fi) = setNum (int (length (waitMsgs fi @ [msg])))"
  by (simp_all add: wait_row_def msgAlarm_def addWaitMsg_def Let_def)

lemma wait_rows [simp]:
  "fi_user (fold (wait_row C) ms fi) = fi_user fi" "waitMsgs (fold (wait_row C) ms fi) = waitMsgs fi @ ms"
  by (induction ms arbitrary: fi) simp_all

lemma receive_frame:
  assumes "qt_json (qc_to_json C) (qc_from_json C)" "user_ok from" "user_ok to" "is_utf8 msg"
  shows "mw_frame C (buildReceiveMsg (qc_to_json C) from to msg) w =
    Inr (case chatFriends w (l_id from) of
           Some d \<Rightarrow> w\<lparr>chatFriends := (chatFriends w)(l_id from \<mapsto>
             d\<lparr>cd_chat := cd_chat d @ [new_ChatItem C msg (l_headId (cd_user d)) role_guest]\<rparr>)\<rparr>
         | None \<Rightarrow> w\<lparr>friends := map (\<lambda>fi. if l_id (fi_user fi) = l_id from then wait_row C msg fi else fi) (friends w)\<rparr>)"
proof -
  have "msgType (qc_from_json C) (buildReceiveMsg (qc_to_json C) from to msg) = legacy_value receiveMsg"
    unfolding buildReceiveMsg_def
    by (rule qt_json.types [OF assms(1)]) (use assms in \<open>simp_all add: is_utf8_ascii user_ids\<close>)
  then show ?thesis
    using qt_json.user_messages(2) [OF assms]
    by (simp add: mw_frame_def mw_receiveMsg_def cd_addReceiveMsg_def addMsg_def wait_row_def split: option.split)
qed

text \<open>Messages of one sender while there is no conversation with him, and while there is one.\<close>

lemma receive_closed:
  assumes "qt_json (qc_to_json C) (qc_from_json C)" "user_ok from" "user_ok to" "\<forall>m \<in> set ms. is_utf8 m"
    "chatFriends w (l_id from) = None"
  shows "mw_frames C (map (buildReceiveMsg (qc_to_json C) from to) ms) w =
    Inr (w\<lparr>friends := map (\<lambda>fi. if l_id (fi_user fi) = l_id from then fold (wait_row C) ms fi else fi) (friends w)\<rparr>)"
  using assms(4,5)
proof (induction ms arbitrary: w)
  case (Cons m ms)
  let ?w = "w\<lparr>friends := map (\<lambda>fi. if l_id (fi_user fi) = l_id from then wait_row C m fi else fi) (friends w)\<rparr>"
  have "mw_frame C (buildReceiveMsg (qc_to_json C) from to m) w = Inr ?w"
    using receive_frame [OF assms(1-3), of m w] Cons.prems by simp
  then show ?case using Cons.IH [of ?w] Cons.prems by (simp add: comp_def if_distrib cong: if_cong)
qed (simp add: map_idI)

lemma receive_open:
  assumes "qt_json (qc_to_json C) (qc_from_json C)" "user_ok from" "user_ok to" "\<forall>m \<in> set ms. is_utf8 m"
    "chatFriends w (l_id from) = Some d"
  shows "mw_frames C (map (buildReceiveMsg (qc_to_json C) from to) ms) w =
    Inr (w\<lparr>chatFriends := (chatFriends w)(l_id from \<mapsto>
      d\<lparr>cd_chat := cd_chat d @ map (\<lambda>m. new_ChatItem C m (l_headId (cd_user d)) role_guest) ms\<rparr>)\<rparr>)"
  using assms(4,5)
proof (induction ms arbitrary: w d)
  case Nil
  then show ?case by (simp add: fun_upd_idem)
next
  case (Cons m ms)
  let ?d = "d\<lparr>cd_chat := cd_chat d @ [new_ChatItem C m (l_headId (cd_user d)) role_guest]\<rparr>"
  have "mw_frame C (buildReceiveMsg (qc_to_json C) from to m) w =
      Inr (w\<lparr>chatFriends := (chatFriends w)(l_id from \<mapsto> ?d)\<rparr>)"
    using receive_frame [OF assms(1-3), of m w] Cons.prems by simp
  then show ?case using Cons.IH [of "w\<lparr>chatFriends := (chatFriends w)(l_id from \<mapsto> ?d)\<rparr>" ?d] Cons.prems
    by (simp add: fun_upd_def cong: if_cong)
qed

lemma new_chat: "cd_chat (new_ChatDialog C msgs user) = map (\<lambda>m. new_ChatItem C m (l_headId user) role_guest) msgs"
proof -
  have "fold (\<lambda>m. addMsg C m h role_guest) msgs xs = xs @ map (\<lambda>m. new_ChatItem C m h role_guest) msgs" for xs h
    by (induction msgs arbitrary: xs) (simp_all add: addMsg_def)
  then show ?thesis by (simp add: new_ChatDialog_def)
qed

lemma new_ChatDialog_user [simp]: "cd_user (new_ChatDialog C msgs user) = user"
  by (simp add: new_ChatDialog_def)

lemma open_chat:
  assumes "chatFriends w (l_id (fi_user (friends w ! k))) = None"
  shows "chatFriends (friends_itemDoubleClicked C k w) =
      (chatFriends w)(l_id (fi_user (friends w ! k)) \<mapsto> new_ChatDialog C (waitMsgs (friends w ! k)) (fi_user (friends w ! k)))"
    "k < length (friends w) \<Longrightarrow> waitMsgs (friends (friends_itemDoubleClicked C k w) ! k) = [] \<and>
      mm (friends (friends_itemDoubleClicked C k w) ! k) = None"
  using assms by (simp_all add: friends_itemDoubleClicked_def getWaitMsgs_def msgAlarm_def setNum_def Let_def)

section \<open>Consistency\<close>

text \<open>The mark and the label of a friend show the messages that wait.\<close>

definition item_ok :: "client_env \<Rightarrow> FriendItem \<Rightarrow> bool" where
  "item_ok C fi \<longleftrightarrow>
     mm fi = setNum (int (length (waitMsgs fi))) \<and> label_head fi = head_picture (l_headId (fi_user fi)) \<and>
     label_name fi =
       show_name C (if waitMsgs fi = [] then ''%1(%2)'' else new_message_format) (l_nickname (fi_user fi)) (l_id (fi_user fi))"

definition window_ok :: "client_env \<Rightarrow> MainWindow \<Rightarrow> bool" where
  "window_ok C w \<longleftrightarrow>
     (\<forall>fi \<in> set (friends w). item_ok C fi) \<and>
     (\<forall>u d. chatFriends w u = Some d \<longrightarrow> l_id (cd_user d) = u) \<and>
     (\<forall>g d. groupChats w g = Some d \<longrightarrow> gc_groupId d = g \<and> (\<forall>fi \<in> set (gc_friends d). item_ok C fi))"

lemma item_ok_new [simp]: "item_ok C (new_FriendItem C user)"
  by (simp add: item_ok_def new_FriendItem_def setNum_def)

lemma item_ok_wait [simp]: "item_ok C fi \<Longrightarrow> item_ok C (wait_row C msg fi)"
  by (simp add: item_ok_def wait_row_def addWaitMsg_def msgAlarm_def Let_def)

lemma set_skip_filter: "set (skip_filter p xs) \<subseteq> set xs"
  by (induction p xs rule: skip_filter.induct) auto

lemma remove_rows_subset: "set (remove_rows u 0 items) \<subseteq> set items"
  using remove_rows_skip [of u "[]" items] set_skip_filter by simp

lemma addGroupFriends_rows:
  "addGroupFriends C us d = d\<lparr>gc_friends := gc_friends d @ map (new_FriendItem C) us\<rparr>"
  unfolding addGroupFriends_def by (induction us arbitrary: d) (simp_all add: addGroupFriend_def)

lemma initFriendsList_rows: "initFriendsList C us w = w\<lparr>friends := friends w @ map (new_FriendItem C) us\<rparr>"
  unfolding initFriendsList_def by (induction us arbitrary: w) (simp_all add: addFriendsList_def)

lemma window_ok_chat: "window_ok C w \<Longrightarrow> l_id (cd_user d) = u \<Longrightarrow> window_ok C (w\<lparr>chatFriends := (chatFriends w)(u \<mapsto> d)\<rparr>)"
  by (simp add: window_ok_def)

lemma window_ok_group:
  "window_ok C w \<Longrightarrow> gc_groupId d = g \<Longrightarrow> \<forall>fi \<in> set (gc_friends d). item_ok C fi \<Longrightarrow>
   window_ok C (w\<lparr>groupChats := (groupChats w)(g \<mapsto> d)\<rparr>)"
  by (simp add: window_ok_def)

lemma window_ok_closed:
  "window_ok C w \<Longrightarrow> window_ok C (w\<lparr>chatFriends := (chatFriends w)(u := None)\<rparr>)"
  "window_ok C w \<Longrightarrow> window_ok C (w\<lparr>groupChats := (groupChats w)(g := None)\<rparr>)"
  by (simp_all add: window_ok_def)

lemma window_ok_friends: "window_ok C w \<Longrightarrow> \<forall>fi \<in> set fs. item_ok C fi \<Longrightarrow> window_ok C (w\<lparr>friends := fs\<rparr>)"
  by (simp add: window_ok_def)

lemma window_ok_other [simp]:
  "window_ok C (w\<lparr>createGroupDialog := x\<rparr>) = window_ok C w" "window_ok C (w\<lparr>searchGroupDialog := y\<rparr>) = window_ok C w"
  "window_ok C (w\<lparr>label_hostname := z\<rparr>) = window_ok C w"
  by (simp_all add: window_ok_def)

lemma window_okD:
  assumes "window_ok C w"
  shows "fi \<in> set (friends w) \<Longrightarrow> item_ok C fi" "chatFriends w u = Some d \<Longrightarrow> l_id (cd_user d) = u"
    "groupChats w g = Some gd \<Longrightarrow> gc_groupId gd = g" "groupChats w g = Some gd \<Longrightarrow> fi \<in> set (gc_friends gd) \<Longrightarrow> item_ok C fi"
  using assms by (auto simp: window_ok_def)

lemma window_ok_addFriendsList: "window_ok C w \<Longrightarrow> window_ok C (addFriendsList C user w)"
  by (auto simp: addFriendsList_def intro!: window_ok_friends dest: window_okD)

lemma window_ok_new: "window_ok C (client_MainWindow C users s)"
  by (auto simp: client_MainWindow_def initFriendsList_rows window_ok_def)

lemma window_ok_receive: "window_ok C w \<Longrightarrow> window_ok C (mw_receiveMsg C data w)"
  using window_okD(1) [of C w] window_okD(2) [of C w]
  by (auto simp: mw_receiveMsg_def cd_addReceiveMsg_def wait_row_def [symmetric]
      intro!: window_ok_chat window_ok_friends split: option.split prod.split)

lemma window_ok_frame:
  assumes "window_ok C w" "mw_frame C data w = Inr w'"
  shows "window_ok C w'"
proof -
  have "window_ok C (removeFromFriendList u w)" for u
    using assms(1) remove_rows_subset by (fastforce simp: removeFromFriendList_def intro!: window_ok_friends dest: window_okD)
  moreover have "item_ok C fi" if "groupChats w g = Some d" "fi \<in> set (gc_friends (removeGroupFriend u d))" for g d u fi
    using that remove_rows_subset window_okD(4) [OF assms(1) that(1)] by (fastforce simp: removeGroupFriend_def)
  ultimately show ?thesis
    using assms window_okD(3) [OF assms(1)] window_okD(4) [OF assms(1)]
    by (auto simp: mw_frame_def mw_createGroupReturn_def mw_searchGroupReturn_def mw_joinGroupReturn_def
        mw_userJoinGroup_def mw_userLeaveGroup_def mw_receiveGroupMsg_def Let_def addGroupFriends_rows addGroupFriend_def
        gc_addReceiveMsg_def removeGroupFriend_def window_ok_receive window_ok_addFriendsList
        intro!: window_ok_group split: if_splits option.splits prod.splits)
qed

lemma window_ok_frames: "window_ok C w \<Longrightarrow> mw_frames C fs w = Inr w' \<Longrightarrow> window_ok C w'"
  by (induction fs arbitrary: w) (auto split: sum.splits dest: window_ok_frame)

lemma window_ok_open:
  assumes "window_ok C w" "k < length (friends w)"
  shows "window_ok C (friends_itemDoubleClicked C k w)"
proof -
  have "item_ok C (msgAlarm C False (snd (getWaitMsgs (friends w ! k))))"
    using window_okD(1) [OF assms(1) nth_mem [OF assms(2)]] by (simp add: item_ok_def getWaitMsgs_def msgAlarm_def)
  then have "window_ok C (w\<lparr>friends := (friends w)[k := msgAlarm C False (snd (getWaitMsgs (friends w ! k)))]\<rparr>)"
    using assms set_update_subset_insert [of "friends w" k] by (intro window_ok_friends) (auto dest: window_okD)
  from window_ok_chat [OF this, of "new_ChatDialog C (waitMsgs (friends w ! k)) (fi_user (friends w ! k))"] show ?thesis
    using assms(1) by (simp add: friends_itemDoubleClicked_def getWaitMsgs_def Let_def)
qed

lemma window_ok_actions:
  assumes "window_ok C w"
  shows "window_ok C (chat_rejected u w)" "window_ok C (createGroupDialogRejected w)"
    "window_ok C (searchGroupDialogRejected w)" "window_ok C (createGroup_clicked w)"
    "window_ok C (fst (groupChatDialogRejected C g w s))" "window_ok C (fst (createGroupChatDialog C g name w s))"
    "window_ok C (fst (searchGroup_clicked C w s))"
  using assms window_ok_group [OF assms, of "new_GroupChatDialog C g name" g]
  by (simp_all add: action_defs window_ok_closed Let_def new_GroupChatDialog_def)

section \<open>Properties\<close>

text \<open>C32: No private message is lost on its way into a conversation. While no conversation with the sender is
  open, the messages that arrive are collected, in order, with the sender's row, whose mark shows their number up to 99.
  A double click on the row opens a conversation that shows them all, once each and in the order of arrival, and empties
  the row; the messages that arrive from then on follow in the conversation.\<close>

theorem waiting_messages_shown:
  assumes json: "qt_json (qc_to_json C) (qc_from_json C)"
    and ok: "user_ok from" "user_ok to" "\<forall>m \<in> set ms. is_utf8 m" "\<forall>m \<in> set ms'. is_utf8 m"
    and k: "k < length (friends w)" "l_id (fi_user (friends w ! k)) = l_id from" "chatFriends w (l_id from) = None"
    and old: "old = waitMsgs (friends w ! k)"
  shows "\<exists>w\<^sub>1 w\<^sub>2 w\<^sub>3 d. mw_frames C (map (buildReceiveMsg (qc_to_json C) from to) ms) w = Inr w\<^sub>1 \<and>
    waitMsgs (friends w\<^sub>1 ! k) = old @ ms \<and>
    (ms \<noteq> [] \<longrightarrow> mm (friends w\<^sub>1 ! k) = Some (min (int (length (old @ ms))) 99)) \<and>
    friends_itemDoubleClicked C k w\<^sub>1 = w\<^sub>2 \<and> waitMsgs (friends w\<^sub>2 ! k) = [] \<and> mm (friends w\<^sub>2 ! k) = None \<and>
    mw_frames C (map (buildReceiveMsg (qc_to_json C) from to) ms') w\<^sub>2 = Inr w\<^sub>3 \<and> chatFriends w\<^sub>3 (l_id from) = Some d \<and>
    cd_chat d = map (\<lambda>t. new_ChatItem C t (l_headId (fi_user (friends w ! k))) role_guest) (old @ ms @ ms')"
proof -
  let ?w1 = "w\<lparr>friends := map (\<lambda>fi. if l_id (fi_user fi) = l_id from then fold (wait_row C) ms fi else fi) (friends w)\<rparr>"
  let ?w2 = "friends_itemDoubleClicked C k ?w1"
  let ?u = "fi_user (friends w ! k)"
  have row: "friends ?w1 ! k = fold (wait_row C) ms (friends w ! k)" using k(1,2) by simp
  have wait: "waitMsgs (friends ?w1 ! k) = old @ ms" unfolding row by (simp add: old)
  have mark: "mm (fold (wait_row C) ms fi) = setNum (int (length (waitMsgs fi @ ms)))" if "ms \<noteq> []" for fi
    using that by (cases ms rule: rev_cases) simp_all
  have num: "mm (friends ?w1 ! k) = Some (min (int (length (old @ ms))) 99)" if "ms \<noteq> []"
    unfolding row mark [OF that] using that old by (cases ms) (simp_all add: setNum_def min_def)
  have closed: "chatFriends ?w1 (l_id (fi_user (friends ?w1 ! k))) = None" using k by (simp add: row)
  have dialog: "chatFriends ?w2 (l_id from) = Some (new_ChatDialog C (old @ ms) ?u)"
    using open_chat(1) [OF closed, of C] wait row k(2) by simp
  have "waitMsgs (friends ?w2 ! k) = [] \<and> mm (friends ?w2 ! k) = None"
    using open_chat(2) [OF closed, of C] k(1) by simp
  then show ?thesis
    using receive_closed [OF json ok(1-3) k(3)] receive_open [OF json ok(1,2,4) dialog] wait num new_chat [of C "old @ ms" ?u]
    by auto
qed

theorem waiting_messages_shown_witness:
  "let a = new_UserData\<lparr>l_id := 7\<rparr>; b = new_UserData\<lparr>l_id := 8\<rparr>;
       w = client_MainWindow ref_client_env [a] new_HHTcpSocket
   in \<exists>w\<^sub>1 w\<^sub>3 d. mw_frames ref_client_env (map (buildReceiveMsg serialize_object a b) [''one'', ''two'']) w = Inr w\<^sub>1 \<and>
        mm (friends w\<^sub>1 ! 0) = Some 2 \<and>
        mw_frames ref_client_env [buildReceiveMsg serialize_object a b ''three''] (friends_itemDoubleClicked ref_client_env 0 w\<^sub>1)
          = Inr w\<^sub>3 \<and>
        chatFriends w\<^sub>3 7 = Some d \<and> map labelMsg (cd_chat d) = [''one'', ''two'', ''three'']"
proof -
  let ?a = "new_UserData\<lparr>l_id := 7\<rparr>" and ?b = "new_UserData\<lparr>l_id := 8\<rparr>"
  let ?w = "client_MainWindow ref_client_env [?a] new_HHTcpSocket"
  have json: "qt_json (qc_to_json ref_client_env) (qc_from_json ref_client_env)" and
    T: "qc_to_json ref_client_env = serialize_object"
    using mini_json.qt_json_axioms by (simp_all add: ref_client_env_def)
  have ok: "user_ok ?a" "user_ok ?b" "\<forall>m \<in> set [''one'', ''two'']. is_utf8 m" "\<forall>m \<in> set [''three'']. is_utf8 m"
    by (simp_all add: user_ok_def in_int32_def new_UserData_def is_utf8_ascii)
  have k: "0 < length (friends ?w)" "l_id (fi_user (friends ?w ! 0)) = l_id ?a" "chatFriends ?w (l_id ?a) = None"
    "[] = waitMsgs (friends ?w ! 0)"
    by (simp_all add: client_MainWindow_def initFriendsList_rows new_FriendItem_def)
  have label: "labelMsg (new_ChatItem C t h role_guest) = t" for C t h
    by (simp add: new_ChatItem_def guestSet_def)
  from waiting_messages_shown [OF json ok k, unfolded T] show ?thesis
    by (fastforce simp: Let_def label simp del: mw_frames.simps)
qed



end
