(* ===== verification/LegacyClient.thy ===== *)
theory LegacyClient
  imports LegacyClientWindow
begin

text \<open>
  The old client as a process: \<^verbatim>\<open>legacy/original-client/LoginDialog.cpp\<close>, \<^verbatim>\<open>RegisterDialog.cpp\<close> and \<^verbatim>\<open>main.cpp\<close>, and how
  the events of the connection and of the user are handed to the dialogs and windows.

  The client starts with the login dialog. A successful login closes it and makes the main window. The
  pointer to the registration dialog is not initialised by the code, and that dialog deletes itself when it is closed; a
  use of such a pointer is an error of the model. The box that tells of a failed login is counted.

  \<open>client\<close> is the state of the process, \<open>client_event\<close> what can happen in it, \<open>client_reach\<close> the states it can get into. An event
  that ends in an error ends the process.

  Shown here: what the dialogs and windows keep is consistent in every state; what a read that brings the answer to the
  login does with the messages behind that answer; and what a late answer to a registration does.
\<close>

section \<open>State\<close>

text \<open>\<open>Publicdef.h\<close>\<close>

definition PORT :: "16 word" where "PORT = 12345"

datatype 'd pointer = Uninitialised | Freed | is_Points: Points 'd

record RegisterDialog =
  rd_label_id :: string

definition new_RegisterDialog :: RegisterDialog where
  "new_RegisterDialog = \<lparr>rd_label_id = []\<rparr>"

text \<open>
  \<open>ld_enabled\<close>: the fields and buttons for login and registration; \<open>ld_connect\<close>: the button to connect; \<open>ld_listening\<close>: the
  signals of the socket are connected to the dialog.
\<close>

record LoginDialog =
  ld_enabled :: bool
  ld_connect :: bool
  ld_listening :: bool
  ld_open :: bool
  loginSuc :: bool
  registerDialog :: "RegisterDialog pointer"
  ld_warnings :: nat

definition new_LoginDialog :: LoginDialog where
  "new_LoginDialog =
     \<lparr>ld_enabled = False, ld_connect = True, ld_listening = True, ld_open = True, loginSuc = False,
      registerDialog = Uninitialised, ld_warnings = 0\<rparr>"

record client =
  sock_instance :: "HHTcpSocket option"
  loginDialog :: LoginDialog
  windows :: "MainWindow list"

definition client_main :: client where
  "client_main = \<lparr>sock_instance = Some (getInstance None), loginDialog = new_LoginDialog, windows = []\<rparr>"

definition on_socket :: "(HHTcpSocket \<Rightarrow> HHTcpSocket) \<Rightarrow> client \<Rightarrow> client_error + client" where
  "on_socket f c =
     (case sock_instance c of None \<Rightarrow> Inl FreedSocket | Some s \<Rightarrow> Inr (c\<lparr>sock_instance := Some (f s)\<rparr>))"

definition on_login :: "(LoginDialog \<Rightarrow> LoginDialog) \<Rightarrow> client \<Rightarrow> client" where
  "on_login f c = c\<lparr>loginDialog := f (loginDialog c)\<rparr>"

section \<open>Registration\<close>

definition rd_socketData :: "client_env \<Rightarrow> string \<Rightarrow> RegisterDialog \<Rightarrow> RegisterDialog" where
  "rd_socketData C data d =
     (if msgType (qc_from_json C) data = legacy_value registerUserReturn then
        d\<lparr>rd_label_id := to_string (parseRegisterUserReturnMsg (qc_from_json C) data)\<rparr>
      else d)"

definition rd_register_clicked :: "client_env \<Rightarrow> string \<Rightarrow> string \<Rightarrow> client \<Rightarrow> client_error + client" where
  "rd_register_clicked C password nickname c =
     on_socket (\<lambda>s. snd (client_sendJson (buildRegisterUserMsg (qc_to_json C) password 0 nickname) s)) c"

section \<open>Login\<close>

definition ld_connect_clicked :: "client_env \<Rightarrow> string \<Rightarrow> client \<Rightarrow> client_error + client" where
  "ld_connect_clicked C serverIp c = on_socket (connectToServer (qc_address C serverIp) PORT) c"

definition ld_login_clicked :: "client_env \<Rightarrow> string \<Rightarrow> string \<Rightarrow> client \<Rightarrow> client_error + client" where
  "ld_login_clicked C idText password c =
     on_socket (\<lambda>s. snd (client_sendJson (buildLoginMsg (qc_to_json C) (qc_toInt C idText) password) s)) c"

definition ld_register_clicked :: "client \<Rightarrow> client" where
  "ld_register_clicked c = on_login (\<lambda>l. l\<lparr>registerDialog := Points new_RegisterDialog\<rparr>) c"

definition ld_connected :: "client \<Rightarrow> client" where
  "ld_connected c = on_login (\<lambda>l. l\<lparr>ld_enabled := True, ld_connect := False\<rparr>) c"

definition ld_closeEvent :: "client \<Rightarrow> client" where
  "ld_closeEvent c =
     (let c = on_login (\<lambda>l. l\<lparr>ld_listening := False, ld_open := False\<rparr>) c
      in if \<not> loginSuc (loginDialog c) then c\<lparr>sock_instance := releaseInstance (sock_instance c)\<rparr> else c)"

definition toMainwindow :: "client_env \<Rightarrow> string \<Rightarrow> client \<Rightarrow> client_error + client" where
  "toMainwindow C data c =
     (let c = on_login (\<lambda>l. l\<lparr>loginSuc := True\<rparr>) c;
          (host, users) = parseLoginSucReturnMsg (qc_from_json C) new_UserData data
      in case on_socket (setHostData host) c of
           Inl e \<Rightarrow> Inl e
         | Inr c \<Rightarrow>
             let c = ld_closeEvent c
             in Inr (c\<lparr>windows := windows c @ [client_MainWindow C users (getInstance (sock_instance c))]\<rparr>))"

definition ld_frame :: "client_env \<Rightarrow> string \<Rightarrow> client \<Rightarrow> client_error + client" where
  "ld_frame C data c =
     (let ty = msgType (qc_from_json C) data
      in if ty = legacy_value loginSucReturn then toMainwindow C data c
         else if ty = legacy_value loginLoseReturn then Inr (on_login (\<lambda>l. l\<lparr>ld_warnings := ld_warnings l + 1\<rparr>) c)
         else if ty = legacy_value registerUserReturn then
           (case registerDialog (loginDialog c) of
              Uninitialised \<Rightarrow> Inl UninitialisedDialog
            | Freed \<Rightarrow> Inl FreedDialog
            | Points d \<Rightarrow> Inr (on_login (\<lambda>l. l\<lparr>registerDialog := Points (rd_socketData C data d)\<rparr>) c))
         else Inr c)"

primrec ld_frames :: "client_env \<Rightarrow> string list \<Rightarrow> client \<Rightarrow> client_error + client" where
  "ld_frames C [] c = Inr c"
| "ld_frames C (data # fs) c = (case ld_frame C data c of Inl e \<Rightarrow> Inl e | Inr c' \<Rightarrow> ld_frames C fs c')"

definition ld_readyRead :: "client_env \<Rightarrow> client \<Rightarrow> client_error + client" where
  "ld_readyRead C c =
     (case sock_instance c of
        None \<Rightarrow> Inl FreedSocket
      | Some s \<Rightarrow>
          let (fs, s) = readJsonFrames (qc_fromUtf8 C) s
          in ld_frames C fs (c\<lparr>sock_instance := Some s\<rparr>))"

section \<open>What can happen\<close>

text \<open>A slot of window \<open>i\<close> that may use the socket.\<close>

definition on_window ::
  "nat \<Rightarrow> (MainWindow \<Rightarrow> HHTcpSocket \<Rightarrow> client_error + MainWindow \<times> HHTcpSocket) \<Rightarrow> client \<Rightarrow> client_error + client" where
  "on_window i f c =
     (case sock_instance c of
        None \<Rightarrow> Inl FreedSocket
      | Some s \<Rightarrow>
          (case f (windows c ! i) s of
             Inl e \<Rightarrow> Inl e
           | Inr (w, s) \<Rightarrow> Inr (c\<lparr>sock_instance := Some s, windows := (windows c)[i := w]\<rparr>)))"

primrec windows_readyRead :: "client_env \<Rightarrow> nat list \<Rightarrow> client \<Rightarrow> client_error + client" where
  "windows_readyRead C [] c = Inr c"
| "windows_readyRead C (i # is) c =
     (case on_window i (mw_readyRead C) c of Inl e \<Rightarrow> Inl e | Inr c' \<Rightarrow> windows_readyRead C is c')"

text \<open>
  The signal \<open>readyRead\<close> reaches the slots that are connected when it is emitted: that of the login dialog, and then those
  of the windows there are; one that is made meanwhile is not among them.
\<close>

definition client_readyRead :: "client_env \<Rightarrow> client \<Rightarrow> client_error + client" where
  "client_readyRead C c =
     (let is = [0..<length (windows c)]
      in case (if ld_listening (loginDialog c) then ld_readyRead C c else Inr c) of
           Inl e \<Rightarrow> Inl e
         | Inr c' \<Rightarrow> windows_readyRead C is c')"

datatype client_event =
    Net socket_event
  | ReadyReadSignal
  | ConnectClicked string
  | LoginClicked string string
  | RegisterClicked
  | RegisterSend string string
  | RegisterClosed
  | LoginClosed
  | FriendClicked nat nat
  | ChatTyped nat int string
  | ChatSend nat int
  | ChatClosed nat int
  | CreateGroupClicked nat
  | CreateGroupSend nat string
  | CreateGroupClosed nat
  | SearchGroupClicked nat
  | SearchRowClicked nat nat
  | SearchClosed nat
  | GroupTyped nat int string
  | GroupSend nat int
  | GroupClosed nat int

text \<open>Events of the connection need the socket, those of the user the dialog, window or row they happen in.\<close>

definition client_possible :: "client_event \<Rightarrow> client \<Rightarrow> bool" where
  "client_possible ev c =
     (let l = loginDialog c; has = (\<lambda>i p. i < length (windows c) \<and> p (windows c ! i))
      in case ev of
           Net e \<Rightarrow> \<not> is_Dial e \<and> (case sock_instance c of None \<Rightarrow> False | Some s \<Rightarrow> socket_possible e s)
         | ReadyReadSignal \<Rightarrow> sock_instance c \<noteq> None
         | ConnectClicked ip \<Rightarrow> ld_open l \<and> ld_connect l
         | LoginClicked i p \<Rightarrow> ld_open l \<and> ld_enabled l
         | RegisterClicked \<Rightarrow> ld_open l \<and> ld_enabled l
         | RegisterSend p n \<Rightarrow> is_Points (registerDialog l)
         | RegisterClosed \<Rightarrow> is_Points (registerDialog l)
         | LoginClosed \<Rightarrow> ld_open l
         | FriendClicked i k \<Rightarrow> has i (\<lambda>w. k < length (friends w))
         | ChatTyped i u t \<Rightarrow> has i (\<lambda>w. chatFriends w u \<noteq> None)
         | ChatSend i u \<Rightarrow> has i (\<lambda>w. chatFriends w u \<noteq> None)
         | ChatClosed i u \<Rightarrow> has i (\<lambda>w. chatFriends w u \<noteq> None)
         | CreateGroupClicked i \<Rightarrow> has i (\<lambda>w. True)
         | CreateGroupSend i n \<Rightarrow> has i (\<lambda>w. createGroupDialog w \<noteq> None)
         | CreateGroupClosed i \<Rightarrow> has i (\<lambda>w. createGroupDialog w \<noteq> None)
         | SearchGroupClicked i \<Rightarrow> has i (\<lambda>w. True)
         | SearchRowClicked i k \<Rightarrow> has i (\<lambda>w. case searchGroupDialog w of None \<Rightarrow> False | Some d \<Rightarrow> k < length (sg_items d))
         | SearchClosed i \<Rightarrow> has i (\<lambda>w. searchGroupDialog w \<noteq> None)
         | GroupTyped i g t \<Rightarrow> has i (\<lambda>w. groupChats w g \<noteq> None)
         | GroupSend i g \<Rightarrow> has i (\<lambda>w. groupChats w g \<noteq> None)
         | GroupClosed i g \<Rightarrow> has i (\<lambda>w. groupChats w g \<noteq> None))"

definition net_event :: "client_env \<Rightarrow> socket_event \<Rightarrow> client \<Rightarrow> client_error + client" where
  "net_event C ev c =
     (let c' = (if ev = Established \<and> ld_listening (loginDialog c) then ld_connected c else c)
      in on_socket (socket_handle (qc_address C) ev) c')"

definition chat_typed :: "int \<Rightarrow> string \<Rightarrow> MainWindow \<Rightarrow> MainWindow" where
  "chat_typed u t w = w\<lparr>chatFriends := (chatFriends w)(u := map_option (\<lambda>d. d\<lparr>cd_text := t\<rparr>) (chatFriends w u))\<rparr>"

definition group_typed :: "int \<Rightarrow> string \<Rightarrow> MainWindow \<Rightarrow> MainWindow" where
  "group_typed g t w = w\<lparr>groupChats := (groupChats w)(g := map_option (\<lambda>d. d\<lparr>gc_text := t\<rparr>) (groupChats w g))\<rparr>"

definition chat_send :: "client_env \<Rightarrow> int \<Rightarrow> MainWindow \<Rightarrow> HHTcpSocket \<Rightarrow> client_error + MainWindow \<times> HHTcpSocket" where
  "chat_send C u w s =
     (case chatFriends w u of
        None \<Rightarrow> Inl NullDialog
      | Some d \<Rightarrow> (case cd_send_clicked C d s of (d, s) \<Rightarrow> Inr (w\<lparr>chatFriends := (chatFriends w)(u \<mapsto> d)\<rparr>, s)))"

definition group_send :: "client_env \<Rightarrow> int \<Rightarrow> MainWindow \<Rightarrow> HHTcpSocket \<Rightarrow> client_error + MainWindow \<times> HHTcpSocket" where
  "group_send C g w s =
     (case groupChats w g of
        None \<Rightarrow> Inl NullDialog
      | Some d \<Rightarrow> (case gc_send_clicked C d s of (d, s) \<Rightarrow> Inr (w\<lparr>groupChats := (groupChats w)(g \<mapsto> d)\<rparr>, s)))"

definition search_row :: "client_env \<Rightarrow> nat \<Rightarrow> MainWindow \<Rightarrow> HHTcpSocket \<Rightarrow> client_error + MainWindow \<times> HHTcpSocket" where
  "search_row C k w s =
     (case searchGroupDialog w of None \<Rightarrow> Inl NullDialog | Some d \<Rightarrow> search_row_clicked C k d w s)"

text \<open>The slot of the main window, or of one of its dialogs, that an event of the user runs, and the window.\<close>

definition window_slot ::
  "client_env \<Rightarrow> client_event \<Rightarrow>
   (nat \<times> (MainWindow \<Rightarrow> HHTcpSocket \<Rightarrow> client_error + MainWindow \<times> HHTcpSocket)) option" where
  "window_slot C ev =
     (case ev of
        FriendClicked i k \<Rightarrow> Some (i, \<lambda>w s. Inr (friends_itemDoubleClicked C k w, s))
      | ChatTyped i u t \<Rightarrow> Some (i, \<lambda>w s. Inr (chat_typed u t w, s))
      | ChatSend i u \<Rightarrow> Some (i, chat_send C u)
      | ChatClosed i u \<Rightarrow> Some (i, \<lambda>w s. Inr (chat_rejected u w, s))
      | CreateGroupClicked i \<Rightarrow> Some (i, \<lambda>w s. Inr (createGroup_clicked w, s))
      | CreateGroupSend i n \<Rightarrow> Some (i, \<lambda>w s. Inr (w, create_clicked C n s))
      | CreateGroupClosed i \<Rightarrow> Some (i, \<lambda>w s. Inr (createGroupDialogRejected w, s))
      | SearchGroupClicked i \<Rightarrow> Some (i, \<lambda>w s. Inr (searchGroup_clicked C w s))
      | SearchRowClicked i k \<Rightarrow> Some (i, search_row C k)
      | SearchClosed i \<Rightarrow> Some (i, \<lambda>w s. Inr (searchGroupDialogRejected w, s))
      | GroupTyped i g t \<Rightarrow> Some (i, \<lambda>w s. Inr (group_typed g t w, s))
      | GroupSend i g \<Rightarrow> Some (i, group_send C g)
      | GroupClosed i g \<Rightarrow> Some (i, \<lambda>w s. Inr (groupChatDialogRejected C g w s))
      | _ \<Rightarrow> None)"

definition client_handle :: "client_env \<Rightarrow> client_event \<Rightarrow> client \<Rightarrow> client_error + client" where
  "client_handle C ev c =
     (case ev of
        Net e \<Rightarrow> net_event C e c
      | ReadyReadSignal \<Rightarrow> client_readyRead C c
      | ConnectClicked ip \<Rightarrow> ld_connect_clicked C ip c
      | LoginClicked i p \<Rightarrow> ld_login_clicked C i p c
      | RegisterClicked \<Rightarrow> Inr (ld_register_clicked c)
      | RegisterSend p n \<Rightarrow> rd_register_clicked C p n c
      | RegisterClosed \<Rightarrow> Inr (on_login (\<lambda>l. l\<lparr>registerDialog := Freed\<rparr>) c)
      | LoginClosed \<Rightarrow> Inr (ld_closeEvent c)
      | _ \<Rightarrow> (case window_slot C ev of Some (i, f) \<Rightarrow> on_window i f c | None \<Rightarrow> Inr c))"

primrec client_run :: "client_env \<Rightarrow> client_event list \<Rightarrow> client \<Rightarrow> client_error + client" where
  "client_run C [] c = Inr c"
| "client_run C (ev # evs) c = (case client_handle C ev c of Inl e \<Rightarrow> Inl e | Inr c' \<Rightarrow> client_run C evs c')"

inductive client_reach :: "client_env \<Rightarrow> client \<Rightarrow> bool" for C where
  start: "client_reach C client_main"
| step: "client_reach C c \<Longrightarrow> client_possible ev c \<Longrightarrow> client_handle C ev c = Inr c' \<Longrightarrow> client_reach C c'"

section \<open>Consistency\<close>

text \<open>
  There is a main window after a successful login and not before; the login dialog listens to the socket as long as it is
  open; the socket is there unless the dialog was closed without a login.
\<close>

definition client_ok :: "client_env \<Rightarrow> client \<Rightarrow> bool" where
  "client_ok C c \<longleftrightarrow>
     (windows c \<noteq> [] \<longleftrightarrow> loginSuc (loginDialog c)) \<and> (loginSuc (loginDialog c) \<longrightarrow> \<not> ld_open (loginDialog c)) \<and>
     (ld_listening (loginDialog c) \<longleftrightarrow> ld_open (loginDialog c)) \<and>
     (sock_instance c = None \<longleftrightarrow> \<not> ld_open (loginDialog c) \<and> \<not> loginSuc (loginDialog c)) \<and>
     (\<forall>w \<in> set (windows c). window_ok C w) \<and> (\<forall>s. sock_instance c = Some s \<longrightarrow> socket_inv s)"

lemma socket_inv_ops [simp]:
  "socket_inv (snd (client_sendJson m s)) = socket_inv s" "socket_inv (snd (readJsonFrames f s)) = socket_inv s"
  "socket_inv (setHostData h s) = socket_inv s"
  by (simp_all add: socket_inv_def client_sendJson_def readJsonFrames_def setHostData_def Let_def split_beta)

lemma socket_inv_handle: "socket_inv s \<Longrightarrow> socket_possible ev s \<Longrightarrow> socket_inv (socket_handle addr ev s)"
  by (cases ev) (auto simp: socket_inv_def socket_defs)

lemma client_ok_login [simp]:
  "client_ok C (on_login (\<lambda>l. l\<lparr>ld_enabled := a\<rparr>) c) = client_ok C c"
  "client_ok C (on_login (\<lambda>l. l\<lparr>ld_enabled := a, ld_connect := b\<rparr>) c) = client_ok C c"
  "client_ok C (on_login (\<lambda>l. l\<lparr>registerDialog := d\<rparr>) c) = client_ok C c"
  "client_ok C (on_login (\<lambda>l. l\<lparr>ld_warnings := n l\<rparr>) c) = client_ok C c"
  by (simp_all add: client_ok_def on_login_def)

lemma client_ok_socket:
  "client_ok C c \<Longrightarrow> on_socket f c = Inr c' \<Longrightarrow> (\<And>s. sock_instance c = Some s \<Longrightarrow> socket_inv s \<Longrightarrow> socket_inv (f s)) \<Longrightarrow>
   client_ok C c'"
  by (auto simp: on_socket_def client_ok_def split: option.splits)

lemma client_ok_window:
  assumes "client_ok C c" "on_window i f c = Inr c'" "i < length (windows c)"
    and f: "\<And>w s w' s'. f w s = Inr (w', s') \<Longrightarrow> w \<in> set (windows c) \<Longrightarrow> w = windows c ! i \<Longrightarrow> window_ok C w \<Longrightarrow>
      socket_inv s \<Longrightarrow> window_ok C w' \<and> socket_inv s'"
  shows "client_ok C c'"
proof -
  obtain s w' s' where s: "sock_instance c = Some s" "f (windows c ! i) s = Inr (w', s')"
      "c' = c\<lparr>sock_instance := Some s', windows := (windows c)[i := w']\<rparr>"
    using assms(2) by (auto simp: on_window_def split: option.splits sum.splits)
  have w: "windows c ! i \<in> set (windows c)" using assms(3) by simp
  have "window_ok C w'" "socket_inv s'"
    using f [OF s(2) w refl] assms(1) w s(1) by (auto simp: client_ok_def)
  then show ?thesis
    using assms(1) s(1,3) set_update_subset_insert [of "windows c" i w'] by (auto simp: client_ok_def)
qed

lemma client_ok_toMainwindow:
  "client_ok C c \<Longrightarrow> toMainwindow C data c = Inr c' \<Longrightarrow> client_ok C c'"
  by (auto simp: toMainwindow_def on_socket_def on_login_def ld_closeEvent_def client_ok_def window_ok_new
      split: option.splits prod.splits)

lemma client_ok_ld_frame: "client_ok C c \<Longrightarrow> ld_frame C data c = Inr c' \<Longrightarrow> client_ok C c'"
  by (auto simp: ld_frame_def Let_def client_ok_toMainwindow split: if_splits pointer.splits)

lemma client_ok_ld_frames: "client_ok C c \<Longrightarrow> ld_frames C fs c = Inr c' \<Longrightarrow> client_ok C c'"
  by (induction fs arbitrary: c) (auto split: sum.splits dest: client_ok_ld_frame)

lemma client_ok_ld_readyRead:
  assumes "client_ok C c" "ld_readyRead C c = Inr c'"
  shows "client_ok C c'"
proof -
  obtain s where s: "sock_instance c = Some s"
      "ld_frames C (fst (readJsonFrames (qc_fromUtf8 C) s)) (c\<lparr>sock_instance := Some (snd (readJsonFrames (qc_fromUtf8 C) s))\<rparr>) = Inr c'"
    using assms(2) by (auto simp: ld_readyRead_def split_beta split: option.splits)
  have "client_ok C (c\<lparr>sock_instance := Some (snd (readJsonFrames (qc_fromUtf8 C) s))\<rparr>)"
    using assms(1) s(1) by (simp add: client_ok_def)
  from client_ok_ld_frames [OF this s(2)] show ?thesis .
qed

lemma mw_readyRead_ok:
  assumes "mw_readyRead C w s = Inr (w', s')" "window_ok C w" "socket_inv s"
  shows "window_ok C w' \<and> socket_inv s'"
proof -
  have "mw_frames C (fst (readJsonFrames (qc_fromUtf8 C) s)) w = Inr w'" "s' = snd (readJsonFrames (qc_fromUtf8 C) s)"
    using assms(1) by (auto simp: mw_readyRead_def split_beta split: sum.splits)
  then show ?thesis using assms(2,3) window_ok_frames by auto
qed

lemma windows_readyRead_ok:
  "client_ok C c \<Longrightarrow> \<forall>i \<in> set is. i < length (windows c) \<Longrightarrow> windows_readyRead C is c = Inr c' \<Longrightarrow> client_ok C c'"
proof (induction "is" arbitrary: c)
  case (Cons i "is")
  then obtain c1 where c1: "on_window i (mw_readyRead C) c = Inr c1" "windows_readyRead C is c1 = Inr c'"
    by (auto split: sum.splits)
  have "length (windows c1) = length (windows c)" using c1(1) by (auto simp: on_window_def split: option.splits sum.splits)
  moreover have "client_ok C c1"
    using Cons.prems(2) by (intro client_ok_window [OF Cons.prems(1) c1(1)]) (auto dest: mw_readyRead_ok)
  ultimately show ?case using Cons.IH [OF _ _ c1(2)] Cons.prems(2) by simp
qed simp

lemma ld_frames_windows: "ld_frames C fs c = Inr c' \<Longrightarrow> length (windows c) \<le> length (windows c')"
  by (induction fs arbitrary: c)
    (fastforce simp: ld_frame_def toMainwindow_def on_socket_def on_login_def ld_closeEvent_def Let_def
      split: sum.splits if_splits option.splits pointer.splits prod.splits)+

lemma ld_readyRead_windows: "ld_readyRead C c = Inr c' \<Longrightarrow> length (windows c) \<le> length (windows c')"
  by (auto simp: ld_readyRead_def split: option.splits prod.splits dest: ld_frames_windows)

lemma client_readyRead_ok:
  assumes "client_ok C c" "client_readyRead C c = Inr c'"
  shows "client_ok C c'"
proof -
  obtain c1 where c1: "(if ld_listening (loginDialog c) then ld_readyRead C c else Inr c) = Inr c1"
      "windows_readyRead C [0..<length (windows c)] c1 = Inr c'"
    using assms(2) by (auto simp: client_readyRead_def Let_def split: sum.splits)
  have "client_ok C c1" using c1(1) assms(1) client_ok_ld_readyRead by (auto split: if_splits)
  moreover have "length (windows c) \<le> length (windows c1)"
    using c1(1) ld_readyRead_windows by (auto split: if_splits)
  ultimately show ?thesis by (intro windows_readyRead_ok [OF _ _ c1(2)]) simp_all
qed

lemma chat_send_ok:
  "chat_send C u w s = Inr (w', s') \<Longrightarrow> window_ok C w \<Longrightarrow> socket_inv s \<Longrightarrow> window_ok C w' \<and> socket_inv s'"
  using window_okD(2) [of C w u]
  by (auto simp: chat_send_def cd_send_clicked_def Let_def split_beta intro!: window_ok_chat split: option.splits if_splits)

lemma group_send_ok:
  assumes "group_send C g w s = Inr (w', s')" "window_ok C w" "socket_inv s"
  shows "window_ok C w' \<and> socket_inv s'"
  using assms window_okD(3,4) [OF assms(2), of g]
  by (auto simp: group_send_def gc_send_clicked_def Let_def split_beta intro!: window_ok_group split: option.splits if_splits)

lemma typed_ok: "window_ok C w \<Longrightarrow> window_ok C (chat_typed u t w)" "window_ok C w \<Longrightarrow> window_ok C (group_typed g t w)"
  by (auto simp: window_ok_def chat_typed_def group_typed_def)

lemma sends_ok:
  assumes "socket_inv s"
  shows "socket_inv (snd (groupChatDialogRejected C g w s))" "socket_inv (snd (createGroupChatDialog C g n w s))"
    "socket_inv (snd (searchGroup_clicked C w s))" "socket_inv (create_clicked C n s)"
  using assms by (simp_all add: action_defs create_clicked_def Let_def)

lemma search_row_ok:
  "search_row C k w s = Inr (w', s') \<Longrightarrow> window_ok C w \<Longrightarrow> socket_inv s \<Longrightarrow> window_ok C w' \<and> socket_inv s'"
  using window_ok_actions(6) [of C w] sends_ok(2) [of s C]
  by (auto simp: search_row_def search_row_clicked_def split: option.splits sum.splits) (metis fst_conv, metis snd_conv)

lemma net_event_ok:
  assumes "client_ok C c" "net_event C ev c = Inr c'" "client_possible (Net ev) c"
  shows "client_ok C c'"
proof -
  let ?c = "if ev = Established \<and> ld_listening (loginDialog c) then ld_connected c else c"
  have c: "client_ok C ?c" "sock_instance ?c = sock_instance c"
    using assms(1) by (simp_all add: ld_connected_def) (simp add: on_login_def)
  have "on_socket (socket_handle (qc_address C) ev) ?c = Inr c'" using assms(2) by (simp add: net_event_def Let_def)
  then show ?thesis
    by (rule client_ok_socket [OF c(1)]) (use assms(3) c(2) in \<open>simp add: client_possible_def socket_inv_handle\<close>)
qed

lemma closeEvent_ok: "client_ok C c \<Longrightarrow> ld_open (loginDialog c) \<Longrightarrow> client_ok C (ld_closeEvent c)"
  by (auto simp: client_ok_def ld_closeEvent_def on_login_def releaseInstance_def Let_def)

lemma pairs_ok:
  assumes "window_ok C w" "socket_inv s"
  shows "groupChatDialogRejected C g w s = (w', s') \<Longrightarrow> window_ok C w' \<and> socket_inv s'"
    "searchGroup_clicked C w s = (w', s') \<Longrightarrow> window_ok C w' \<and> socket_inv s'"
  using window_ok_actions(5) [OF assms(1), of g s] window_ok_actions(7) [OF assms(1), of s]
    sends_ok(1) [OF assms(2), of C g w] sends_ok(3) [OF assms(2), of C w] by simp_all

lemma window_slot_ok:
  assumes "window_slot C ev = Some (i, f)" "client_possible ev c"
  shows "i < length (windows c)"
    "f w s = Inr (w', s') \<Longrightarrow> w = windows c ! i \<Longrightarrow> window_ok C w \<Longrightarrow> socket_inv s \<Longrightarrow> window_ok C w' \<and> socket_inv s'"
  using assms
  by (auto simp: window_slot_def client_possible_def Let_def window_ok_open typed_ok window_ok_actions sends_ok
      dest: chat_send_ok group_send_ok search_row_ok pairs_ok split: client_event.splits)

lemma client_handle_slot: "window_slot C ev = Some (i, f) \<Longrightarrow> client_handle C ev c = on_window i f c"
  by (auto simp: client_handle_def window_slot_def split: client_event.splits)

lemma client_ok_step:
  assumes ok: "client_ok C c" and p: "client_possible ev c" and h: "client_handle C ev c = Inr c'"
  shows "client_ok C c'"
proof (cases "window_slot C ev")
  case (Some x)
  then obtain i f where x: "window_slot C ev = Some (i, f)" by (cases x) simp
  show ?thesis
    using client_ok_window [OF ok, of i f c'] window_slot_ok [OF x p] client_handle_slot [OF x] h by simp
next
  case None
  note handled = client_handle_def client_possible_def Let_def
  show ?thesis
  proof (cases ev)
    case (Net e)
    then show ?thesis using net_event_ok [OF ok] p h by (simp add: client_handle_def)
  next
    case (ConnectClicked ip)
    have "socket_inv (connectToServer (qc_address C ip) PORT s)" if "socket_inv s" for s
      using that by (auto simp: socket_inv_def socket_defs)
    then show ?thesis using h client_ok_socket [OF ok] ConnectClicked by (simp add: handled ld_connect_clicked_def)
  next
    case LoginClosed
    then show ?thesis using h p closeEvent_ok [OF ok] by (simp add: handled)
  qed (use h ok None client_ok_socket [OF ok] client_readyRead_ok [OF ok] in
      \<open>auto simp: handled ld_register_clicked_def ld_login_clicked_def rd_register_clicked_def window_slot_def\<close>)
qed

section \<open>Answers to the login dialog\<close>

text \<open>The types the login dialog looks at.\<close>

definition login_types :: "int set" where
  "login_types = {legacy_value loginSucReturn, legacy_value loginLoseReturn, legacy_value registerUserReturn}"

lemma ld_frames_ignored: "\<forall>data \<in> set fs. msgType (qc_from_json C) data \<notin> login_types \<Longrightarrow> ld_frames C fs c = Inr c"
  by (induction fs) (simp_all add: ld_frame_def login_types_def Let_def)

lemma login_readyRead:
  assumes "sock_instance c = Some s" "ld_listening (loginDialog c)" "windows c = []"
    "readJsonFrames (qc_fromUtf8 C) s = (fs, s')"
  shows "client_readyRead C c = ld_frames C fs (c\<lparr>sock_instance := Some s'\<rparr>)"
  using assms by (simp add: client_readyRead_def ld_readyRead_def split: sum.split)

text \<open>What is left of a buffer holds no message until more bytes come.\<close>

lemma decode_rest: "decodeFrames f b = (fs, r) \<Longrightarrow> decodeFrames f r = ([], r)"
proof (induction f b arbitrary: fs r rule: decodeFrames.induct)
  case (1 f b)
  show ?case
  proof (cases "fs = []")
    case True
    then have "r = b \<or> r = []" using 1(2) by (subst (asm) decodeFrames.simps) (auto simp: Let_def split: if_splits prod.splits)
    then show ?thesis using 1(2) True by (auto simp: decodeFrames.simps [of f "[]"])
  next
    case False
    then show ?thesis using 1 by (subst (asm) (2) decodeFrames.simps) (auto simp: Let_def decodeFrames.simps [of f "[]"] split: if_splits prod.splits)
  qed
qed

text \<open>Whole frames in the socket are read as their texts.\<close>

definition text_ok :: "client_env \<Rightarrow> string \<Rightarrow> bool" where
  "text_ok C m \<longleftrightarrow> 0 < length m \<and> length m \<le> 4194304 \<and> qc_fromUtf8 C (bytes_of_string m) = m"

lemma decode_texts:
  "\<forall>m \<in> set ms. text_ok C m \<Longrightarrow>
   decodeFrames (qc_fromUtf8 C) (concat (map (encodeFrame bytes_of_string) ms)) = (ms, [])"
proof (induction ms)
  case (Cons m ms)
  then show ?case
    using decode_frame [of "bytes_of_string m" "qc_fromUtf8 C" "concat (map (encodeFrame bytes_of_string) ms)"]
    by (simp add: text_ok_def body_ok_def encodeFrame_body [of bytes_of_string m])
qed (simp add: decodeFrames.simps)

lemma read_texts:
  assumes "\<forall>m \<in> set ms. text_ok C m" "readBuffer s = []" "qs_in s = concat (map (encodeFrame bytes_of_string) ms)"
  shows "readJsonFrames (qc_fromUtf8 C) s = (ms, s\<lparr>qs_in := []\<rparr>)"
  using decode_texts [OF assms(1)] assms(2,3) by (simp add: readJsonFrames_def)

section \<open>Properties\<close>

text \<open>C33: In every state the old client can get into: there is a main window exactly after a successful login, and from
  then on the login dialog is closed; the socket is there unless the client was closed without a login; every open conversation and group
  window is registered under its own number; and the mark and the label of every friend show how many messages wait.\<close>

theorem client_invariant: "client_reach C c \<Longrightarrow> client_ok C c"
proof (induction rule: client_reach.induct)
  case start
  show ?case by (simp add: client_ok_def client_main_def new_LoginDialog_def getInstance_def socket_inv_def new_HHTcpSocket_def)
next
  case (step c ev c')
  show ?case by (rule client_ok_step [OF step.IH step.hyps(2,3)])
qed

theorem client_invariant_witness: "client_ok ref_client_env (ld_closeEvent client_main)"
proof -
  have "client_possible LoginClosed client_main" by (simp add: client_possible_def client_main_def new_LoginDialog_def)
  moreover have "client_handle ref_client_env LoginClosed client_main = Inr (ld_closeEvent client_main)"
    by (simp add: client_handle_def)
  ultimately show ?thesis using client_invariant [OF client_reach.step [OF client_reach.start]] by blast
qed

text \<open>The answer to a successful login opens the main window with the users that are online, and the messages that
  were read together with it are lost: whatever follows it in the same read, say that another user came online or a private message,
  goes to the login dialog, which ignores it. The new window is the same as without them, and no later read brings them back.\<close>

theorem login_drops_frames:
  assumes json: "qt_json (qc_to_json C) (qc_from_json C)"
    and ok: "user_ok h" "\<forall>u \<in> set us. user_ok u"
    and c: "sock_instance c = Some s" "ld_listening (loginDialog c)" "windows c = []"
    and r: "readJsonFrames (qc_fromUtf8 C) s = (buildLoginSucReturnMsg (qc_to_json C) h us # rest, s')"
    and rest: "\<forall>data \<in> set rest. msgType (qc_from_json C) data \<notin> login_types"
  shows "\<exists>c'. client_readyRead C c = Inr c' \<and>
    windows c' = [client_MainWindow C (map public_user us) (setHostData (public_user h) s')] \<and>
    sock_instance c' = Some (setHostData (public_user h) s') \<and> loginSuc (loginDialog c') \<and>
    fst (readJsonFrames (qc_fromUtf8 C) (setHostData (public_user h) s')) = []"
proof -
  let ?m = "buildLoginSucReturnMsg (qc_to_json C) h us"
  have users: "\<forall>u \<in> set (map (\<lambda>u. JObj (userObject u)) us). qjson_ok u" using ok(2) by (auto simp del: qjson_ok_JObj)
  have ty: "msgType (qc_from_json C) ?m = legacy_value loginSucReturn"
    unfolding buildLoginSucReturnMsg_def
    by (rule qt_json.types [OF json]) (use ok users in \<open>simp_all add: is_utf8_ascii user_ids del: qjson_ok_JObj\<close>)
  have "parseLoginSucReturnMsg (qc_from_json C) new_UserData ?m = (public_user h, map public_user us)"
    using qt_json.list_messages(1) [OF json ok, of 0 "[]" "[]"] by (simp add: public_user_def new_UserData_def in_int32_def)
  then obtain c' where c': "ld_frame C ?m (c\<lparr>sock_instance := Some s'\<rparr>) = Inr c'"
      "windows c' = [client_MainWindow C (map public_user us) (setHostData (public_user h) s')]"
      "sock_instance c' = Some (setHostData (public_user h) s')" "loginSuc (loginDialog c')"
    using ty c(3) by (simp add: ld_frame_def toMainwindow_def on_socket_def on_login_def ld_closeEvent_def getInstance_def)
  have "fst (readJsonFrames (qc_fromUtf8 C) (setHostData (public_user h) s')) = []"
    using r decode_rest [of "qc_fromUtf8 C"] by (auto simp: readJsonFrames_def setHostData_def split: prod.splits)
  then show ?thesis using login_readyRead [OF c r] c' ld_frames_ignored [OF rest] by auto
qed

theorem login_drops_frames_witness:
  "let h = new_UserData\<lparr>l_id := 7\<rparr>; v = new_UserData\<lparr>l_id := 8\<rparr>;
       s = new_HHTcpSocket\<lparr>qs_state := ConnectedState,
         qs_in := encodeFrame bytes_of_string (buildLoginSucReturnMsg serialize_object h []) @
                  encodeFrame bytes_of_string (buildUserOnline serialize_object v)\<rparr>
   in \<exists>c' w. client_readyRead ref_client_env (client_main\<lparr>sock_instance := Some s\<rparr>) = Inr c' \<and> windows c' = [w] \<and> friends w = []"
proof -
  let ?h = "new_UserData\<lparr>l_id := 7\<rparr>" and ?v = "new_UserData\<lparr>l_id := 8\<rparr>" and ?C = ref_client_env
  let ?m = "buildLoginSucReturnMsg serialize_object ?h []" and ?r = "buildUserOnline serialize_object ?v"
  let ?s = "new_HHTcpSocket\<lparr>qs_state := ConnectedState, qs_in := encodeFrame bytes_of_string ?m @ encodeFrame bytes_of_string ?r\<rparr>"
  let ?c = "client_main\<lparr>sock_instance := Some ?s\<rparr>"
  have json: "qt_json (qc_to_json ?C) (qc_from_json ?C)" and T: "qc_to_json ?C = serialize_object"
    using mini_json.qt_json_axioms by (simp_all add: ref_client_env_def)
  have ok: "user_ok ?h" "user_ok ?v" "\<forall>u \<in> set []. user_ok u" by (simp_all add: user_ok_def in_int32_def new_UserData_def)
  have "length ?m = 67" "length ?r = 42" by code_simp+
  then have "\<forall>m \<in> set [?m, ?r]. text_ok ?C m" by (simp add: text_ok_def ref_client_env_def del: length_greater_0_conv)
  then have r: "readJsonFrames (qc_fromUtf8 ?C) ?s = (buildLoginSucReturnMsg (qc_to_json ?C) ?h [] # [?r], ?s\<lparr>qs_in := []\<rparr>)"
    unfolding T by (rule read_texts) (simp_all add: new_HHTcpSocket_def)
  have "msgType (qc_from_json ?C) ?r = legacy_value userOnline"
    unfolding buildUserOnline_def T [symmetric]
    by (rule qt_json.types [OF json user_ok_object [OF ok(2)]]) simp_all
  then have rest: "\<forall>data \<in> set [?r]. msgType (qc_from_json ?C) data \<notin> login_types" by (simp add: login_types_def)
  have c: "sock_instance ?c = Some ?s" "ld_listening (loginDialog ?c)" "windows ?c = []"
    by (simp_all add: client_main_def new_LoginDialog_def)
  from login_drops_frames [OF json ok(1,3) c r rest] show ?thesis
    unfolding Let_def by (force simp: client_MainWindow_def initFriendsList_rows)
qed

text \<open>The answer to a registration shows the new number in the registration dialog if that dialog is still open. If the user closed
  it before the answer came, the login dialog uses the pointer to the deleted dialog.\<close>

theorem register_answer:
  assumes json: "qt_json (qc_to_json C) (qc_from_json C)" and i: "in_int32 i"
    and c: "sock_instance c = Some s" "ld_listening (loginDialog c)" "windows c = []"
    and d: "registerDialog (loginDialog c) = Points d"
    and r: "readJsonFrames (qc_fromUtf8 C) s = ([buildRegisterUserReturnMsg (qc_to_json C) i], s')"
  shows "client_run C [ReadyReadSignal] c =
      Inr (on_login (\<lambda>l. l\<lparr>registerDialog := Points \<lparr>rd_label_id = to_string i\<rparr>\<rparr>) (c\<lparr>sock_instance := Some s'\<rparr>)) \<and>
    client_run C [RegisterClosed, ReadyReadSignal] c = Inl FreedDialog"
proof -
  let ?m = "buildRegisterUserReturnMsg (qc_to_json C) i"
  have label: "x\<lparr>rd_label_id := t\<rparr> = \<lparr>rd_label_id = t\<rparr>" for x :: RegisterDialog and t by (cases x) simp
  have "msgType (qc_from_json C) ?m = legacy_value registerUserReturn"
    unfolding buildRegisterUserReturnMsg_def by (rule qt_json.types [OF json]) (use i in \<open>simp_all add: is_utf8_ascii\<close>)
  moreover have "parseRegisterUserReturnMsg (qc_from_json C) ?m = i"
    using qt_json.account_messages(2) [OF json i, of "[]" "[]"] by simp
  ultimately have f: "ld_frame C ?m c = (case registerDialog (loginDialog c) of
      Uninitialised \<Rightarrow> Inl UninitialisedDialog | Freed \<Rightarrow> Inl FreedDialog
    | Points d \<Rightarrow> Inr (on_login (\<lambda>l. l\<lparr>registerDialog := Points \<lparr>rd_label_id = to_string i\<rparr>\<rparr>) c))" for c
    by (simp add: ld_frame_def rd_socketData_def label split: pointer.split)
  let ?c = "on_login (\<lambda>l. l\<lparr>registerDialog := Freed\<rparr>) c"
  have "sock_instance ?c = Some s" "ld_listening (loginDialog ?c)" "windows ?c = []" using c by (simp_all add: on_login_def)
  from login_readyRead [OF this r] login_readyRead [OF c r] show ?thesis
    using d by (simp add: client_handle_def f) (simp add: on_login_def)
qed

theorem register_answer_witness:
  "let s = new_HHTcpSocket\<lparr>qs_state := ConnectedState,
         qs_in := encodeFrame bytes_of_string (buildRegisterUserReturnMsg serialize_object 100001)\<rparr>
   in client_run ref_client_env [RegisterClosed, ReadyReadSignal] (ld_register_clicked (client_main\<lparr>sock_instance := Some s\<rparr>)) =
      Inl FreedDialog"
proof -
  let ?m = "buildRegisterUserReturnMsg serialize_object 100001" and ?C = ref_client_env
  let ?s = "new_HHTcpSocket\<lparr>qs_state := ConnectedState, qs_in := encodeFrame bytes_of_string ?m\<rparr>"
  let ?c = "ld_register_clicked (client_main\<lparr>sock_instance := Some ?s\<rparr>)"
  have json: "qt_json (qc_to_json ?C) (qc_from_json ?C)" and T: "qc_to_json ?C = serialize_object"
    using mini_json.qt_json_axioms by (simp_all add: ref_client_env_def)
  have "length ?m = 22" by code_simp
  then have "\<forall>m \<in> set [?m]. text_ok ?C m" by (simp add: text_ok_def ref_client_env_def del: length_greater_0_conv)
  then have r: "readJsonFrames (qc_fromUtf8 ?C) ?s = ([buildRegisterUserReturnMsg (qc_to_json ?C) 100001], ?s\<lparr>qs_in := []\<rparr>)"
    unfolding T by (rule read_texts) (simp_all add: new_HHTcpSocket_def)
  have c: "sock_instance ?c = Some ?s" "ld_listening (loginDialog ?c)" "windows ?c = []"
    "registerDialog (loginDialog ?c) = Points new_RegisterDialog"
    by (simp_all add: ld_register_clicked_def on_login_def client_main_def new_LoginDialog_def)
  show ?thesis using register_answer [OF json _ c r] by (simp add: in_int32_def Let_def)
qed

end
