(* ===== verification/LegacyEndToEnd.thy ===== *)
theory LegacyEndToEnd
  imports LegacyServer LegacyClient
begin

text \<open>
  The old client and the old server together: what a user types in one client's conversation, through the frames on
  both connections and the threads of the server, to the window of the other client.

  \<open>same_qt\<close> says that both programs run with the same functions of Qt.
\<close>

definition same_qt :: "('db, 'e) net_env_scheme \<Rightarrow> client_env \<Rightarrow> bool" where
  "same_qt E C \<longleftrightarrow>
     qc_to_json C = q_to_json E \<and> qc_from_json C = q_from_json E \<and> qc_fromUtf8 C = q_fromUtf8 E \<and>
     qt_json (q_to_json E) (q_from_json E)"

section \<open>The two ends\<close>

text \<open>Sending what was typed in a conversation while connected.\<close>

lemma chat_send_connected:
  assumes "chatFriends w u = Some d" "cd_text d = msg" "msg \<noteq> []" "qs_state s = ConnectedState"
  shows "chat_send C u w s =
    Inr (w\<lparr>chatFriends := (chatFriends w)(u \<mapsto> d\<lparr>cd_text := [],
             cd_chat := cd_chat d @ [new_ChatItem C msg (l_headId (hostData s)) role_host]\<rparr>)\<rparr>,
         s\<lparr>qs_out := qs_out s @ encodeFrame bytes_of_string (buildSendMsg (qc_to_json C) (hostData s) (cd_user d) msg)\<rparr>)"
  using assms by (simp add: chat_send_def cd_send_clicked_def client_sendJson_def addMsg_def Let_def)

text \<open>Reading one private message.\<close>

lemma read_private:
  assumes "qt_json (qc_to_json C) (qc_from_json C)" "user_ok from" "user_ok to" "is_utf8 msg"
    and r: "text_ok C (buildReceiveMsg (qc_to_json C) from to msg)"
    and s: "readBuffer s = []" "qs_in s = encodeFrame bytes_of_string (buildReceiveMsg (qc_to_json C) from to msg)"
  shows "mw_readyRead C w s =
    Inr (case chatFriends w (l_id from) of
           Some d \<Rightarrow> w\<lparr>chatFriends := (chatFriends w)(l_id from \<mapsto>
             d\<lparr>cd_chat := cd_chat d @ [new_ChatItem C msg (l_headId (cd_user d)) role_guest]\<rparr>)\<rparr>
         | None \<Rightarrow> w\<lparr>friends := map (\<lambda>fi. if l_id (fi_user fi) = l_id from then wait_row C msg fi else fi) (friends w)\<rparr>,
         s\<lparr>qs_in := []\<rparr>)"
proof -
  let ?r = "buildReceiveMsg (qc_to_json C) from to msg"
  have "readJsonFrames (qc_fromUtf8 C) s = ([?r], s\<lparr>qs_in := []\<rparr>)"
    by (rule read_texts) (use r s in simp_all)
  then show ?thesis using receive_frame [OF assms(1-4), of w] by (simp add: mw_readyRead_def)
qed

section \<open>Properties\<close>

text \<open>C31: A private message of the old system arrives. User A, on connection \<open>i\<close>, presses the button to send in the
  conversation with user B, who is online on connection \<open>j\<close>. When the server has taken the bytes that A's client wrote through
  the steps of both threads and the main thread, and B's client has read the bytes that the server wrote to it, A's window shows the text as A's own,
  and B's client shows it once and as its last: in the conversation with A if that is open, and otherwise among the messages
  waiting at A's row.\<close>

theorem private_message_end_to_end:
  assumes qt: "same_qt E C"
    and a: "hostData sA = a" "user_ok a" "qs_state sA = ConnectedState" "chatFriends wA (l_id b) = Some d" "cd_user d = b"
      "cd_text d = msg" "msg \<noteq> []" "is_utf8 msg"
    and srv: "i < length (lthreads s)" "idle (lthreads s ! i)" "j < length (lthreads s)" "idle (lthreads s ! j)" "i \<noteq> j"
      "signals s = []" "users_find b (usersOnline s) = Some j"
    and b: "user_ok b" "readBuffer sB = []" "qs_in sB = []"
    and texts: "text_ok C (buildSendMsg (q_to_json E) a b msg)" "text_ok C (buildReceiveMsg (q_to_json E) a b msg)"
  shows "\<exists>wA' sA' out s' wire wB' sB' dA. chat_send C (l_id b) wA sA = Inr (wA', sA') \<and> qs_out sA' = qs_out sA @ out \<and>
    chatFriends wA' (l_id b) = Some dA \<and> cd_chat dA = cd_chat d @ [new_ChatItem C msg (l_headId a) role_host] \<and>
    lrun E [Arrive i out, ReadyRead i, Top i, Pop i, Slot, Top j, Pop j] s = Some s' \<and>
    socket_out (lthreads s' ! j) = socket_out (lthreads s ! j) @ wire \<and>
    mw_readyRead C wB (sB\<lparr>qs_in := wire\<rparr>) = Inr (wB', sB') \<and>
    (\<forall>dB. chatFriends wB (l_id a) = Some dB \<longrightarrow> (\<exists>dB'. chatFriends wB' (l_id a) = Some dB' \<and>
      cd_chat dB' = cd_chat dB @ [new_ChatItem C msg (l_headId (cd_user dB)) role_guest])) \<and>
    (\<forall>k < length (friends wB). chatFriends wB (l_id a) = None \<and> l_id (fi_user (friends wB ! k)) = l_id a \<longrightarrow>
      waitMsgs (friends wB' ! k) = waitMsgs (friends wB ! k) @ [msg])"
proof -
  let ?m = "buildSendMsg (q_to_json E) a b msg" and ?r = "buildReceiveMsg (q_to_json E) a b msg"
  have json: "qt_json (q_to_json E) (q_from_json E)" "qt_json (qc_to_json C) (qc_from_json C)" and
    eq: "qc_to_json C = q_to_json E" "qc_fromUtf8 C = q_fromUtf8 E"
    using qt by (simp_all add: same_qt_def)
  have m: "0 < length ?m" "length ?m \<le> 4194304" "q_fromUtf8 E (bytes_of_string ?m) = ?m"
    using texts(1) eq by (simp_all add: text_ok_def)
  from private_message_steps [OF json(1) refl m a(2) b(1) a(8) srv(1,2,6,7,3) refl] obtain s\<^sub>1 t where
    s1: "lrun E [Arrive i (encodeFrame bytes_of_string ?m), ReadyRead i, Top i, Pop i, Slot] s = Some s\<^sub>1"
      "lthreads s\<^sub>1 = ((lthreads s)[i := t])[j := push_msg ?r ((lthreads s)[i := t] ! j)]" by blast
  have tj: "lthreads s\<^sub>1 ! j = push_msg ?r (lthreads s ! j)" "length (lthreads s\<^sub>1) = length (lthreads s)"
    using s1(2) srv(3,5) by simp_all
  have "idle ((lthreads s\<^sub>1 ! j)\<lparr>msgQueue := []\<rparr>)" "msgQueue (lthreads s\<^sub>1 ! j) = [?r]"
    using srv(4) by (simp_all add: tj push_msg_def idle_def)
  from send_one [OF _ this, of E] obtain t' where
    t': "lrun E [Top j, Pop j] s\<^sub>1 = Some (s\<^sub>1\<lparr>lthreads := (lthreads s\<^sub>1)[j := t']\<rparr>)"
      "socket_out t' = socket_out (lthreads s ! j) @ encodeFrame bytes_of_string ?r"
    using deal_receiveMsg [OF json(1) a(2) b(1) a(8)] srv(3) tj by (auto simp: push_msg_def)
  have "lrun E ([Arrive i (encodeFrame bytes_of_string ?m), ReadyRead i, Top i, Pop i, Slot] @ [Top j, Pop j]) s =
      Some (s\<^sub>1\<lparr>lthreads := (lthreads s\<^sub>1)[j := t']\<rparr>)"
    unfolding lrun_append s1(1) using t'(1) by simp
  then have run: "lrun E [Arrive i (encodeFrame bytes_of_string ?m), ReadyRead i, Top i, Pop i, Slot, Top j, Pop j] s =
      Some (s\<^sub>1\<lparr>lthreads := (lthreads s\<^sub>1)[j := t']\<rparr>)" by (simp only: append_Cons append_Nil)
  have out: "socket_out (lthreads (s\<^sub>1\<lparr>lthreads := (lthreads s\<^sub>1)[j := t']\<rparr>) ! j) =
      socket_out (lthreads s ! j) @ encodeFrame bytes_of_string ?r"
    using t'(2) tj(2) srv(3) by simp
  note send = chat_send_connected [OF a(4,6,7,3), of C, unfolded a(1,5) eq(1)]
  note recv = read_private [OF json(2) a(2) b(1) a(8), unfolded eq(1), OF texts(2), of "sB\<lparr>qs_in := encodeFrame bytes_of_string ?r\<rparr>" wB]
  show ?thesis
    unfolding send using run out b(2) recv
    by (intro exI conjI) (assumption | rule refl | simp add: fun_upd_same split: option.split del: lrun.simps)+
qed

theorem private_message_end_to_end_witness:
  "let a = new_UserData\<lparr>l_id := 7\<rparr>; b = new_UserData\<lparr>l_id := 8\<rparr>; C = ref_client_env;
       wA = chat_typed 8 ''hi'' (friends_itemDoubleClicked C 0 (client_MainWindow C [b] new_HHTcpSocket));
       sA = new_HHTcpSocket\<lparr>hostData := a, qs_state := ConnectedState\<rparr>;
       s = (new_MainWindow ref_net_env)\<lparr>lthreads := [new_NetWorkThread, new_NetWorkThread], usersOnline := [(b, 1)]\<rparr>
   in \<exists>wA' sA' out s' wire wB' sB'. chat_send C 8 wA sA = Inr (wA', sA') \<and> qs_out sA' = out \<and>
        lrun ref_net_env [Arrive 0 out, ReadyRead 0, Top 0, Pop 0, Slot, Top 1, Pop 1] s = Some s' \<and>
        socket_out (lthreads s' ! 1) = wire \<and>
        mw_readyRead C (client_MainWindow C [a] new_HHTcpSocket) (new_HHTcpSocket\<lparr>qs_in := wire\<rparr>) = Inr (wB', sB') \<and>
        waitMsgs (friends wB' ! 0) = [''hi'']"
proof -
  let ?a = "new_UserData\<lparr>l_id := 7\<rparr>" and ?b = "new_UserData\<lparr>l_id := 8\<rparr>" and ?C = ref_client_env and ?E = ref_net_env
  let ?w = "client_MainWindow ?C [?b] new_HHTcpSocket" and ?wB = "client_MainWindow ?C [?a] new_HHTcpSocket"
  let ?sA = "new_HHTcpSocket\<lparr>hostData := ?a, qs_state := ConnectedState\<rparr>"
  let ?s = "(new_MainWindow ?E)\<lparr>lthreads := [new_NetWorkThread, new_NetWorkThread], usersOnline := [(?b, 1)]\<rparr>"
  let ?d = "(new_ChatDialog ?C [] ?b)\<lparr>cd_text := ''hi''\<rparr>"
  have env: "q_to_json ?E = serialize_object" "q_from_json ?E = mini_from_json" "q_fromUtf8 ?E = string_of_bytes"
    by (simp_all add: ref_net_env_def lenv.extend_def)
  have qt: "same_qt ?E ?C"
    using mini_json.qt_json_axioms by (simp add: same_qt_def env) (simp add: ref_client_env_def)
  have w: "friends ?w = [new_FriendItem ?C ?b]" "chatFriends ?w = Map.empty" "friends ?wB = [new_FriendItem ?C ?a]"
    "chatFriends ?wB = Map.empty"
    by (simp_all add: client_MainWindow_def initFriendsList_rows)
  have a: "hostData ?sA = ?a" "user_ok ?a" "qs_state ?sA = ConnectedState"
    "chatFriends (chat_typed 8 ''hi'' (friends_itemDoubleClicked ?C 0 ?w)) (l_id ?b) = Some ?d" "cd_user ?d = ?b"
    "cd_text ?d = ''hi''" "''hi'' \<noteq> []" "is_utf8 ''hi''"
    using w by (simp_all add: chat_typed_def open_chat new_FriendItem_def user_ok_def in_int32_def new_UserData_def)
  have srv: "0 < length (lthreads ?s)" "idle (lthreads ?s ! 0)" "1 < length (lthreads ?s)" "idle (lthreads ?s ! 1)" "0 \<noteq> (1 :: nat)"
    "signals ?s = []" "users_find ?b (usersOnline ?s) = Some 1"
    by (simp_all add: idle_def new_NetWorkThread_def new_MainWindow_def Let_def users_find_def same_user_def
        UserData_less_def)
  have b: "user_ok ?b" "readBuffer new_HHTcpSocket = []" "qs_in new_HHTcpSocket = []"
    by (simp_all add: user_ok_def in_int32_def new_UserData_def new_HHTcpSocket_def)
  have "length (buildSendMsg serialize_object ?a ?b ''hi'') = 41" "length (buildReceiveMsg serialize_object ?a ?b ''hi'') = 41"
    by code_simp+
  then have texts: "text_ok ?C (buildSendMsg (q_to_json ?E) ?a ?b ''hi'')" "text_ok ?C (buildReceiveMsg (q_to_json ?E) ?a ?b ''hi'')"
    by (simp_all add: env text_ok_def ref_client_env_def del: length_greater_0_conv)
  have out: "qs_out ?sA = []" "socket_out (lthreads ?s ! 1) = []" by (simp_all add: new_HHTcpSocket_def new_NetWorkThread_def)
  have rows: "0 < length (friends ?wB)" "chatFriends ?wB (l_id ?a) = None" "l_id (fi_user (friends ?wB ! 0)) = l_id ?a"
    "waitMsgs (friends ?wB ! 0) = []" "l_id ?b = 8"
    by (simp_all add: w new_FriendItem_def)
  from private_message_end_to_end [OF qt a srv b texts, of ?wB, unfolded out append_Nil rows(5)]
  show ?thesis unfolding Let_def using rows by - (elim exE conjE, intro exI conjI, assumption+, simp)
qed

end
