(* ===== verification/ClientCompatibility.thy ===== *)
theory ClientCompatibility
  imports Authorship LegacyClient
begin

text \<open>
  The old client and the new server. Both speak types 0 to 19 of the protocol in the same frames
  (theory \<^verbatim>\<open>LegacyCodec\<close>), and the header of the protocol calls these types compatible.

  Shown here: the new server reads the fields of a request as the old server does, but what it answers to a login does not have the
  fields in which the old client looks for its own account.
\<close>

section \<open>Reading requests\<close>

text \<open>The values of an object whose numbers are integers of 32 bits.\<close>

lemma field_ok: "qjson_ok (JObj ob) \<Longrightarrow> obj_find ob k = Some v \<Longrightarrow> qjson_ok v"
  by (auto simp: obj_find_def dest: map_of_SomeD)

lemma intField_qvalue: "qjson_ok (JObj ob) \<Longrightarrow> intField ob k d = toInt_or d (qvalue ob k)"
proof (cases "obj_find ob k")
  case (Some v)
  assume "qjson_ok (JObj ob)"
  then have "qjson_ok v" using Some by (rule field_ok)
  then show ?thesis using Some by (cases v) (simp_all add: intField_def qvalue_def toInt_or_def is_number_def as_int_def)
qed (simp add: intField_def qvalue_def)

lemma stringField_qvalue: "stringField ob k [] = toString (qvalue ob k)"
  by (auto simp: stringField_def qvalue_def toString_def is_string_def as_string_def split: option.split json.split)

section \<open>What programs return\<close>

definition yields :: "('a \<Rightarrow> bool) \<Rightarrow> ('s, 'a) prog \<Rightarrow> bool" where
  "yields Q m \<longleftrightarrow> (\<forall>s a. fst (m s) = Inr a \<longrightarrow> Q a)"

lemma yieldsD: "yields Q m \<Longrightarrow> fst (m s) = Inr a \<Longrightarrow> Q a"
  by (simp add: yields_def)

lemma yields_any: "yields (\<lambda>_. True) m"
  by (simp add: yields_def)

lemma yields_return: "Q a \<Longrightarrow> yields Q (returnP a)"
  by (simp add: yields_def prog_simps)

lemma yields_bind: "yields P m \<Longrightarrow> (\<And>a. P a \<Longrightarrow> yields Q (f a)) \<Longrightarrow> yields Q (bindP m f)"
  by (auto simp: yields_def prog_simps split: prod.splits sum.splits) (metis fst_conv)

lemma yields_onDb: "yields Q m \<Longrightarrow> yields Q (onDb m)"
  by (auto simp: yields_def onDb_def prog_simps split: prod.splits) (metis fst_conv)

lemma yields_map: "(\<And>x. yields Q (f x)) \<Longrightarrow> yields (\<lambda>ys. \<forall>y \<in> set ys. Q y) (mapP f xs)"
  by (induction xs) (auto intro!: yields_bind yields_return elim: yields_bind)

definition user_fits :: "UserInfo \<Rightarrow> bool" where
  "user_fits u \<longleftrightarrow> in_int32 (u_id u) \<and> in_int32 (u_avatar_id u)"

definition group_fits :: "ChannelInfo \<Rightarrow> bool" where
  "group_fits g \<longleftrightarrow> in_int32 (ch_group_id g) \<and> in_int32 (ch_host_id g)"

lemma yields_user: "yields user_fits (liftP (userFromRow r))"
  by (auto simp: yields_def prog_simps userFromRow_def bindE_eq_Inr user_fits_def)

lemma yields_users: "yields (\<lambda>us. \<forall>u \<in> set us. user_fits u) (getAllUsers E)"
  unfolding getAllUsers_def by (intro yields_bind [OF yields_any] yields_map yields_user)

lemma yields_findById: "yields (\<lambda>u. \<forall>x. u = Some x \<longrightarrow> user_fits x) (findById E i)"
  unfolding findById_def
  by (rule yields_bind [OF yields_any])
    (auto intro!: yields_return yields_bind [OF yields_user] split: list.split)

lemma yields_friends: "yields (\<lambda>us. \<forall>u \<in> set us. user_fits u) (getFriends E i)"
  unfolding getFriends_def
proof (rule yields_bind [OF yields_any], split option.split, intro conjI allI impI)
  fix rows
  show "yields (\<lambda>us. \<forall>u \<in> set us. user_fits u)
      (bindP (mapP (\<lambda>row. findById E (column_int (column row 0))) rows)
        (\<lambda>us. returnP (concat (map (\<lambda>x. case x of None \<Rightarrow> [] | Some u \<Rightarrow> [u]) us))))"
    by (rule yields_bind [OF yields_map [OF yields_findById]], rule yields_return) (auto split: option.splits)
qed (simp add: yields_return)

lemma yields_groups: "yields (\<lambda>gs. \<forall>g \<in> set gs. group_fits g) (groupsForUser E i)"
proof -
  have fits: "group_fits (channel_fromRow r)" for r
    by (auto simp: group_fits_def channel_fromRow_def asInt_def in_int32_def [of 0] split: option.split)
  have inner: "yields (\<lambda>gs. \<forall>g \<in> set gs. group_fits g) (bindP m (\<lambda>rows. returnP (case rows of [] \<Rightarrow> [] | r # _ \<Rightarrow> [channel_fromRow r])))"
    for m :: "(_, row list) prog"
    by (rule yields_bind [OF yields_any], rule yields_return) (auto simp: fits split: list.split)
  show ?thesis
    unfolding groupsForUser_def
    by (rule yields_bind [OF yields_any], rule yields_bind [OF yields_map], rule inner) (auto intro!: yields_return)
qed

section \<open>The answer to a login\<close>

text \<open>The object of the answer, and what can be read from its text.\<close>

definition reply_fields :: "int \<Rightarrow> UserInfo \<Rightarrow> json list \<Rightarrow> json list \<Rightarrow> json list \<Rightarrow> (string \<times> json) list" where
  "reply_fields uid user fs us gs =
     [(''type'', JInt (toInt LoginSuccessReturn)), (''id'', JInt uid), (''nickname'', JString (u_nickname user)),
      (''headId'', JInt (u_avatar_id user)), (''friends'', JArr fs), (''users'', JArr us), (''groups'', JArr gs)]"

lemma listed_ok:
  "user_fits u \<Longrightarrow> wf_json (JObj (userToJson u st)) \<and> float_free (JObj (userToJson u st))"
  "group_fits g \<Longrightarrow> wf_json (JObj (groupToJson g)) \<and> float_free (JObj (groupToJson g))"
  by (simp_all add: userToJson_def groupToJson_def user_fits_def group_fits_def obj_sets_def in_int32_int64)

lemma login_reply_text:
  "yields (\<lambda>t. \<exists>fs us gs. t = serialize_object (obj_sets [] (reply_fields uid user fs us gs)) \<and>
     (\<forall>v \<in> set fs \<union> set us \<union> set gs. wf_json v \<and> float_free v)) (login_reply E uid user)"
proof -
  have "yields (\<lambda>t. \<exists>fs us gs. t = serialize_object (obj_sets [] (reply_fields uid user fs us gs)) \<and>
     (\<forall>v \<in> set fs \<union> set us \<union> set gs. wf_json v \<and> float_free v))
     (returnP (serialize_object (obj_sets [] (reply_fields uid user fs us (map (\<lambda>g. JObj (groupToJson g)) gs)))))"
    if "\<forall>v \<in> set fs \<union> set us. wf_json v \<and> float_free v" "\<forall>g \<in> set gs. group_fits g" for fs us gs
    by (rule yields_return, intro exI conjI, rule refl) (use that listed_ok(2) in \<open>auto simp del: wf_JObj float_free_JObj\<close>)
  note last = this [unfolded reply_fields_def]
  have listed: "yields (\<lambda>vs. \<forall>v \<in> set vs. wf_json v \<and> float_free v)
      (getP (\<lambda>s. map (\<lambda>u. JObj (userToJson u (st s u))) us))" if "\<forall>u \<in> set us. user_fits u" for us st
    using that listed_ok(1) by (auto simp: yields_def prog_simps simp del: wf_JObj float_free_JObj)
  show ?thesis
    unfolding login_reply_def friendToJson_def reply_fields_def
    by (rule yields_bind [OF yields_onDb [OF yields_users]], rule yields_bind [OF listed], assumption,
        rule yields_bind [OF yields_onDb [OF yields_friends]], rule yields_bind [OF listed], assumption,
        rule yields_bind [OF yields_onDb [OF yields_groups]], rule last) auto
qed

lemma old_reads_reply:
  assumes "fst (login_reply E uid user s) = Inr t" "in_int32 uid" "in_int32 (u_avatar_id user)" "F t = mini_from_json t"
  shows "msgType F t = legacy_value loginSucReturn" "fst (parseLoginSucReturnMsg F h t) = h\<lparr>l_id := 0, l_headId := 0, l_nickname := []\<rparr>"
proof -
  obtain fs us gs where t: "t = serialize_object (obj_sets [] (reply_fields uid user fs us gs))"
      and ok: "\<forall>v \<in> set fs \<union> set us \<union> set gs. wf_json v \<and> float_free v"
    using yieldsD [OF login_reply_text assms(1)] by blast
  have "parseObject t = Some (obj_sets [] (reply_fields uid user fs us gs))"
    unfolding t by (rule parse_reply) (use ok assms(2,3) in \<open>auto simp: reply_fields_def in_int32_int64 in_int64_def [of 3]\<close>)
  then have "qt_parseObject F t = obj_sets [] (reply_fields uid user fs us gs)"
    using assms(4) by (auto simp: qt_parseObject_def parseObject_def mini_from_json_def is_object_def as_obj_def
        split: sum.splits if_splits json.splits)
  then show "msgType F t = legacy_value loginSucReturn"
    "fst (parseLoginSucReturnMsg F h t) = h\<lparr>l_id := 0, l_headId := 0, l_nickname := []\<rparr>"
    by (simp_all add: msgType_def parseLoginSucReturnMsg_def qvalue_sets reply_fields_def in_int32_def toString_def)
qed

section \<open>Properties\<close>



end
