(* ===== verification/ServerLog.thy ===== *)
theory ServerLog
  imports Json "HOL-Library.Sublist"
begin

text \<open>
  The log of the new server: \<^verbatim>\<open>src/server/vendor/mini_spdlog.hpp\<close>, the small logger that was written in place of
  the spdlog library, and \<^verbatim>\<open>src/server/src/ServerLogger.cpp\<close> with the settings the server gives it.

  The files are a map from paths to contents. The operating system's answers are parameters: whether a file can be opened, the
  position \<open>tellp\<close> reports after opening a file of some size for appending, the date as it is printed, and
  the number of the thread. The lock is left out, as each call runs under it from the comparison of the level on.

  Shown here: the files, from the oldest to the current one, always hold the end of everything that was logged, in
  order and without a gap, and no file grows beyond the limit by more than a line; and which lines are cut.
\<close>

section \<open>State\<close>

datatype Level = Level_Debug | Level_Info | Level_Warn | Level_Error | Level_Off

primrec level_number :: "Level \<Rightarrow> int" where
  "level_number Level_Debug = 0"
| "level_number Level_Info = 1"
| "level_number Level_Warn = 2"
| "level_number Level_Error = 3"
| "level_number Level_Off = 4"

definition level_name :: "Level \<Rightarrow> string" where
  "level_name lv =
     (case lv of
        Level_Debug \<Rightarrow> ''DEBUG''
      | Level_Info \<Rightarrow> ''INFO ''
      | Level_Warn \<Rightarrow> ''WARN ''
      | Level_Error \<Rightarrow> ''ERROR''
      | Level_Off \<Rightarrow> ''---- '')"

record log_env =
  env_level :: "string option"
  can_open :: "string \<Rightarrow> bool"
  open_pos :: "nat \<Rightarrow> nat"

record logger =
  log_files :: "string \<rightharpoonup> string"
  log_console :: string
  file_path :: string
  file_open :: bool
  file_pos :: nat
  min_level :: Level
  max_file_size :: nat
  max_files :: int

definition new_logger :: "(string \<rightharpoonup> string) \<Rightarrow> logger" where
  "new_logger fs =
     \<lparr>log_files = fs, log_console = [], file_path = [], file_open = False, file_pos = 0, min_level = Level_Info,
      max_file_size = 5 * 1024 * 1024, max_files = 3\<rparr>"

section \<open>Files\<close>

definition log_content :: "string option \<Rightarrow> string" where
  "log_content f = (case f of None \<Rightarrow> [] | Some t \<Rightarrow> t)"

text \<open>Opening for appending creates the file.\<close>

definition open_log_file :: "log_env \<Rightarrow> logger \<Rightarrow> logger" where
  "open_log_file E g =
     (if can_open E (file_path g) then
        let t = log_content (log_files g (file_path g))
        in g\<lparr>file_open := True, file_pos := open_pos E (length t), log_files := (log_files g)(file_path g \<mapsto> t)\<rparr>
      else g\<lparr>file_open := False\<rparr>)"

definition log_init :: "log_env \<Rightarrow> string \<Rightarrow> Level \<Rightarrow> nat \<Rightarrow> int \<Rightarrow> logger \<Rightarrow> logger" where
  "log_init E filePath minLevel maxFileSize maxFiles g =
     (let g = g\<lparr>file_path := filePath, min_level := minLevel, max_file_size := maxFileSize, max_files := maxFiles\<rparr>;
          g = (case env_level E of
                 None \<Rightarrow> g
               | Some s \<Rightarrow>
                   if s = ''debug'' then g\<lparr>min_level := Level_Debug\<rparr>
                   else if s = ''warn'' then g\<lparr>min_level := Level_Warn\<rparr>
                   else if s = ''error'' then g\<lparr>min_level := Level_Error\<rparr>
                   else if s = ''off'' then g\<lparr>min_level := Level_Off\<rparr>
                   else g)
      in open_log_file E g)"

text \<open>\<open>ServerLogger::init\<close>, apart from the making of the directory.\<close>

definition ServerLogger_init :: "log_env \<Rightarrow> string \<Rightarrow> logger \<Rightarrow> logger" where
  "ServerLogger_init E logDir g =
     log_init E (logDir @ ''/lanchat-server.log'') Level_Info (5 * 1024 * 1024) 3 g"

section \<open>Rotation\<close>

definition log_name :: "string \<Rightarrow> int \<Rightarrow> string" where
  "log_name path i = (if i = 0 then path else path @ ''.'' @ to_string i)"

text \<open>One pass of the loop: \<open>std::remove\<close> the destination, then \<open>std::rename\<close>, which fails without the source.\<close>

definition rotate_file :: "string \<Rightarrow> int \<Rightarrow> (string \<rightharpoonup> string) \<Rightarrow> string \<rightharpoonup> string" where
  "rotate_file path i fs =
     (let src = log_name path i; dst = path @ ''.'' @ to_string (i + 1); fs = fs(dst := None)
      in case fs src of None \<Rightarrow> fs | Some t \<Rightarrow> fs(dst \<mapsto> t, src := None))"

definition rotate_files :: "string \<Rightarrow> int \<Rightarrow> (string \<rightharpoonup> string) \<Rightarrow> string \<rightharpoonup> string" where
  "rotate_files path n fs = fold (rotate_file path) (rev [0..n - 1]) fs"

definition rotate_if_needed :: "log_env \<Rightarrow> logger \<Rightarrow> logger" where
  "rotate_if_needed E g =
     (if \<not> file_open g then g
      else if max_file_size g \<le> file_pos g then
        open_log_file E (g\<lparr>file_open := False, log_files := rotate_files (file_path g) (max_files g) (log_files g)\<rparr>)
      else g)"

section \<open>Logging\<close>

text \<open>\<open>%0nd\<close> on a number that is not negative.\<close>

definition pad0 :: "nat \<Rightarrow> nat \<Rightarrow> string" where
  "pad0 n x = (let ds = digits (int x) in replicate (n - length ds) (CHR ''0'') @ ds)"

text \<open>A call: the level, the time to the second, the milliseconds, the thread and the text.\<close>

record log_call =
  lc_level :: Level
  lc_time :: string
  lc_ms :: nat
  lc_thread :: nat
  lc_msg :: string

text \<open>The format, and the line \<open>snprintf\<close> makes of it in its 2048 bytes, the last of which ends the string.\<close>

definition log_full :: "log_call \<Rightarrow> string" where
  "log_full m =
     ''['' @ lc_time m @ ''.'' @ pad0 3 (lc_ms m) @ ''] ['' @ level_name (lc_level m) @ ''] ['' @
     pad0 4 (lc_thread m) @ ''] '' @ c_str (lc_msg m) @ [CHR 0x0A]"

definition log_line :: "log_call \<Rightarrow> string" where
  "log_line m = take 2047 (log_full m)"

definition log_call :: "log_env \<Rightarrow> log_call \<Rightarrow> logger \<Rightarrow> logger" where
  "log_call E m g =
     (if level_number (lc_level m) < level_number (min_level g) then g
      else
        let line = log_line m; g = g\<lparr>log_console := log_console g @ line\<rparr>
        in if file_open g then
             let g = rotate_if_needed E g
             in if file_open g then
                  let t = log_content (log_files g (file_path g)) @ line
                  in g\<lparr>log_files := (log_files g)(file_path g \<mapsto> t), file_pos := length t\<rparr>
                else g
           else g)"

lemma log_content_simps [simp]: "log_content (Some t) = t" "log_content None = []"
  by (simp_all add: log_content_def)

section \<open>Names\<close>

lemma to_string_inj: "to_string i = to_string j \<Longrightarrow> 0 \<le> i \<Longrightarrow> 0 \<le> j \<Longrightarrow> i = j"
  by (metis digits_props to_string_def not_less)

lemma log_name_inj: "0 \<le> i \<Longrightarrow> 0 \<le> j \<Longrightarrow> log_name path i = log_name path j \<longleftrightarrow> i = j"
  by (auto simp: log_name_def dest: to_string_inj)

lemma rotate_file_names:
  assumes "0 \<le> i" "0 \<le> k"
  shows "log_content (rotate_file path i fs (log_name path k)) =
    (if k = i + 1 then log_content (fs (log_name path i)) else if k = i then [] else log_content (fs (log_name path k)))"
proof -
  have dst: "path @ ''.'' @ to_string (i + 1) = log_name path (i + 1)" using assms by (simp add: log_name_def)
  show ?thesis
    unfolding rotate_file_def dst
    using log_name_inj [of i "i + 1" path] log_name_inj [of k "i + 1" path] log_name_inj [of k i path] assms
    by (auto simp: log_content_def split: option.splits)
qed

text \<open>The rotation moves every file to the next number; the last is lost and the first is free.\<close>

lemma rotate_down:
  "0 \<le> k \<Longrightarrow> log_content (fold (rotate_file path) (rev [0..int n - 1]) fs (log_name path k)) =
    (if int n < k then log_content (fs (log_name path k)) else if k = 0 then (if n = 0 then log_content (fs path) else [])
     else log_content (fs (log_name path (k - 1))))"
proof (induction n arbitrary: fs)
  case 0
  then show ?case by (auto simp: log_name_def)
next
  case (Suc n)
  have upto: "[0..int (Suc n) - 1] = [0..int n - 1] @ [int n]" using upto_rec2 [of 0 "int n"] by simp
  have "k = int n + 1 \<or> int n + 1 < k \<or> k \<le> int n" by arith
  then show ?case
    unfolding upto using Suc.IH [OF Suc.prems, of "rotate_file path (int n) fs"] Suc.prems
      rotate_file_names [of "int n" k path fs] rotate_file_names [of "int n" "k - 1" path fs]
      rotate_file_names [of "int n" 0 path fs]
    by (auto simp: log_name_def)
qed

lemma rotate_files_content:
  assumes "0 < n" "0 \<le> k"
  shows "log_content (rotate_files path n fs (log_name path k)) =
    (if n < k then log_content (fs (log_name path k)) else if k = 0 then [] else log_content (fs (log_name path (k - 1))))"
  using rotate_down [OF assms(2), of path "nat n" fs] assms by (simp add: rotate_files_def)

section \<open>What the files hold\<close>

text \<open>The files one after the other, the oldest first.\<close>

definition log_history :: "string \<Rightarrow> int \<Rightarrow> (string \<rightharpoonup> string) \<Rightarrow> string" where
  "log_history path n fs = concat (map (\<lambda>k. log_content (fs (log_name path k))) (rev [0..n]))"

lemma upto_shift: "[1..n] = map (\<lambda>k. k + 1) [0..n - 1]"
  by (rule nth_equalityI) simp_all

lemma log_history_rotate:
  assumes "0 < n"
  shows "log_history path n fs = log_content (fs (log_name path n)) @ log_history path n (rotate_files path n fs)"
proof -
  have "log_history path n (rotate_files path n fs) = concat (map (\<lambda>k. log_content (fs (log_name path k))) (rev [0..n - 1]))"
  proof -
    have "[0..n] = 0 # map (\<lambda>k. k + 1) [0..n - 1]" using assms upto_rec1 [of 0 n] by (simp add: upto_shift)
    then have "map (\<lambda>k. log_content (rotate_files path n fs (log_name path k))) [0..n] =
        [] # map (\<lambda>k. log_content (fs (log_name path k))) [0..n - 1]"
      using assms by (simp add: rotate_files_content comp_def)
    then show ?thesis by (simp add: log_history_def rev_map [symmetric] del: rev_map)
  qed
  moreover have "rev [0..n] = n # rev [0..n - 1]" using assms upto_rec2 [of 0 n] by simp
  ultimately show ?thesis by (simp add: log_history_def)
qed

text \<open>The current file is the last.\<close>

lemma log_content_path:
  "0 \<le> k \<Longrightarrow> log_content ((fs(path \<mapsto> t)) (log_name path k)) = (if k = 0 then t else log_content (fs (log_name path k)))"
  using log_name_inj [of k 0 path] by (auto simp: log_name_def log_content_def)

lemma log_history_current:
  assumes "0 \<le> n"
  shows "log_history path n (fs(path \<mapsto> t)) = concat (map (\<lambda>k. log_content (fs (log_name path k))) (rev [1..n])) @ t"
proof -
  have "map (\<lambda>k. log_content ((fs(path \<mapsto> t)) (log_name path k))) (rev [1..n]) =
      map (\<lambda>k. log_content (fs (log_name path k))) (rev [1..n])"
    by (rule map_cong) (auto simp: log_content_path simp del: fun_upd_apply)
  moreover have "[0..n] = 0 # [1..n]" using assms upto_rec1 [of 0 n] by simp
  moreover have "log_content ((fs(path \<mapsto> t)) (log_name path 0)) = t"
    by (simp add: log_content_path del: fun_upd_apply)
  ultimately show ?thesis by (simp only: log_history_def rev.simps list.map map_append concat_append concat.simps append_Nil2)
qed

lemma log_history_opened: "0 \<le> n \<Longrightarrow> log_history path n (fs(path \<mapsto> log_content (fs path))) = log_history path n fs"
proof -
  assume "0 \<le> n"
  have "log_content ((fs(path \<mapsto> log_content (fs path))) q) = log_content (fs q)" for q by (simp add: log_content_def)
  then show ?thesis by (simp add: log_history_def del: fun_upd_apply)
qed

lemma log_history_append:
  "0 \<le> n \<Longrightarrow> log_history path n (fs(path \<mapsto> log_content (fs path) @ t)) = log_history path n fs @ t"
  using log_history_current [of n path fs "log_content (fs path) @ t"] log_history_current [of n path fs "log_content (fs path)"]
    log_history_opened [of n path fs] by simp

section \<open>The states of the log\<close>

text \<open>
  The size of a numbered file, and the states the log is in: the rotated files, which are the first \<open>r\<close>, reach the limit at which they
  were rotated, the others are empty, no file exceeds \<open>L\<close> by more than a line, and the position of the current file is right unless it
  was just opened.
\<close>

definition log_size :: "logger \<Rightarrow> int \<Rightarrow> nat" where
  "log_size g k = length (log_content (log_files g (log_name (file_path g) k)))"

definition rotated :: "logger \<Rightarrow> int \<Rightarrow> bool" where
  "rotated g r \<longleftrightarrow> 0 \<le> r \<and> r \<le> max_files g \<and> (\<forall>k \<in> {1..r}. max_file_size g \<le> log_size g k) \<and>
     (\<forall>k \<in> {r + 1..max_files g}. log_size g k = 0)"

definition log_ok :: "nat \<Rightarrow> logger \<Rightarrow> bool" where
  "log_ok L g \<longleftrightarrow>
     file_open g \<and> 0 < max_files g \<and> max_file_size g \<le> L \<and> file_pos g \<le> log_size g 0 \<and>
     (file_pos g = log_size g 0 \<or> log_size g 0 \<le> L) \<and> (\<forall>k \<in> {0..max_files g}. log_size g k \<le> L + 2047) \<and>
     (\<exists>r. rotated g r)"

definition history_of :: "logger \<Rightarrow> string" where
  "history_of g = log_history (file_path g) (max_files g) (log_files g)"

text \<open>What a part of a run does to the files: they still hold the end of all that was written, and either all of it or at least \<open>n\<close> times the limit.\<close>

definition kept :: "logger \<Rightarrow> logger \<Rightarrow> string \<Rightarrow> bool" where
  "kept g g' t \<longleftrightarrow>
     suffix (history_of g') (history_of g @ t) \<and>
     (history_of g' = history_of g @ t \<or> nat (max_files g) * max_file_size g \<le> length (history_of g')) \<and>
     (file_path g', max_files g', max_file_size g', min_level g') = (file_path g, max_files g, max_file_size g, min_level g) \<and>
     (\<forall>q. q \<notin> log_name (file_path g) ` {0..max_files g} \<longrightarrow> log_files g' q = log_files g q)"

lemma kept_trans:
  assumes "kept g g1 t" "kept g1 g2 t'"
  shows "kept g g2 (t @ t')"
proof -
  have "suffix (history_of g1 @ t') ((history_of g @ t) @ t')" using assms(1) by (auto simp: kept_def suffix_def)
  then have "suffix (history_of g2) (history_of g @ t @ t')"
    using assms(2) suffix_order.trans [of "history_of g2" "history_of g1 @ t'"] by (simp add: kept_def)
  moreover have "history_of g2 = history_of g @ t @ t' \<or> nat (max_files g) * max_file_size g \<le> length (history_of g2)"
    using assms by (auto simp: kept_def)
  ultimately show ?thesis using assms by (simp add: kept_def)
qed

lemma kept_refl [simp]: "kept g g []"
  by (simp add: kept_def)

lemma log_size_sum:
  assumes "\<forall>k \<in> {1..n}. M \<le> length (log_content (fs (log_name path k)))" "0 \<le> n"
  shows "nat n * M \<le> length (log_history path n fs)"
proof -
  have "nat m * M \<le> length (concat (map (\<lambda>k. log_content (fs (log_name path k))) (rev [1..int m])))" if "int m \<le> n" for m
    using that
  proof (induction m)
    case (Suc m)
    have "[1..int (Suc m)] = [1..int m] @ [int (Suc m)]" using upto_rec2 [of 1 "int (Suc m)"] by simp
    moreover have "M \<le> length (log_content (fs (log_name path (int (Suc m)))))" using assms(1) Suc.prems by auto
    moreover have "nat (int (Suc m)) = Suc m" by (simp only: nat_int)
    ultimately show ?case using Suc by (simp del: of_nat_Suc)
  qed simp
  from this [of "nat n"] have "nat n * M \<le> length (concat (map (\<lambda>k. log_content (fs (log_name path k))) (rev [1..n])))"
    using assms(2) by simp
  moreover have "[0..n] = 0 # [1..n]" using assms(2) upto_rec1 [of 0 n] by simp
  ultimately show ?thesis by (simp add: log_history_def)
qed

section \<open>One call\<close>

lemma rotate_files_other: "q \<notin> log_name path ` {0..n} \<Longrightarrow> rotate_files path n fs q = fs q"
proof -
  assume q: "q \<notin> log_name path ` {0..n}"
  have "rotate_file path i g q = g q" if "i \<in> set [0..n - 1]" for i g
  proof -
    have "log_name path i \<in> log_name path ` {0..n}" "log_name path (i + 1) \<in> log_name path ` {0..n}"
      using that by (auto intro!: imageI)
    then have "q \<noteq> log_name path i" "q \<noteq> path @ ''.'' @ to_string (i + 1)"
      using q that by (auto simp: log_name_def [of path "i + 1"])
    then show ?thesis by (simp add: rotate_file_def Let_def split: option.split)
  qed
  then have "fold (rotate_file path) xs g q = g q" if "set xs \<subseteq> set [0..n - 1]" for xs g
    using that by (induction xs arbitrary: g) auto
  then show ?thesis by (simp add: rotate_files_def)
qed

lemma rotated_next:
  assumes r: "rotated g r" and big: "max_file_size g \<le> log_size g 0" and n: "0 < max_files g"
    and size: "\<And>k. 0 \<le> k \<Longrightarrow> k \<le> max_files g \<Longrightarrow> log_size g' k = (if k = 0 then 0 else log_size g (k - 1))"
    and same: "max_files g' = max_files g" "max_file_size g' = max_file_size g"
  shows "rotated g' (min (r + 1) (max_files g))"
proof -
  have "max_file_size g \<le> log_size g' k" if "1 \<le> k" "k \<le> r + 1" "k \<le> max_files g" for k
    using that r big size [of k] by (cases "k = 1") (auto simp: rotated_def)
  moreover have "log_size g' k = 0" if "r + 1 < k" "k \<le> max_files g" for k
    using that r size [of k] by (auto simp: rotated_def)
  ultimately show ?thesis using r same n by (auto simp: rotated_def)
qed

lemma rotate_ok:
  assumes ok: "log_ok L g" and E: "can_open E (file_path g)" "\<And>k. open_pos E k \<le> k"
  shows "kept g (rotate_if_needed E g) []" "log_ok L (rotate_if_needed E g)" "log_size (rotate_if_needed E g) 0 \<le> L"
proof -
  let ?g = "rotate_if_needed E g" and ?n = "max_files g" and ?p = "file_path g"
  have o: "file_open g" "0 < ?n" and pos: "file_pos g \<le> log_size g 0" "file_pos g = log_size g 0 \<or> log_size g 0 \<le> L"
    and M: "max_file_size g \<le> L"
    and lim: "\<forall>k \<in> {0..?n}. log_size g k \<le> L + 2047" using ok by (simp_all add: log_ok_def)
  obtain r where r: "rotated g r" using ok by (auto simp: log_ok_def)
  show "kept g ?g []" "log_ok L ?g" "log_size ?g 0 \<le> L"
  proof (atomize (full), cases "max_file_size g \<le> file_pos g")
    case False
    then show "kept g ?g [] \<and> log_ok L ?g \<and> log_size ?g 0 \<le> L"
      using ok pos M by (auto simp: rotate_if_needed_def)
  next
    case True
    let ?rf = "rotate_files ?p ?n (log_files g)"
    have g: "?g = g\<lparr>file_open := True, file_pos := open_pos E (length (log_content (?rf ?p))),
        log_files := ?rf(?p \<mapsto> log_content (?rf ?p))\<rparr>"
      using True o E(1) by (simp add: rotate_if_needed_def open_log_file_def Let_def)
    have size: "log_size ?g k = (if k = 0 then 0 else log_size g (k - 1))" if "0 \<le> k" "k \<le> ?n" for k
      using that o(2) rotate_files_content [of ?n k ?p "log_files g"] by (auto simp: g log_size_def log_content_def)
    have rot: "rotated ?g (min (r + 1) ?n)"
      using r True pos(1) o(2) size by (intro rotated_next [OF r]) (simp_all add: g)
    have "history_of ?g = log_history ?p ?n ?rf" using log_history_opened [of ?n ?p ?rf] o(2) by (simp add: g history_of_def)
    then have h: "history_of g = log_content (log_files g (log_name ?p ?n)) @ history_of ?g"
      using log_history_rotate [OF o(2), of ?p "log_files g"] by (simp add: history_of_def)
    have "history_of ?g = history_of g \<or> nat ?n * max_file_size g \<le> length (history_of ?g)"
    proof (cases "r < ?n")
      case True
      then have "log_size g ?n = 0" using r o(2) by (auto simp: rotated_def)
      then show ?thesis using h by (simp add: log_size_def)
    next
      case False
      then have "\<forall>k \<in> {1..?n}. max_file_size g \<le> log_size ?g k" using rot by (auto simp: rotated_def g)
      then show ?thesis using log_size_sum [of ?n "max_file_size g" "log_files ?g" ?p] o(2)
        by (simp add: log_size_def history_of_def g)
    qed
    moreover have "?p \<in> log_name ?p ` {0..?n}" using o(2) by (force simp: log_name_def)
    ultimately have "kept g ?g []" using h rotate_files_other [of _ ?p ?n "log_files g"] by (auto simp: kept_def suffix_def g)
    moreover have "log_size ?g 0 = length (log_content (?rf ?p))" by (simp add: log_size_def log_name_def g)
    then have "log_ok L ?g"
      using rot o M lim size E(2) [of "length (log_content (?rf ?p))"] by (auto simp: log_ok_def g)
    ultimately show "kept g ?g [] \<and> log_ok L ?g \<and> log_size ?g 0 \<le> L" using size [of 0] o(2) by simp
  qed
qed

lemma append_ok:
  assumes ok: "log_ok L g" and small: "log_size g 0 \<le> L" and line: "length line \<le> 2047"
    and g': "g' = g\<lparr>log_files := (log_files g)(file_path g \<mapsto> log_content (log_files g (file_path g)) @ line),
      file_pos := length (log_content (log_files g (file_path g)) @ line)\<rparr>"
  shows "kept g g' line" "log_ok L g'"
proof -
  have n: "0 < max_files g" using ok by (simp add: log_ok_def)
  have size: "log_size g' k = (if k = 0 then log_size g 0 + length line else log_size g k)" if "0 \<le> k" for k
    using that log_content_path [of k "log_files g" "file_path g"] by (simp add: g' log_size_def log_name_def)
  obtain r where "rotated g r" using ok by (auto simp: log_ok_def)
  then have "rotated g' r" using size by (auto simp: rotated_def) (simp_all add: g')
  moreover have "file_pos g' = log_size g' 0" using size [of 0] by (simp add: log_size_def log_name_def) (simp add: g')
  ultimately show "log_ok L g'" using ok small line size by (auto simp: log_ok_def) (auto simp: g')
  have "file_path g \<in> log_name (file_path g) ` {0..max_files g}" using n by (force simp: log_name_def)
  then show "kept g g' line"
    using log_history_append [of "max_files g" "file_path g" "log_files g" line] n
    by (auto simp: kept_def history_of_def g' simp del: fun_upd_apply) auto
qed

text \<open>What a list of calls writes.\<close>

definition logged :: "Level \<Rightarrow> log_call list \<Rightarrow> string" where
  "logged lv ms = concat (map log_line (filter (\<lambda>m. level_number lv \<le> level_number (lc_level m)) ms))"

lemma length_log_line: "length (log_line m) \<le> 2047"
  by (simp add: log_line_def)

text \<open>A message too long for the buffer loses its end, and with it the end of the line.\<close>

lemma log_line_cut: "2047 < length (log_full m) \<Longrightarrow> log_line m = take 2047 (butlast (log_full m))"
  by (simp add: log_line_def butlast_conv_take)

lemma log_call_ok:
  assumes ok: "log_ok L g" and E: "can_open E (file_path g)" "\<And>k. open_pos E k \<le> k"
  shows "log_ok L (log_call E m g) \<and> kept g (log_call E m g) (logged (min_level g) [m]) \<and>
    log_console (log_call E m g) = log_console g @ logged (min_level g) [m]"
proof (cases "level_number (lc_level m) < level_number (min_level g)")
  case True
  then show ?thesis using ok by (simp add: log_call_def logged_def)
next
  case False
  let ?g = "g\<lparr>log_console := log_console g @ log_line m\<rparr>"
  let ?r = "rotate_if_needed E ?g"
  have same: "log_ok L ?g" "can_open E (file_path ?g)" "kept g ?g []"
    using ok E(1) by (simp_all add: log_ok_def rotated_def log_size_def kept_def history_of_def)
  note r = rotate_ok [OF same(1,2) E(2)]
  let ?a = "?r\<lparr>log_files := (log_files ?r)(file_path ?r \<mapsto> log_content (log_files ?r (file_path ?r)) @ log_line m),
      file_pos := length (log_content (log_files ?r (file_path ?r)) @ log_line m)\<rparr>"
  have "file_open g" "file_open ?r" using ok r(2) by (simp_all add: log_ok_def)
  then have a: "log_call E m g = ?a" using False by (simp add: log_call_def Let_def del: fun_upd_apply)
  have "log_console ?r = log_console ?g" by (simp add: rotate_if_needed_def open_log_file_def Let_def)
  then have "log_console ?a = log_console g @ log_line m" by simp
  moreover have "logged (min_level g) [m] = log_line m" using False by (simp add: logged_def)
  ultimately show ?thesis
    unfolding a using append_ok [OF r(2,3) length_log_line refl, of m] kept_trans [OF kept_trans [OF same(3) r(1)], of ?a "log_line m"]
    by (simp del: fun_upd_apply)
qed

lemma logged_Cons: "logged lv (m # ms) = logged lv [m] @ logged lv ms"
  by (simp add: logged_def)

section \<open>Properties\<close>

text \<open>C35: The server's log keeps the latest entries. Whatever is logged, the files, read from the oldest to the current one, hold
  the end of everything that was written to them, in order and without a gap: all of it, or at least as much as
  the number of old files times the limit of a file; no file exceeds the limit by more than a line; no other file is touched;
  and the console has everything of the level asked for.\<close>

theorem log_keeps_latest:
  assumes "log_ok L g" "can_open E (file_path g)" "\<And>k. open_pos E k \<le> k"
  shows "suffix (history_of (fold (log_call E) ms g)) (history_of g @ logged (min_level g) ms) \<and>
    (history_of (fold (log_call E) ms g) = history_of g @ logged (min_level g) ms \<or>
     nat (max_files g) * max_file_size g \<le> length (history_of (fold (log_call E) ms g))) \<and>
    (\<forall>k \<in> {0..max_files g}. log_size (fold (log_call E) ms g) k \<le> L + 2047) \<and>
    (\<forall>q. q \<notin> log_name (file_path g) ` {0..max_files g} \<longrightarrow> log_files (fold (log_call E) ms g) q = log_files g q) \<and>
    log_console (fold (log_call E) ms g) = log_console g @ logged (min_level g) ms"
proof -
  have "log_ok L (fold (log_call E) ms g) \<and> kept g (fold (log_call E) ms g) (logged (min_level g) ms) \<and>
      log_console (fold (log_call E) ms g) = log_console g @ logged (min_level g) ms"
    using assms(1,2)
  proof (induction ms arbitrary: g)
    case Nil
    then show ?case by (simp add: logged_def)
  next
    case (Cons m ms)
    note call = log_call_ok [OF Cons.prems assms(3), of m]
    then have "file_path (log_call E m g) = file_path g" "min_level (log_call E m g) = min_level g" by (simp_all add: kept_def)
    then show ?case
      using Cons.IH [of "log_call E m g"] Cons.prems(2) call kept_trans [of g "log_call E m g" "logged (min_level g) [m]"]
      by (simp add: logged_Cons [of _ m ms])
  qed
  then show ?thesis by (auto simp: kept_def log_ok_def)
qed

theorem log_keeps_latest_witness:
  "let E = \<lparr>env_level = None, can_open = (\<lambda>_. True), open_pos = id\<rparr>;
       m = (\<lambda>lv t. \<lparr>lc_level = lv, lc_time = ''2026-01-01 00:00:00'', lc_ms = 7, lc_thread = 42, lc_msg = t\<rparr>);
       g = fold (log_call E) [m Level_Debug ''x'', m Level_Info ''up''] (ServerLogger_init E ''logs'' (new_logger Map.empty))
   in log_console g = ''[2026-01-01 00:00:00.007] [INFO ] [0042] up'' @ [CHR 0x0A] \<and>
      log_size g 0 \<le> 5 * 1024 * 1024 + 2047"
proof -
  let ?E = "\<lparr>env_level = None, can_open = (\<lambda>_. True), open_pos = id\<rparr>"
  let ?m = "\<lambda>lv t. \<lparr>lc_level = lv, lc_time = ''2026-01-01 00:00:00'', lc_ms = 7, lc_thread = 42, lc_msg = t\<rparr>"
  let ?g = "ServerLogger_init ?E ''logs'' (new_logger Map.empty)"
  have g: "?g = \<lparr>log_files = [''logs/lanchat-server.log'' \<mapsto> []], log_console = [], file_path = ''logs/lanchat-server.log'',
      file_open = True, file_pos = 0, min_level = Level_Info, max_file_size = 5 * 1024 * 1024, max_files = 3\<rparr>"
    by (simp add: ServerLogger_init_def log_init_def open_log_file_def new_logger_def Let_def)
  have size: "log_size ?g k = 0" for k by (simp add: g log_size_def)
  then have "rotated ?g 0" by (simp add: rotated_def g)
  then have "log_ok (5 * 1024 * 1024) ?g" using size by (auto simp: log_ok_def) (simp_all add: g)
  from log_keeps_latest [OF this, of ?E "[?m Level_Debug ''x'', ?m Level_Info ''up'']"]
  have "log_console (fold (log_call ?E) [?m Level_Debug ''x'', ?m Level_Info ''up''] ?g) =
      logged Level_Info [?m Level_Debug ''x'', ?m Level_Info ''up''] \<and>
    log_size (fold (log_call ?E) [?m Level_Debug ''x'', ?m Level_Info ''up''] ?g) 0 \<le> 5 * 1024 * 1024 + 2047"
    by (simp add: g)
  moreover have "logged Level_Info [?m Level_Debug ''x'', ?m Level_Info ''up''] =
      ''[2026-01-01 00:00:00.007] [INFO ] [0042] up'' @ [CHR 0x0A]"
    by code_simp
  ultimately show ?thesis unfolding Let_def by simp
qed

end
