(* ===== verification/LegacyLog.thy ===== *)
theory LegacyLog
  imports LegacyServer LegacyClientWidgets
begin

text \<open>
  What the old server shows and logs: \<^verbatim>\<open>legacy/legacy-common/LegacyLogger.cpp\<close>, the status and the addresses in the
  window of \<^verbatim>\<open>legacy/original-server/MainWindow.cpp\<close>, and the calls of the log in \<^verbatim>\<open>NetworkThread.cpp\<close>.

  \<open>show_event\<close> says what an event of \<open>LegacyServer\<close> adds to the display and the log, given the state in which it happens;
  \<open>watched\<close> are the states of the process together with what was shown on the way to them. The lock of the log is left
  out: the entries of a step stand together.

  Shown here: the number of connections in the status is the number of threads that run or whose end was not yet
  handled; and whoever makes a group can write lines of the log.
\<close>

section \<open>The environment\<close>

text \<open>
  \<open>ql_arg\<close> is \<open>QString::arg\<close>, \<open>ql_left\<close> cuts a text to 200 characters, \<open>ql_newline\<close> is what a file opened as text gets for a
  line feed. \<open>ql_time\<close> and \<open>ql_opens\<close> are the time at which an entry of the log is written, and whether the file
  can be opened then; entries are known by their number. \<open>ql_address\<close> and \<open>ql_port\<close> are those of the peer of a
  connection, \<open>ql_host\<close> the addresses of the computer, with whether they are of version 4.
\<close>

record log_qt =
  ql_arg :: "string \<Rightarrow> string \<Rightarrow> string"
  ql_left :: "string \<Rightarrow> string"
  ql_newline :: string
  ql_time :: "nat \<Rightarrow> string"
  ql_opens :: "nat \<Rightarrow> bool"
  ql_address :: "nat \<Rightarrow> string"
  ql_port :: "nat \<Rightarrow> int"
  ql_host :: "(bool \<times> string) list"

text \<open>What the log has written to the file and to the debug output, and what the window shows.\<close>

record legacy_display =
  server_log :: string
  log_debug :: "string list"
  textBrowser :: "string list"
  label_ip :: string

section \<open>The log\<close>

definition legacy_log_line :: "log_qt \<Rightarrow> string \<Rightarrow> string \<Rightarrow> string \<Rightarrow> string" where
  "legacy_log_line Q time level message = ql_arg Q (ql_arg Q (ql_arg Q ''[%1] [%2] %3'' time) level) message"

text \<open>What \<open>QIODevice::Text\<close> makes of a text.\<close>

definition text_mode :: "log_qt \<Rightarrow> string \<Rightarrow> string" where
  "text_mode Q s = concat (map (\<lambda>c. if c = CHR 0x0A then ql_newline Q else [c]) s)"

definition legacy_log_write :: "log_qt \<Rightarrow> string \<Rightarrow> string \<Rightarrow> legacy_display \<Rightarrow> legacy_display" where
  "legacy_log_write Q level message L =
     (let k = length (log_debug L);
          line = legacy_log_line Q (ql_time Q k) level message;
          L = (if ql_opens Q k then L\<lparr>server_log := server_log L @ text_mode Q (line @ [CHR 0x0A])\<rparr> else L)
      in L\<lparr>log_debug := log_debug L @ [line]\<rparr>)"

definition legacy_info :: "log_qt \<Rightarrow> string \<Rightarrow> legacy_display \<Rightarrow> legacy_display" where
  "legacy_info Q message = legacy_log_write Q ''INFO'' message"

definition legacy_warn :: "log_qt \<Rightarrow> string \<Rightarrow> legacy_display \<Rightarrow> legacy_display" where
  "legacy_warn Q message = legacy_log_write Q ''WARN'' message"

definition legacy_error :: "log_qt \<Rightarrow> string \<Rightarrow> legacy_display \<Rightarrow> legacy_display" where
  "legacy_error Q message = legacy_log_write Q ''ERROR'' message"

section \<open>The window\<close>

definition appendServerStatus :: "log_qt \<Rightarrow> string \<Rightarrow> legacy_display \<Rightarrow> legacy_display" where
  "appendServerStatus Q message L = legacy_info Q message (L\<lparr>textBrowser := textBrowser L @ [message]\<rparr>)"

definition showHostIp :: "log_qt \<Rightarrow> legacy_display \<Rightarrow> legacy_display" where
  "showHostIp Q L = L\<lparr>label_ip := concat (map (\<lambda>(v4, a). if v4 then CHR ''*'' # a else []) (ql_host Q))\<rparr>"

definition legacy_port :: int where "legacy_port = 12345"

text \<open>What the constructor of the window shows; \<open>f\<close> is what the file held before.\<close>

definition new_display :: "log_qt \<Rightarrow> string \<Rightarrow> legacy_display" where
  "new_display Q f =
     appendServerStatus Q (ql_arg Q ''Server listening on port %1'' (to_string legacy_port))
       (showHostIp Q \<lparr>server_log = f, log_debug = [], textBrowser = [], label_ip = []\<rparr>)"

text \<open>The status lines of the slots; \<open>s\<close> is the state before the slot, \<open>s'\<close> the one after it.\<close>

definition show_newConnection :: "log_qt \<Rightarrow> 'db lserver \<Rightarrow> legacy_display \<Rightarrow> legacy_display" where
  "show_newConnection Q s' L =
     appendServerStatus Q (ql_arg Q ''Client connected. active=%1'' (to_string (activeConnections s'))) L"

definition show_loginSuccess ::
  "log_qt \<Rightarrow> UserData \<Rightarrow> 'db lserver \<Rightarrow> 'db lserver \<Rightarrow> legacy_display \<Rightarrow> legacy_display" where
  "show_loginSuccess Q user s s' L =
     (if users_find user (usersOnline s) \<noteq> None then L
      else
        appendServerStatus Q
          (ql_arg Q (ql_arg Q ''User %1 login success. online=%2'' (to_string (l_id user)))
            (to_string (int (length (usersOnline s'))))) L)"

definition show_sendMsg ::
  "log_qt \<Rightarrow> UserData \<Rightarrow> UserData \<Rightarrow> 'db lserver \<Rightarrow> legacy_display \<Rightarrow> legacy_display" where
  "show_sendMsg Q from to s L =
     (if users_find to (usersOnline s) = None then L
      else
        appendServerStatus Q
          (ql_arg Q (ql_arg Q ''private %1 -> %2'' (to_string (l_id from))) (to_string (l_id to))) L)"

definition show_userOffline :: "log_qt \<Rightarrow> UserData \<Rightarrow> 'db lserver \<Rightarrow> legacy_display \<Rightarrow> legacy_display" where
  "show_userOffline Q user s' L =
     appendServerStatus Q
       (ql_arg Q (ql_arg Q (ql_arg Q ''User %1 disconnected. active=%2 online=%3'' (to_string (l_id user)))
         (to_string (activeConnections s'))) (to_string (int (length (usersOnline s'))))) L"

definition show_createGroup :: "log_qt \<Rightarrow> int \<Rightarrow> string \<Rightarrow> legacy_display \<Rightarrow> legacy_display" where
  "show_createGroup Q groupId name L =
     appendServerStatus Q (ql_arg Q (ql_arg Q ''Channel created: %1 %2'' (to_string groupId)) name) L"

definition show_slot ::
  "log_qt \<Rightarrow> lsignal \<Rightarrow> 'db lserver \<Rightarrow> 'db lserver \<Rightarrow> legacy_display \<Rightarrow> legacy_display" where
  "show_slot Q sg s s' L =
     (case sg of
        LoginSuccessSignal user t \<Rightarrow> show_loginSuccess Q user s s' L
      | SendMsgSignal from to msg \<Rightarrow> show_sendMsg Q from to s L
      | UserOfflineSignal user \<Rightarrow> show_userOffline Q user s' L
      | CreateGroupSignal name t \<Rightarrow> show_createGroup Q (createGroupId s) name L
      | _ \<Rightarrow> L)"

section \<open>The connections\<close>

definition log_connected :: "log_qt \<Rightarrow> nat \<Rightarrow> legacy_display \<Rightarrow> legacy_display" where
  "log_connected Q i L =
     legacy_info Q (ql_arg Q (ql_arg Q ''Client connected: %1:%2'' (ql_address Q i)) (to_string (ql_port Q i))) L"

definition log_disconnected :: "log_qt \<Rightarrow> nat \<Rightarrow> NetWorkThread \<Rightarrow> legacy_display \<Rightarrow> legacy_display" where
  "log_disconnected Q i t L =
     (if isDisconnected t then
        legacy_info Q
          (ql_arg Q (ql_arg Q ''Client disconnected: user=%1 port=%2'' (to_string (l_id (nt_user t))))
            (to_string (ql_port Q i))) L
      else L)"

text \<open>The labels of the \<open>switch\<close> in \<open>run\<close>.\<close>

definition legacy_dispatched :: "legacyType list" where
  "legacy_dispatched =
     [registerUser, login, loginSucReturn, sendMsg, receiveMsg, userOnline, userOffline, createGroup, createGroupReturn,
      searchGroup, searchGroupReturn, joinGroup, joinGroupReturn, userJoinGroup, leaveGroup, userLeaveGroup,
      sendGroupMsg, receiveGroupMsg]"

definition log_invalid :: "log_qt \<Rightarrow> ('db, 'e) net_env_scheme \<Rightarrow> nat \<Rightarrow> NetWorkThread \<Rightarrow> legacy_display \<Rightarrow> legacy_display" where
  "log_invalid Q E i t L =
     (case msgQueue t of
        [] \<Rightarrow> L
      | data # q \<Rightarrow>
          if msgType (q_from_json E) data \<in> set (map legacy_value legacy_dispatched) then L
          else
            legacy_warn Q
              (ql_arg Q (ql_arg Q ''Invalid message type from port %1: %2'' (to_string (ql_port Q i))) (ql_left Q data)) L)"

section \<open>What an event shows\<close>

definition show_event ::
  "log_qt \<Rightarrow> ('db, 'e) net_env_scheme \<Rightarrow> levent \<Rightarrow> 'db lserver \<Rightarrow> legacy_display \<Rightarrow> legacy_display" where
  "show_event Q E ev s L =
     (case ev of
        Connect \<Rightarrow> log_connected Q (length (lthreads s)) (show_newConnection Q (newConnection s) L)
      | Top i \<Rightarrow> log_disconnected Q i (lthreads s ! i) L
      | Pop i \<Rightarrow> log_invalid Q E i (lthreads s ! i) L
      | Slot \<Rightarrow> show_slot Q (hd (signals s)) s (lhandle E Slot s) L
      | _ \<Rightarrow> L)"

inductive watched ::
  "log_qt \<Rightarrow> ('db, 'e) net_env_scheme \<Rightarrow> string \<Rightarrow> 'db lserver \<Rightarrow> legacy_display \<Rightarrow> bool" for Q E f where
  start: "watched Q E f (new_MainWindow E) (new_display Q f)"
| step: "watched Q E f s L \<Longrightarrow> lpossible ev s \<Longrightarrow> watched Q E f (lhandle E ev s) (show_event Q E ev s L)"

section \<open>Texts with arguments\<close>

text \<open>
  A text with markers: a part without percent signs, then markers of one digit, each with the part behind it. What
  Qt documents of \<open>arg\<close>: the marker with the lowest number is replaced. Here it is the first one.
\<close>

definition fmt :: "(char \<times> string) list \<Rightarrow> string" where
  "fmt ms = concat (map (\<lambda>(d, t). CHR ''%'' # d # t) ms)"

definition plain :: "string \<Rightarrow> bool" where
  "plain t \<longleftrightarrow> CHR ''%'' \<notin> set t \<and> (t = [] \<or> \<not> isdigit (hd t))"

definition mark_ok :: "char \<times> string \<Rightarrow> bool" where
  "mark_ok m \<longleftrightarrow> isdigit (fst m) \<and> fst m \<noteq> CHR ''0'' \<and> plain (snd m)"

definition mark_number :: "char \<Rightarrow> nat" where
  "mark_number d = of_char d - 48"

lemmas fmt_simps = fmt_def plain_def mark_ok_def mark_number_def isdigit_def

locale qt_arg =
  fixes arg :: "string \<Rightarrow> string \<Rightarrow> string"
  assumes arg_lowest:
    "CHR ''%'' \<notin> set p \<Longrightarrow> list_all mark_ok ((d, t) # ms) \<Longrightarrow> list_all (\<lambda>m. mark_number d < mark_number (fst m)) ms \<Longrightarrow>
      arg (p @ fmt ((d, t) # ms)) a = p @ a @ t @ fmt ms"
begin

lemma one: "CHR ''%'' \<notin> set p \<Longrightarrow> arg (p @ ''%1'') a = p @ a"
  using arg_lowest [of p "CHR ''1''" "[]" "[]" a] by (simp add: fmt_simps)

lemma two:
  assumes "CHR ''%'' \<notin> set p" "CHR ''%'' \<notin> set a" "plain t"
  shows "arg (arg (p @ ''%1'' @ t @ ''%2'') a) b = p @ a @ t @ b"
  using assms arg_lowest [of p "CHR ''1''" t "[(CHR ''2'', [])]" a] arg_lowest [of "p @ a @ t" "CHR ''2''" "[]" "[]" b]
  by (simp add: fmt_simps)

lemma three:
  assumes "CHR ''%'' \<notin> set p" "CHR ''%'' \<notin> set a" "CHR ''%'' \<notin> set b" "plain t" "plain u"
  shows "arg (arg (arg (p @ ''%1'' @ t @ ''%2'' @ u @ ''%3'') a) b) c = p @ a @ t @ b @ u @ c"
  using assms arg_lowest [of p "CHR ''1''" t "[(CHR ''2'', u), (CHR ''3'', [])]" a]
    arg_lowest [of "p @ a @ t" "CHR ''2''" u "[(CHR ''3'', [])]" b]
    arg_lowest [of "p @ a @ t @ b @ u" "CHR ''3''" "[]" "[]" c]
  by (simp add: fmt_simps)

end

text \<open>The function \<open>ref_arg\<close> satisfies this contract as well.\<close>

lemma fmt_Cons: "fmt (m # ms) = CHR ''%'' # fst m # snd m @ fmt ms"
  by (simp add: fmt_def split_def)

lemma fmt_hd: "fmt ms = [] \<or> hd (fmt ms) = CHR ''%''"
  by (cases ms) (simp_all add: fmt_def split_def)

lemma marker_here: "mark_ok m \<Longrightarrow> marker_at (fmt (m # ms)) = Some (mark_number (fst m), 1)"
  using fmt_hd [of ms] by (cases "snd m"; cases "fmt ms") (auto simp: fmt_Cons mark_ok_def plain_def mark_number_def isdigit_def)

lemma skip_plain:
  assumes "CHR ''%'' \<notin> set t"
  shows "lowest_marker (t @ r) = lowest_marker r" "put_arg n a 0 (t @ r) = t @ put_arg n a 0 r"
  using assms by (induction t) auto

lemma skip_mark:
  assumes "mark_ok m"
  shows "lowest_marker (fmt (m # ms)) =
      Some (case lowest_marker (fmt ms) of None \<Rightarrow> mark_number (fst m) | Some n \<Rightarrow> min (mark_number (fst m)) n)"
    "put_arg n a 0 (fmt (m # ms)) =
      (if mark_number (fst m) = n then a @ snd m @ put_arg n a 0 (fmt ms)
       else CHR ''%'' # fst m # snd m @ put_arg n a 0 (fmt ms))"
proof -
  have m: "CHR ''%'' \<notin> set (snd m)" "fst m \<noteq> CHR ''%''"
    using assms by (auto simp: mark_ok_def plain_def isdigit_def)
  note here = marker_here [OF assms, of ms, unfolded fmt_Cons]
  show "lowest_marker (fmt (m # ms)) =
      Some (case lowest_marker (fmt ms) of None \<Rightarrow> mark_number (fst m) | Some n \<Rightarrow> min (mark_number (fst m)) n)"
    using m here by (simp add: fmt_Cons skip_plain split: option.split)
  show "put_arg n a 0 (fmt (m # ms)) =
      (if mark_number (fst m) = n then a @ snd m @ put_arg n a 0 (fmt ms)
       else CHR ''%'' # fst m # snd m @ put_arg n a 0 (fmt ms))"
    using m here by (simp add: fmt_Cons skip_plain)
qed

lemma fmt_Nil [simp]: "fmt [] = []"
  by (simp add: fmt_def)

lemma above_marks:
  assumes "list_all mark_ok ms" "list_all (\<lambda>m. n < mark_number (fst m)) ms"
  shows "case lowest_marker (fmt ms) of None \<Rightarrow> True | Some k \<Rightarrow> n < k" "put_arg n a 0 (fmt ms) = fmt ms"
  using assms by (induction ms) (simp_all add: skip_mark fmt_Cons [symmetric] split: option.splits)

interpretation ref_qt_arg: qt_arg ref_arg
proof
  fix p t a :: string and d :: char and ms :: "(char \<times> string) list"
  assume p: "CHR ''%'' \<notin> set p" and ok: "list_all mark_ok ((d, t) # ms)"
    and less: "list_all (\<lambda>m. mark_number d < mark_number (fst m)) ms"
  have "lowest_marker (fmt ((d, t) # ms)) = Some (mark_number d)"
    using ok above_marks(1) [OF _ less] by (auto simp: skip_mark min_def split: option.splits)
  then show "ref_arg (p @ fmt ((d, t) # ms)) a = p @ a @ t @ fmt ms"
    using ok p above_marks(2) [OF _ less] by (simp add: ref_arg_def skip_plain skip_mark)
qed

section \<open>Counting connections\<close>

text \<open>The threads that have not ended, and the ends that the main thread has not handled yet.\<close>

definition running :: "'db lserver \<Rightarrow> nat" where
  "running s = length (filter (\<lambda>p. p \<noteq> Done) (map nt_phase (lthreads s)))"

definition is_offline :: "lsignal \<Rightarrow> bool" where
  "is_offline sg \<longleftrightarrow> (case sg of UserOfflineSignal u \<Rightarrow> True | _ \<Rightarrow> False)"

definition ends_pending :: "'db lserver \<Rightarrow> nat" where
  "ends_pending s = length (filter is_offline (signals s))"

definition count_inv :: "'db lserver \<Rightarrow> bool" where
  "count_inv s \<longleftrightarrow>
     activeConnections s = int (running s + ends_pending s) \<and> running s + ends_pending s \<le> length (lthreads s)"

lemma tell_phase:
  assumes "\<And>t. nt_phase (f t) = nt_phase t"
  shows "map nt_phase (lthreads (tell f i s)) = map nt_phase (lthreads s)" "activeConnections (tell f i s) = activeConnections s"
  using assms by (simp_all add: tell_def map_update) (metis list_update_id map_update)

lemma add_phase [simp]:
  "nt_phase (addLoginSuccessInfo E u fs t) = nt_phase t" "nt_phase (addReceiveMsgInfo E a b m t) = nt_phase t"
  "nt_phase (addUserOnlineInfo E u t) = nt_phase t" "nt_phase (addUserOfflineInfo E u t) = nt_phase t"
  "nt_phase (addCreateGroupReturnInfo E g t) = nt_phase t" "nt_phase (addSearchGroupReturnInfo E gs ns t) = nt_phase t"
  "nt_phase (addJoinGroupReturnInfo E g fs t) = nt_phase t" "nt_phase (addUserJoinGroupInfo E u g t) = nt_phase t"
  "nt_phase (addUserLeaveGroupInfo E u g t) = nt_phase t" "nt_phase (addReceiveGroupMsgInfo E u g m t) = nt_phase t"
  by (simp_all add: add_defs push_msg_def)

lemma fold_tell_phase:
  assumes "\<And>x t. nt_phase (f x t) = nt_phase t"
  shows "map nt_phase (lthreads (fold (\<lambda>x. tell (f x) (i x)) xs s)) = map nt_phase (lthreads s)"
    "activeConnections (fold (\<lambda>x. tell (f x) (i x)) xs s) = activeConnections s"
  using assms by (induction xs arbitrary: s) (simp_all add: tell_phase)

lemma mdao_count [simp]: "activeConnections (mdao E s) = activeConnections s" "activeConnections (on_mdao E f s) = activeConnections s"
  by (simp_all add: mdao_def on_mdao_def Let_def)

lemma key_count: "groupKeyById E g s = (k, s') \<Longrightarrow> activeConnections s' = activeConnections s"
  using groupKeyById_same(6) [of E g s k s'] by auto

lemmas count_simps = tell_phase fold_tell_phase tell_lists Let_def

lemma slot_phase: "map nt_phase (lthreads (slot E sg s)) = map nt_phase (lthreads s)"
  by (auto simp: slot_def count_simps loginSuccess_def slot_sendMsg_def slot_userOffline_def slot_createGroup_def
      slot_searchGroup_def slot_joinGroup_def slot_leaveGroup_def slot_sendGroupMsg_def dest!: groupKeyById_same(4)
      split: lsignal.split option.split prod.split)

lemma slot_active: "activeConnections (slot E sg s) =
    (if is_offline sg \<and> 0 < activeConnections s then activeConnections s - 1 else activeConnections s)"
  by (auto simp: slot_def is_offline_def count_simps loginSuccess_def slot_sendMsg_def slot_userOffline_def slot_createGroup_def
      slot_searchGroup_def slot_joinGroup_def slot_leaveGroup_def slot_sendGroupMsg_def dest!: key_count
      split: lsignal.split option.split prod.split)

lemma slot_signals: "signals (slot E sg s) = signals s"
  by (auto simp: slot_def count_simps loginSuccess_def slot_sendMsg_def slot_userOffline_def slot_createGroup_def
      slot_searchGroup_def slot_joinGroup_def slot_leaveGroup_def slot_sendGroupMsg_def dest!: groupKeyById_same(3)
      split: lsignal.split option.split prod.split)

lemma filter_update:
  "i < length xs \<Longrightarrow>
    length (filter P (xs[i := y])) + (if P (xs ! i) then 1 else 0) = length (filter P xs) + (if P y then 1 else 0)"
proof (induction xs arbitrary: i)
  case (Cons x xs)
  then show ?case using Cons.IH [of "i - 1"] by (cases i) auto
qed simp

lemma deal_count:
  "filter is_offline (posted (deal E i data w)) = filter is_offline (posted w)"
  "nt_phase (nt (deal E i data w)) = nt_phase (nt w)"
  by (simp_all add: deal_defs Let_def is_offline_def sendJson_def emit_def split: prod.split)

lemma run_pop_count:
  "filter is_offline (posted (run_pop E i w)) = filter is_offline (posted w)" "nt_phase (nt (run_pop E i w)) = AtTop"
  by (simp_all add: run_pop_def deal_count Let_def split: list.split)

lemma run_top_count:
  "nt_phase (nt (run_top E w)) = (if isDisconnected (nt w) then Done else AtPop)"
  "length (filter is_offline (posted (run_top E w))) =
    length (filter is_offline (posted w)) + (if isDisconnected (nt w) then 1 else 0)"
  by (simp_all add: run_top_def Let_def emit_def is_offline_def)

lemma on_thread_count:
  assumes "i < length (lthreads s)" "nt_phase (lthreads s ! i) \<noteq> Done"
    and w: "w = f \<lparr>nt = lthreads s ! i, dao = ldb s, posted = []\<rparr>"
  shows "running (on_thread i f s) + 1 = running s + (if nt_phase (nt w) = Done then 0 else 1)"
    "ends_pending (on_thread i f s) = ends_pending s + length (filter is_offline (posted w))"
    "activeConnections (on_thread i f s) = activeConnections s"
    "length (lthreads (on_thread i f s)) = length (lthreads s)"
  using filter_update [of i "map nt_phase (lthreads s)" "\<lambda>p. p \<noteq> Done" "nt_phase (nt w)"] assms(1,2)
  by (auto simp: on_thread_def Let_def running_def ends_pending_def map_update w)

lemma count_on_thread:
  assumes "count_inv s" "i < length (lthreads s)" "nt_phase (lthreads s ! i) \<noteq> Done"
    "length (filter is_offline (posted (f \<lparr>nt = lthreads s ! i, dao = ldb s, posted = []\<rparr>))) =
      (if nt_phase (nt (f \<lparr>nt = lthreads s ! i, dao = ldb s, posted = []\<rparr>)) = Done then 1 else 0)"
  shows "count_inv (on_thread i f s)"
  using on_thread_count [OF assms(2,3) refl, of f] assms(1,4) by (auto simp: count_inv_def split: if_splits)

lemma count_slot:
  assumes "count_inv s" "signals s \<noteq> []"
  shows "count_inv (lhandle E Slot s)"
proof -
  obtain sg sgs where "signals s = sg # sgs" using assms(2) by (cases "signals s") auto
  moreover have "map nt_phase (lthreads (lhandle E Slot s)) = map nt_phase (lthreads s)"
    by (simp add: lhandle_def slot_phase)
  then have "running (lhandle E Slot s) = running s" "length (lthreads (lhandle E Slot s)) = length (lthreads s)"
    by (simp add: running_def, metis length_map)
  ultimately show ?thesis
    using assms(1) by (auto simp: count_inv_def lhandle_def ends_pending_def slot_signals slot_active split: if_splits)
qed

lemma count_connect: "count_inv s \<Longrightarrow> length (lthreads s) < 2 ^ 31 - 1 \<Longrightarrow> count_inv (newConnection s)"
  by (auto simp: count_inv_def newConnection_def running_def ends_pending_def new_NetWorkThread_def in_int32_def)

lemma handle_length: "length (lthreads s) \<le> length (lthreads (lhandle E ev s))"
proof (cases ev)
  case Slot
  have "length (map nt_phase (lthreads (lhandle E Slot s))) = length (map nt_phase (lthreads s))"
    by (simp add: lhandle_def slot_phase)
  then show ?thesis using Slot by simp
qed (simp_all add: lhandle_def newConnection_def on_thread_def Let_def)

lemma count_step:
  assumes "count_inv s" "lpossible ev s" "length (lthreads (lhandle E ev s)) < 2 ^ 31"
  shows "count_inv (lhandle E ev s)"
proof (cases ev)
  case Connect
  then show ?thesis using assms count_connect [of s] by (simp add: lhandle_def newConnection_def)
next
  case (Top i)
  then show ?thesis using assms by (simp add: lhandle_def lpossible_def count_on_thread run_top_count)
next
  case (Pop i)
  then show ?thesis using assms by (simp add: lhandle_def lpossible_def count_on_thread run_pop_count)
next
  case Slot
  then show ?thesis using assms count_slot by (simp add: lpossible_def)
qed (use assms in \<open>simp_all add: lhandle_def count_inv_def running_def ends_pending_def tell_phase readyRead_def disconnected_def\<close>)

lemma watched_reach: "watched Q E f s L \<Longrightarrow> lreach E s"
  by (induction rule: watched.induct) (auto intro: lreach.intros)

lemma count_reach: "lreach E s \<Longrightarrow> length (lthreads s) < 2 ^ 31 \<Longrightarrow> count_inv s"
proof (induction rule: lreach.induct)
  case start
  show ?case by (simp add: count_inv_def new_MainWindow_def running_def ends_pending_def Let_def)
next
  case (step s ev)
  then show ?case using count_step handle_length [of s E ev] by auto
qed

section \<open>What is shown and logged\<close>

lemma number_plain [simp]: "CHR ''%'' \<notin> set (to_string i)"
  using to_string_chars [of "CHR ''%''" i] by (auto simp: isdigit_def)

lemma info_shows [simp]: "textBrowser (legacy_info Q m L) = textBrowser L"
  by (simp add: legacy_info_def legacy_log_write_def Let_def)

lemma status_shows [simp]: "textBrowser (appendServerStatus Q m L) = textBrowser L @ [m]"
  by (simp add: appendServerStatus_def)

lemma shown_connect:
  assumes "qt_arg (ql_arg Q)"
  shows "textBrowser (show_event Q E Connect s L) =
    textBrowser L @ [''Client connected. active='' @ to_string (activeConnections (newConnection s))]"
  using qt_arg.one [OF assms, of "''Client connected. active=''"]
  by (simp add: show_event_def log_connected_def show_newConnection_def)

lemma shown_offline:
  assumes "qt_arg (ql_arg Q)" "signals s = UserOfflineSignal u # sgs"
  shows "textBrowser (show_event Q E Slot s L) =
    textBrowser L @ [''User '' @ to_string (l_id u) @ '' disconnected. active='' @ to_string (activeConnections (lhandle E Slot s)) @
      '' online='' @ to_string (int (length (usersOnline (lhandle E Slot s))))]"
  using qt_arg.three [OF assms(1), of "''User ''" "to_string (l_id u)" "to_string (activeConnections (lhandle E Slot s))"
      "'' disconnected. active=''" "'' online=''" "to_string (int (length (usersOnline (lhandle E Slot s))))"] assms(2)
  by (simp add: show_event_def show_slot_def show_userOffline_def plain_def isdigit_def)

text \<open>The entry for a level and a text, and the entry for a new group.\<close>

lemma log_line_text:
  assumes "qt_arg (ql_arg Q)" "CHR ''%'' \<notin> set t" "CHR ''%'' \<notin> set l"
  shows "legacy_log_line Q t l m = ''['' @ t @ ''] ['' @ l @ ''] '' @ m"
  using qt_arg.three [OF assms(1), of "''[''" t l "''] [''" "''] ''" m] assms(2,3)
  by (simp add: legacy_log_line_def plain_def isdigit_def)

lemma group_text:
  assumes "qt_arg (ql_arg Q)"
  shows "ql_arg Q (ql_arg Q ''Channel created: %1 %2'' (to_string g)) name = ''Channel created: '' @ to_string g @ '' '' @ name"
  using qt_arg.two [OF assms, of "''Channel created: ''" "to_string g" "'' ''" name] by (simp add: plain_def isdigit_def)

lemma forged_line:
  assumes "qt_arg (ql_arg Q)" "\<And>k. CHR ''%'' \<notin> set (ql_time Q k)" "CHR ''%'' \<notin> set l"
    "ql_opens Q (length (log_debug L))" "ql_opens Q (Suc (length (log_debug L)))"
    "forged = ''['' @ ql_time Q (Suc (length (log_debug L))) @ ''] ['' @ l @ ''] '' @ b"
  shows "server_log (show_createGroup Q g (a @ CHR 0x0A # forged) L) =
    server_log (legacy_log_write Q l b (show_createGroup Q g a L))"
  using assms by (simp add: show_createGroup_def appendServerStatus_def legacy_info_def legacy_log_write_def
      log_line_text group_text text_mode_def Let_def)

text \<open>C27: The number of active connections that the old server shows. In every state it can get into, with fewer than
  2147483647 connections since its start, the counter is the number of threads that have not ended and of ended
  ones whose signal the main thread has not handled yet: the guard against a negative counter is never needed. A new
  connection is shown with this number plus one, the end of one with this number less one and the number of users left.\<close>

theorem active_connections_shown:
  assumes qa: "qt_arg (ql_arg Q)" and w: "watched Q E f s L" and n: "length (lthreads s) < 2 ^ 31 - 1"
  shows "activeConnections s = int (running s + ends_pending s) \<and>
    textBrowser (show_event Q E Connect s L) =
      textBrowser L @ [''Client connected. active='' @ to_string (int (running s + ends_pending s + 1))] \<and>
    (\<forall>u sgs. signals s = UserOfflineSignal u # sgs \<longrightarrow>
      textBrowser (show_event Q E Slot s L) =
        textBrowser L @ [''User '' @ to_string (l_id u) @ '' disconnected. active='' @
          to_string (int (running s + ends_pending s - 1)) @ '' online='' @
          to_string (int (length (users_erase u (usersOnline s))))])"
proof -
  have s: "count_inv s" "count_inv (newConnection s)"
    using count_reach [OF watched_reach [OF w]] count_connect n by auto
  have "running (newConnection s) = running s + 1" "ends_pending (newConnection s) = ends_pending s"
    by (simp_all add: newConnection_def running_def ends_pending_def new_NetWorkThread_def)
  then have "activeConnections (newConnection s) = int (running s + ends_pending s + 1)"
    using s(2) by (simp add: count_inv_def)
  moreover have "activeConnections s = int (running s + ends_pending s)" using s(1) by (simp add: count_inv_def)
  moreover have "activeConnections (lhandle E Slot s) = int (running s + ends_pending s - 1)"
    if "signals s = UserOfflineSignal u # sgs" for u sgs
    using that s(1) by (auto simp: lhandle_def slot_active count_inv_def ends_pending_def is_offline_def)
  moreover have "usersOnline (lhandle E Slot s) = users_erase u (usersOnline s)"
    if "signals s = UserOfflineSignal u # sgs" for u sgs
    using that by (simp add: lhandle_def slot_def slot_userOffline_def tell_lists Let_def)
  ultimately show ?thesis by (simp add: shown_connect [OF qa] shown_offline [OF qa])
qed

definition ref_log_qt :: log_qt where
  "ref_log_qt =
     \<lparr>ql_arg = ref_arg, ql_left = take 200, ql_newline = [CHR 0x0A], ql_time = (\<lambda>k. ''t'' @ to_string (int k)),
      ql_opens = (\<lambda>k. True), ql_address = (\<lambda>i. ''::1''), ql_port = (\<lambda>i. 50000 + int i), ql_host = [(True, ''10.0.0.1'')]\<rparr>"

lemma ref_log_arg: "qt_arg (ql_arg ref_log_qt)"
  using ref_qt_arg.qt_arg_axioms by (simp add: ref_log_qt_def)

lemma number_texts: "to_string 1 = ''1''" "to_string 2 = ''2''" "to_string 12345 = ''12345''"
  by code_simp+

lemma showHostIp_shows [simp]: "textBrowser (showHostIp Q L) = textBrowser L"
  by (simp add: showHostIp_def)

theorem active_connections_shown_witness:
  "textBrowser (show_event ref_log_qt ref_net_env Connect (new_MainWindow ref_net_env) (new_display ref_log_qt [])) =
    [''Server listening on port 12345'', ''Client connected. active=1'']"
  using active_connections_shown [OF ref_log_arg watched.start [of ref_log_qt ref_net_env "[]"]]
    qt_arg.one [OF ref_log_arg, of "''Server listening on port ''" "to_string 12345"]
  by (simp add: new_MainWindow_def running_def ends_pending_def new_display_def legacy_port_def Let_def number_texts)

text \<open>Whoever makes a group can write lines of the old server's log. If the name of a group has a line feed and then the
  text of an entry, with the time at which the next entry would be written and any level, the log file is the same
  as if the group had been made under the first line of the name and the server itself had then logged that entry.\<close>

theorem forged_log_entry:
  assumes "qt_arg (ql_arg Q)" "\<And>k. CHR ''%'' \<notin> set (ql_time Q k)" "CHR ''%'' \<notin> set level" "\<And>k. ql_opens Q k"
    and "signals s = CreateGroupSignal name t # sgs"
    and "name = a @ CHR 0x0A # ''['' @ ql_time Q (Suc (length (log_debug L))) @ ''] ['' @ level @ ''] '' @ b"
  shows "server_log (show_event Q E Slot s L) =
    server_log (legacy_log_write Q level b (show_createGroup Q (createGroupId s) a L))"
  using forged_line [OF assms(1-4) assms(4)] assms(5,6) by (simp add: show_event_def show_slot_def)

theorem forged_log_entry_witness:
  "let s = (new_MainWindow ref_net_env)
         \<lparr>signals := [CreateGroupSignal (''cats'' @ CHR 0x0A # ''[t2] [ERROR] disk full'') 0]\<rparr>;
       L = new_display ref_log_qt []
   in server_log (show_event ref_log_qt ref_net_env Slot s L) =
      server_log (legacy_error ref_log_qt ''disk full'' (show_createGroup ref_log_qt (createGroupId s) ''cats'' L))"
proof -
  let ?s = "(new_MainWindow ref_net_env)
    \<lparr>signals := [CreateGroupSignal (''cats'' @ CHR 0x0A # ''[t2] [ERROR] disk full'') 0]\<rparr>"
  have "length (log_debug (new_display ref_log_qt [])) = 1"
    by (simp add: new_display_def appendServerStatus_def legacy_info_def legacy_log_write_def showHostIp_def Let_def)
  moreover have "ql_time ref_log_qt (Suc 1) = ''t2''" "ql_opens ref_log_qt k" "CHR ''%'' \<notin> set (ql_time ref_log_qt k)" for k
    by (simp_all add: ref_log_qt_def number_texts)
  ultimately show ?thesis
    using forged_log_entry [OF ref_log_arg, of "''ERROR''" ?s _ 0 "[]" "''cats''" "new_display ref_log_qt []" "''disk full''"
        ref_net_env]
    by (simp add: legacy_error_def)
qed

text \<open>The address of a peer can hold a marker, as the scope of a link-local one; the port is then put in its place too.\<close>

lemma peer_address_marker:
  assumes "qt_arg (ql_arg Q)" "CHR ''%'' \<notin> set a" "ql_address Q i = a @ ''%1''"
  shows "log_connected Q i L = legacy_info Q (''Client connected: '' @ a @ to_string (ql_port Q i) @ '':%2'') L"
  using qt_arg.arg_lowest [OF assms(1), of "''Client connected: ''" "CHR ''1''" "'':''" "[(CHR ''2'', [])]" "a @ ''%1''"]
    qt_arg.arg_lowest [OF assms(1), of "''Client connected: '' @ a" "CHR ''1''" "'':''" "[(CHR ''2'', [])]" "to_string (ql_port Q i)"]
    assms(2,3)
  by (simp add: log_connected_def fmt_simps)

end
