(* ===== verification/Spec2Isabelle.thy ===== *)
theory Spec2Isabelle
  imports EndToEnd UnitTests LegacyEndToEnd ClientCompatibility ServerLog LegacyLog
begin

text \<open>
  LanChat-Next: a chat server for local networks.

  \<^bold>\<open>The program.\<close> The server of \<^verbatim>\<open>src/server\<close> is one process with one thread. Clients connect over TCP
  and exchange JSON texts, each in a frame with a length of four bytes in front. A session
  cuts the bytes it reads into frames and hands their texts to the router, which finds the type of
  the request, checks the user of the session, changes the stores and puts replies and messages to
  other users into the write queues of their sessions. Accounts, messages, groups and their members
  are tables of JSON rows, kept in memory and written through to SQLite; friendships are an SQLite
  table of their own. A timer closes sessions that sent no heartbeat. The old server of
  \<^verbatim>\<open>legacy/original-server\<close>, whose protocol the new one continues, is a Qt program with a thread for
  each connection and a main thread that keeps users and groups; the old client of \<^verbatim>\<open>legacy/original-client\<close> is a Qt
  program with a login dialog, which makes a main window with the users that are online, and a window for each
  conversation and group.

  \<^bold>\<open>The theories.\<close> File names are relative to \<^verbatim>\<open>src/server/src\<close> unless they begin with a directory.

    \<^item> \<open>Prelude\<close>: machine integers, exceptions (\<open>exn + 'a\<close>) and programs with a state (\<open>prog\<close>), the locale
      \<open>step_relation\<close> for relations that programs keep, and \<open>id_supply\<close> for fresh numbers.
    \<^item> \<open>MessageTypes\<close>: \<^verbatim>\<open>protocol/message_types.h\<close>. \<open>Json\<close>: \<^verbatim>\<open>vendor/mini_json.hpp\<close>, values, parser and
      serializer. \<open>ProtocolJson\<close>: \<^verbatim>\<open>ProtocolJson.h\<close>. \<open>FrameCodec\<close>: \<^verbatim>\<open>FrameCodec.cpp\<close> and the receive buffer,
      with the locale \<open>framing\<close>.
    \<^item> \<open>Sqlite\<close>: the environment \<open>env\<close>, the statements and the contract of the SQL engine, and a small
      engine that satisfies it. \<open>Database\<close>: \<^verbatim>\<open>db/Database.cpp\<close>. \<open>PasswordHash\<close>: \<^verbatim>\<open>vendor/sha256.hpp\<close> and
      \<^verbatim>\<open>vendor/lanchat_bcrypt.hpp\<close>. \<open>UserRepository\<close>, \<open>MessageRepository\<close>, \<open>ChannelRepository\<close>,
      \<open>FriendRepository\<close>, \<open>LegacyMigrator\<close>: the files of the same name in \<^verbatim>\<open>db\<close>.
    \<^item> \<open>Sessions\<close>: \<^verbatim>\<open>AsyncSession.cpp\<close>, \<^verbatim>\<open>SessionPool.cpp\<close> and \<^verbatim>\<open>PresenceManager.cpp\<close>; the record \<open>net\<close> is
      the pool with the sessions. \<open>MessageRouter\<close>: \<^verbatim>\<open>MessageRouter.cpp\<close>; the record \<open>server\<close> adds the stores,
      and one definition models each handler.
      \<open>TcpServer\<close>: \<^verbatim>\<open>TcpServer.cpp\<close>, \<^verbatim>\<open>LanChatServer.cpp\<close> and \<^verbatim>\<open>main.cpp\<close>; what asio calls back for are
      events, \<open>srv_run\<close> the sequences of events that can happen.
    \<^item> \<open>Authorship\<close>: what a request may change. \<open>RouterProperties\<close>: what single requests do. \<open>Conversations\<close>: messages to
      groups and to users who are away, over several requests. \<open>ReadLoop\<close>: the loop that reads, against messages handled
      one by one. \<open>EndToEnd\<close>: a message from the bytes of one client to the bytes of another.
      \<open>UnitTests\<close>: the repository's tests of \<^verbatim>\<open>src/tests/cpp\<close>, evaluated on the model.
    \<^item> \<open>LegacyCodec\<close>, \<open>LegacyMsgBuilder\<close>, \<open>LegacyUserDao\<close>, \<open>LegacyMessageDao\<close>, \<open>LegacyNetwork\<close>, \<open>LegacyServer\<close>:
      \<^verbatim>\<open>legacy-common/LegacyProtocolCodec.h\<close>, and of \<^verbatim>\<open>original-server\<close> the files \<^verbatim>\<open>MsgBuilder.cpp\<close>,
      \<^verbatim>\<open>UserDao.cpp\<close> with \<^verbatim>\<open>PasswordHash.h\<close>, \<^verbatim>\<open>MessageDao.cpp\<close>, \<^verbatim>\<open>NetworkThread.cpp\<close> and \<^verbatim>\<open>MainWindow.cpp\<close>.
    \<^item> \<open>LegacyClientSocket\<close>, \<open>LegacyClientWidgets\<close>, \<open>LegacyClientWindow\<close>, \<open>LegacyClient\<close>: of \<^verbatim>\<open>original-client\<close> the
      connection \<^verbatim>\<open>HHTcpSocket.cpp\<close>; \<^verbatim>\<open>FriendItem.cpp\<close>, \<^verbatim>\<open>MsgMarke.cpp\<close>, \<^verbatim>\<open>ChatItem.cpp\<close>, \<^verbatim>\<open>ChatWidget.cpp\<close>, \<^verbatim>\<open>ChatDialog.cpp\<close>,
      \<^verbatim>\<open>GroupChatDialog.cpp\<close>, \<^verbatim>\<open>CreateGroupDialog.cpp\<close> and \<^verbatim>\<open>SearchGroupDialog.cpp\<close>; \<^verbatim>\<open>MainWindow.cpp\<close>; and \<^verbatim>\<open>LoginDialog.cpp\<close>,
      \<^verbatim>\<open>RegisterDialog.cpp\<close> and \<^verbatim>\<open>main.cpp\<close> with the events of the process. Its \<^verbatim>\<open>MsgBuilder.cpp\<close> is a copy of the server's.
    \<^item> \<open>LegacyEndToEnd\<close>: the old client with the old server. \<open>ClientCompatibility\<close>: the old client with the new server.
    \<^item> \<open>ServerLog\<close>: \<^verbatim>\<open>vendor/mini_spdlog.hpp\<close> and \<^verbatim>\<open>ServerLogger.cpp\<close>. \<open>LegacyLog\<close>: \<^verbatim>\<open>legacy-common/LegacyLogger.cpp\<close>, and what
      the old server shows in its window and logs at each event.

  \<^bold>\<open>State and errors.\<close> A class is a record of its members, a method a function on the state. Methods
  that can throw are programs of type \<open>prog\<close>: they return \<open>Inl\<close> of the exception or \<open>Inr\<close> of the value, with
  the state they leave in both cases. Lengths on the wire are 32 bit words; an \<open>int\<close> is an \<^typ>\<open>int\<close> with the
  conversions \<open>to_int32\<close> and \<open>to_int64\<close> where the code converts. Strings are lists of bytes.

  \<^bold>\<open>Interfaces.\<close> \<open>framing\<close> says of a codec what makes a stream cut anywhere come out whole; the new and the
  old codec are instances. \<open>delivery_services\<close> and \<open>router_services\<close> say which changes of the state are allowed to the
  services the handlers call, and give the same for \<open>route\<close>; they are instantiated with the
  invariant of the sessions, with the rights of users (through \<open>table_policy\<close>), with the order of
  frames and with the routes. \<open>unseen_change\<close> says with which calls a change of the state must commute so that no handler
  notices it; the instance is the receive buffer. \<open>qt_json\<close> is what the old messages need of Qt's JSON, satisfied also by
  the JSON of the new server. \<open>dao_invariant\<close> carries an invariant of the stores through the old server. \<open>qt_text\<close> is what the old client needs of
  \<open>QString::arg\<close> and \<open>toInt\<close>, \<open>qt_arg\<close> what the texts of the old server need of \<open>arg\<close>.

  \<^bold>\<open>What is shown.\<close> Of the wire: what was sent as frames is received as these frames, for both
  codecs, and the parser inverts the serializer. Of the stores: rows survive a restart; accounts, messages, groups
  and friendships behave as their specifications say, the friendships as a state machine. Of the
  server: its invariant under all interleavings of events, the order of frames on each session, the
  rate limit, that a request changes nothing in the name of another user, and the effect of
  registration, login and private messages, that a message to a group reaches the members who are connected, that a
  message to a user who is away waits for the next login, that the reads into which the bytes of a client are cut do not
  matter, and the way of a message from one client's bytes to another's. Of the old server: its messages read back, accounts, an
  invariant under all interleavings of its threads, and the delivery of private messages, from the keyboard of one client to the
  window of the other. Of the old client: its invariant in all states, and that messages which wait are shown. Of the logs: what the
  files of the new one hold, that the old server shows the right number of connections, and that the name of a group can forge entries. Where the code does not do
  what it should, the theorem says what it does: an oversized reply ends the server, a second login is cut off,
  friendships can be ended by others, large frames, some reactions and texts with NUL bytes are lost,
  the old server stores no messages, and the old client reconnects once, splices the stream after a reconnection, drops what comes with the
  answer to its login, crashes on messages about groups it has left, and is user 0 at the new server.

  \<^bold>\<open>Bounds.\<close> The JSON parser is the only function with fuel: a text is given twice its length plus
  one, and \<open>parse_total_in_bounds\<close> shows that it never runs out. All other loops are structural or
  have a termination proof.

  \<^bold>\<open>What is assumed.\<close> SQLite, bcrypt, the clocks, the random bytes, the order of unordered maps and of equal elements
  after \<open>std::sort\<close>, for the old programs Qt's SQL module, JSON texts, UTF-8, texts with markers and SHA-256, and for the log the files
  that can be opened, are
  parameters; what is relied on are the hypotheses named in \<open>Sqlite\<close>, \<open>PasswordHash\<close>, \<open>LegacyMsgBuilder\<close>,
  \<open>LegacyUserDao\<close>, \<open>LegacyMessageDao\<close>, \<open>LegacyClientWidgets\<close> and \<open>LegacyLog\<close>. Which signals of Qt's sockets can come when is
  written out in \<open>LegacyClientSocket\<close>. The containers of the C++ library and of Qt, and the conversions of
  \<open>QJsonValue\<close> and \<open>QVariant\<close>, are modelled as documented.

  \<^bold>\<open>Not modelled.\<close> The calls of the log in the components of the new server; mutexes, since the new server runs in one thread, while the steps between which
  the threads of the old one interleave are those its mutex makes; asio and sockets beyond the order of bytes
  and the completion of reads and writes; \<open>stop\<close>, which only stops asio's context; the depth of the stack of the
  recursive parser; the wrap-around of the 64 bit counter of sessions; the
  layouts of the old client's windows and its closed dialogs, which nothing refers to; which
  thread may use a connection to a database in Qt. The new desktop client is a user interface in other languages; \<^verbatim>\<open>CJsonObject.cpp\<close> and \<^verbatim>\<open>cJSON.c\<close> are third-party code that is not built any more.
\<close>

end
